(* ===== verification/Prelude.thy ===== *)
theory Prelude
  imports Main "HOL-Library.AList" "HOL-Library.Char_ord" "HOL-Library.List_Lexorder"
    "HOL-Library.Multiset" "HOL-Library.Sublist"
begin

section \<open>Shared types, automation and the Go library fragments the code uses\<close>

text \<open>
  Go strings and byte slices are both sequences of bytes: they are HOL strings here, whose
  characters are 8-bit values.  The functions of this theory are the parts of Go's standard
  library (packages strings, strconv, slices) that httpmon calls, with Go's results on every
  input, with one restriction: case mapping and white space are those of ASCII, so a byte of
  a multi-byte UTF-8 sequence is never changed by ToLower and never trimmed.

  A run-time panic of Go (nil dereference, index or slice bounds, division by zero) is the
  left side of a sum; an error value a function returns is the left side of another one.
\<close>

datatype go_panic = IndexOutOfRange | SliceBounds | NilDeref | DivideByZero | MakeLen | NegativeRepeat

type_synonym 'a res = "go_panic + 'a"

type_synonym 'a or_err = "string + 'a"

named_theorems go_defs \<open>definitions of library functions, for evaluation on concrete input\<close>

subsection \<open>Lists\<close>

lemma filter_rev_concat_single [simp]: "concat (map (\<lambda>x. [x]) xs) = xs"
  by (induction xs) auto

lemma take_eq_append_iff:
  "take (length p) s = p \<longleftrightarrow> (\<exists>t. s = p @ t)"
  by (metis append_eq_conv_conj append_take_drop_id)

lemma map_of_map_fst_mem: "map_of xs k = Some v \<Longrightarrow> k \<in> fst ` set xs"
  by (force dest: map_of_SomeD)

lemma find_SomeD: "find P xs = Some x \<Longrightarrow> x \<in> set xs \<and> P x"
  by (induction xs) (auto split: if_splits)

lemma nth_rotate_mod:
  "xs \<noteq> [] \<Longrightarrow> i < length xs \<Longrightarrow> rotate n xs ! i = xs ! ((n + i) mod length xs)"
  by (simp add: nth_rotate)

text \<open>The pagination window of a list: a Go slice expression \<open>xs[off:]\<close> then \<open>[:lim]\<close>.\<close>

definition window :: "nat \<Rightarrow> nat \<Rightarrow> 'a list \<Rightarrow> 'a list" where
  "window off lim xs = take lim (drop off xs)"

lemma length_window [simp]: "length (window off lim xs) = min (length xs - off) lim"
  by (simp add: window_def min.commute)

subsection \<open>Strings: prefixes, suffixes, search\<close>

definition HasPrefix :: "string \<Rightarrow> string \<Rightarrow> bool" where
  "HasPrefix s p = (take (length p) s = p)"

definition HasSuffix :: "string \<Rightarrow> string \<Rightarrow> bool" where
  "HasSuffix s p = (length p \<le> length s \<and> drop (length s - length p) s = p)"

lemma HasPrefix_iff: "HasPrefix s p \<longleftrightarrow> (\<exists>t. s = p @ t)"
  by (simp add: HasPrefix_def take_eq_append_iff)

lemma HasPrefixE [elim?]: "HasPrefix s p \<Longrightarrow> (\<And>t. s = p @ t \<Longrightarrow> P) \<Longrightarrow> P"
  by (auto simp: HasPrefix_iff)

lemma HasSuffix_iff: "HasSuffix s p \<longleftrightarrow> (\<exists>t. s = t @ p)"
proof
  assume "HasSuffix s p"
  then show "\<exists>t. s = t @ p"
    unfolding HasSuffix_def by (metis append_take_drop_id)
qed (auto simp: HasSuffix_def)

lemma HasPrefix_Nil [simp]: "HasPrefix s []"
  by (simp add: HasPrefix_def)

lemma HasPrefix_append [simp]: "HasPrefix (p @ s) p"
  by (simp add: HasPrefix_def)

lemma HasSuffix_Nil [simp]: "HasSuffix s []"
  by (simp add: HasSuffix_def)

lemma HasPrefix_Cons [simp]: "HasPrefix (c # s) (d # p) \<longleftrightarrow> c = d \<and> HasPrefix s p"
  by (auto simp: HasPrefix_def)

lemma HasPrefix_Nil_left [simp]: "HasPrefix [] p \<longleftrightarrow> p = []"
  by (auto simp: HasPrefix_def)

definition TrimPrefix :: "string \<Rightarrow> string \<Rightarrow> string" where
  "TrimPrefix s p = (if HasPrefix s p then drop (length p) s else s)"

definition TrimSuffix :: "string \<Rightarrow> string \<Rightarrow> string" where
  "TrimSuffix s p = (if HasSuffix s p then take (length s - length p) s else s)"

text \<open>\<open>strings.Index\<close>, with \<open>None\<close> for Go's \<open>-1\<close>.\<close>

fun Index :: "string \<Rightarrow> string \<Rightarrow> nat option" where
  "Index [] p = (if p = [] then Some 0 else None)"
| "Index (c # s) p = (if HasPrefix (c # s) p then Some 0 else map_option Suc (Index s p))"

definition Contains :: "string \<Rightarrow> string \<Rightarrow> bool" where
  "Contains s p = (Index s p \<noteq> None)"

lemma Index_Some_prefix: "Index s p = Some i \<Longrightarrow> HasPrefix (drop i s) p \<and> i \<le> length s"
  by (induction s p arbitrary: i rule: Index.induct) (auto split: if_splits)

lemma Index_Some_least: "Index s p = Some i \<Longrightarrow> j < i \<Longrightarrow> \<not> HasPrefix (drop j s) p"
proof (induction s p arbitrary: i j rule: Index.induct)
  case (2 c s p)
  then show ?case by (cases j) (auto split: if_splits)
qed (auto split: if_splits)

lemma Index_None_iff: "Index s p = None \<longleftrightarrow> (\<forall>j \<le> length s. \<not> HasPrefix (drop j s) p)"
proof (induction s p rule: Index.induct)
  case (2 c s p)
  show ?case
  proof
    assume "Index (c # s) p = None"
    then have "\<not> HasPrefix (c # s) p" and "Index s p = None"
      by (auto split: if_splits)
    with 2 show "\<forall>j \<le> length (c # s). \<not> HasPrefix (drop j (c # s)) p"
      by (auto simp: drop_Cons split: nat.split)
  next
    assume all: "\<forall>j \<le> length (c # s). \<not> HasPrefix (drop j (c # s)) p"
    then have "\<not> HasPrefix (drop 0 (c # s)) p" by blast
    moreover have "\<forall>j \<le> length s. \<not> HasPrefix (drop j s) p"
    proof (intro allI impI)
      fix j assume "j \<le> length s"
      with all have "\<not> HasPrefix (drop (Suc j) (c # s)) p"
        by (metis Suc_le_mono length_Cons)
      then show "\<not> HasPrefix (drop j s) p" by simp
    qed
    ultimately show "Index (c # s) p = None" using 2 by simp
  qed
qed auto

lemma Contains_iff: "Contains s p \<longleftrightarrow> (\<exists>a b. s = a @ p @ b)"
proof
  assume "Contains s p"
  then obtain i where "Index s p = Some i" by (auto simp: Contains_def)
  from Index_Some_prefix [OF this] obtain t where "drop i s = p @ t"
    by (auto simp: HasPrefix_iff)
  then show "\<exists>a b. s = a @ p @ b" by (metis append_take_drop_id)
next
  assume "\<exists>a b. s = a @ p @ b"
  then obtain a b where "s = a @ p @ b" by blast
  then have "HasPrefix (drop (length a) s) p" and "length a \<le> length s" by simp_all
  then show "Contains s p" by (auto simp: Contains_def Index_None_iff)
qed

text \<open>\<open>strings.Cut\<close>: the text around the first separator.\<close>

definition Cut :: "string \<Rightarrow> string \<Rightarrow> (string \<times> string) option" where
  "Cut s sep = (case Index s sep of None \<Rightarrow> None
     | Some i \<Rightarrow> Some (take i s, drop (i + length sep) s))"

lemma Cut_Some: "Cut s sep = Some (a, b) \<Longrightarrow> s = a @ sep @ b"
  by (auto simp: Cut_def HasPrefix_iff dest!: Index_Some_prefix split: option.splits)
    (metis append.assoc append_eq_conv_conj append_take_drop_id drop_drop add.commute)

text \<open>\<open>strings.LastIndex(s, c)\<close> for a one-byte separator.\<close>

fun LastIndexByte :: "string \<Rightarrow> char \<Rightarrow> nat option" where
  "LastIndexByte [] c = None"
| "LastIndexByte (x # s) c = (case LastIndexByte s c of Some i \<Rightarrow> Some (Suc i)
     | None \<Rightarrow> if x = c then Some 0 else None)"

lemma LastIndexByte_None [simp]: "LastIndexByte s c = None \<longleftrightarrow> c \<notin> set s"
  by (induction s) (auto split: option.splits)

lemma LastIndexByte_append:
  "c \<notin> set b \<Longrightarrow> LastIndexByte (a @ c # b) c = Some (length a)"
  by (induction a) (auto split: option.splits)

subsection \<open>Strings: splitting and joining\<close>

text \<open>\<open>strings.Split\<close> for a one-byte separator; never empty.\<close>

fun Split :: "char \<Rightarrow> string \<Rightarrow> string list" where
  "Split c [] = [[]]"
| "Split c (x # s) =
     (if x = c then [] # Split c s
      else (case Split c s of [] \<Rightarrow> [[x]] | w # ws \<Rightarrow> (x # w) # ws))"

fun Join :: "string list \<Rightarrow> string \<Rightarrow> string" where
  "Join [] sep = []"
| "Join [w] sep = w"
| "Join (w # v # ws) sep = w @ sep @ Join (v # ws) sep"

lemma Split_not_Nil [simp]: "Split c s \<noteq> []"
  by (induction s) (auto split: list.splits)

lemma Split_no_sep: "w \<in> set (Split c s) \<Longrightarrow> c \<notin> set w"
  by (induction s arbitrary: w) (auto split: if_splits list.splits)

lemma Split_id: "c \<notin> set s \<Longrightarrow> Split c s = [s]"
  by (induction s) auto

lemma Split_append: "c \<notin> set a \<Longrightarrow> Split c (a @ c # s) = a # Split c s"
  by (induction a) auto

lemma Split_sep_mem: "c \<in> set s \<Longrightarrow> length (Split c s) \<ge> 2"
  by (induction s) (auto split: list.splits simp: Suc_le_eq)

lemma Join_Cons: "ws \<noteq> [] \<Longrightarrow> Join (w # ws) sep = w @ sep @ Join ws sep"
  by (cases ws) auto

lemma Join_Split [simp]: "Join (Split c s) [c] = s"
proof (induction s)
  case (Cons x s)
  then show ?case
    by (cases "Split c s" rule: list.exhaust) (auto simp: Join_Cons, metis Cons_eq_appendI Join.simps(2) Join_Cons)
qed simp

lemma Split_Join:
  "ws \<noteq> [] \<Longrightarrow> \<forall>w \<in> set ws. c \<notin> set w \<Longrightarrow> Split c (Join ws [c]) = ws"
  by (induction ws rule: induct_list012) (auto simp: Split_id Split_append)

lemma Split_Join_append:
  "ws \<noteq> [] \<Longrightarrow> vs \<noteq> [] \<Longrightarrow> Join (ws @ vs) sep = Join ws sep @ sep @ Join vs sep"
  by (induction ws rule: induct_list012) (auto simp: Join_Cons)

end
