(* ===== verification/Go_Text.thy ===== *)
theory Go_Text
  imports Prelude
begin

section \<open>Text: case, white space, numbers, UTF-8 and HTTP headers\<close>

text \<open>
  The remaining library fragments: ASCII case mapping and trimming, decimal conversion in
  both directions (strconv.Itoa and strconv.Atoi with its 64-bit range), the UTF-8 decoder
  behind utf8.Valid and []rune, and net/http's Header with its canonical keys.
\<close>

subsection \<open>ASCII case mapping and white space\<close>

definition byte :: "char \<Rightarrow> nat" where
  "byte c = of_char c"

definition lower_char :: "char \<Rightarrow> char" where
  "lower_char c = (if 65 \<le> byte c \<and> byte c \<le> 90 then char_of (byte c + 32) else c)"

definition upper_char :: "char \<Rightarrow> char" where
  "upper_char c = (if 97 \<le> byte c \<and> byte c \<le> 122 then char_of (byte c - 32) else c)"

definition ToLower :: "string \<Rightarrow> string" where
  "ToLower s = map lower_char s"

definition ToUpper :: "string \<Rightarrow> string" where
  "ToUpper s = map upper_char s"

definition EqualFold :: "string \<Rightarrow> string \<Rightarrow> bool" where
  "EqualFold a b = (ToLower a = ToLower b)"

definition is_space :: "char \<Rightarrow> bool" where
  "is_space c = (byte c = 32 \<or> 9 \<le> byte c \<and> byte c \<le> 13)"

definition TrimSpace :: "string \<Rightarrow> string" where
  "TrimSpace s = rev (dropWhile is_space (rev (dropWhile is_space s)))"

fun Fields_aux :: "string \<Rightarrow> string \<Rightarrow> string list" where
  "Fields_aux w [] = (if w = [] then [] else [rev w])"
| "Fields_aux w (c # s) =
     (if is_space c then (if w = [] then Fields_aux [] s else rev w # Fields_aux [] s)
      else Fields_aux (c # w) s)"

definition Fields :: "string \<Rightarrow> string list" where
  "Fields s = Fields_aux [] s"

lemma byte_lt [simp]: "byte c < 256"
  using nat_of_char_less_256 [of c] by (simp add: byte_def)

lemma byte_char_of [simp]: "byte (char_of n) = n mod 256"
  by (simp add: byte_def)

lemma byte_inj: "byte c = byte d \<longleftrightarrow> c = d"
  by (metis byte_def char_of_char)

lemma lower_char_idem [simp]: "lower_char (lower_char c) = lower_char c"
  by (auto simp: lower_char_def)

lemma lower_upper_char [simp]: "lower_char (upper_char c) = lower_char c"
proof (cases "97 \<le> byte c \<and> byte c \<le> 122")
  case True
  have "(byte c - 32) mod 256 = byte c - 32"
    by (rule mod_less) (use byte_lt [of c] in linarith)
  with True have "byte (upper_char c) = byte c - 32" by (simp add: upper_char_def)
  moreover from True have "65 \<le> byte c - 32" "byte c - 32 \<le> 90" "byte c - 32 + 32 = byte c"
    by linarith+
  ultimately have "byte (lower_char (upper_char c)) = byte c" by (simp add: lower_char_def)
  then have "lower_char (upper_char c) = c" by (simp only: byte_inj)
  with True show ?thesis by (simp add: lower_char_def)
qed (auto simp: upper_char_def)

lemma ToLower_idem [simp]: "ToLower (ToLower s) = ToLower s"
  by (simp add: ToLower_def)

lemma ToLower_ToUpper [simp]: "ToLower (ToUpper s) = ToLower s"
  by (simp add: ToLower_def ToUpper_def)

lemma ToLower_append [simp]: "ToLower (a @ b) = ToLower a @ ToLower b"
  by (simp add: ToLower_def)

lemma ToLower_Nil [simp]: "ToLower [] = []"
  by (simp add: ToLower_def)

lemma EqualFold_ToUpper [simp]: "EqualFold a (ToUpper b) = EqualFold a b"
  by (simp add: EqualFold_def)

lemma Fields_aux_nonempty: "w \<in> set (Fields_aux v s) \<Longrightarrow> w \<noteq> []"
  by (induction v s rule: Fields_aux.induct) (auto split: if_splits)

lemma TrimSpace_Nil [simp]: "TrimSpace [] = []"
  by (simp add: TrimSpace_def)

lemma dropWhile_snoc_keep: "\<not> P x \<Longrightarrow> dropWhile P (xs @ [x]) = dropWhile P xs @ [x]"
  by (induction xs) auto

lemma dropWhile_hd_id: "s \<noteq> [] \<Longrightarrow> \<not> P (hd s) \<Longrightarrow> dropWhile P s = s"
  by (cases s) auto

lemma TrimSpace_id:
  "s \<noteq> [] \<Longrightarrow> \<not> is_space (hd s) \<Longrightarrow> \<not> is_space (last s) \<Longrightarrow> TrimSpace s = s"
  by (simp add: TrimSpace_def dropWhile_hd_id hd_rev)

lemma set_TrimSpace: "set (TrimSpace s) \<subseteq> set s"
  unfolding TrimSpace_def by (metis set_dropWhileD set_rev subsetI)

lemma TrimSpace_ends:
  assumes "TrimSpace s \<noteq> []"
  shows "\<not> is_space (hd (TrimSpace s)) \<and> \<not> is_space (last (TrimSpace s))"
proof -
  let ?a = "dropWhile is_space s"
  let ?b = "dropWhile is_space (rev ?a)"
  from assms have b: "?b \<noteq> []" by (simp add: TrimSpace_def)
  then have "\<not> is_space (hd ?b)" by (rule hd_dropWhile)
  then have l: "\<not> is_space (last (TrimSpace s))"
    by (simp add: TrimSpace_def last_rev)
  from b have "?a \<noteq> []" by (metis dropWhile.simps(1) rev.simps(1))
  then have ha: "\<not> is_space (hd ?a)" by (rule hd_dropWhile)
  obtain u where "rev ?a = u @ ?b" by (metis takeWhile_dropWhile_id)
  then have "?a = rev ?b @ rev u" by (metis rev_append rev_rev_ident)
  with b have "hd ?a = hd (rev ?b)" by (metis hd_append2 rev_is_Nil_conv)
  with ha have "\<not> is_space (hd (TrimSpace s))" by (simp add: TrimSpace_def)
  with l show ?thesis by simp
qed

lemma TrimSpace_idem [simp]: "TrimSpace (TrimSpace s) = TrimSpace s"
  by (cases "TrimSpace s = []") (use TrimSpace_ends [of s] in \<open>auto simp: TrimSpace_id\<close>)

subsection \<open>Decimal numbers\<close>

definition digit :: "nat \<Rightarrow> char" where
  "digit d = char_of (48 + d)"

definition is_digit :: "char \<Rightarrow> bool" where
  "is_digit c = (48 \<le> byte c \<and> byte c \<le> 57)"

fun show_nat :: "nat \<Rightarrow> string" where
  "show_nat n = (if n < 10 then [digit n] else show_nat (n div 10) @ [digit (n mod 10)])"

declare show_nat.simps [simp del]

definition Itoa :: "int \<Rightarrow> string" where
  "Itoa i = (if i < 0 then CHR ''-'' # show_nat (nat (- i)) else show_nat (nat i))"

definition read_nat :: "string \<Rightarrow> nat" where
  "read_nat s = foldl (\<lambda>n c. 10 * n + (byte c - 48)) 0 s"

text \<open>\<open>strconv.Atoi\<close>: an optional sign, then digits, within the range of an int64.\<close>

definition Atoi :: "string \<Rightarrow> int option" where
  "Atoi s =
     (let neg = (s \<noteq> [] \<and> hd s = CHR ''-'');
          ds = (if s \<noteq> [] \<and> (hd s = CHR ''-'' \<or> hd s = CHR ''+'') then tl s else s);
          v = (if neg then - int (read_nat ds) else int (read_nat ds))
      in if ds \<noteq> [] \<and> list_all is_digit ds \<and> - (2 ^ 63) \<le> v \<and> v < 2 ^ 63 then Some v else None)"

text \<open>The number that Atoi returns, beside its error if there is one: zero for bad syntax, the bound
  that is exceeded for one out of range; digits past 64 bits are not looked at.\<close>

definition Atoi_value :: "string \<Rightarrow> int" where
  "Atoi_value s =
     (let neg = (s \<noteq> [] \<and> hd s = CHR ''-'');
          ds = (if s \<noteq> [] \<and> (hd s = CHR ''-'' \<or> hd s = CHR ''+'') then tl s else s);
          num = takeWhile is_digit ds; v = read_nat num
      in if num = [] \<or> (num \<noteq> ds \<and> v < 2 ^ 64) then 0
         else if neg then max (- (2 ^ 63)) (- int v) else min (2 ^ 63 - 1) (int v))"

lemma Atoi_value_Some:
  assumes "Atoi s = Some v"
  shows "Atoi_value s = v"
proof -
  obtain ds where ds: "ds = (if s \<noteq> [] \<and> (hd s = CHR ''-'' \<or> hd s = CHR ''+'') then tl s else s)" by simp
  obtain neg where neg: "neg = (s \<noteq> [] \<and> hd s = CHR ''-'')" by simp
  have "(if ds \<noteq> [] \<and> list_all is_digit ds \<and> - (2 ^ 63) \<le> (if neg then - int (read_nat ds) else int (read_nat ds)) \<and>
      (if neg then - int (read_nat ds) else int (read_nat ds)) < 2 ^ 63
      then Some (if neg then - int (read_nat ds) else int (read_nat ds)) else None) = Some v"
    using assms unfolding Atoi_def Let_def ds [symmetric] neg [symmetric] .
  then have d: "ds \<noteq> []" "list_all is_digit ds" and v: "v = (if neg then - int (read_nat ds) else int (read_nat ds))"
    and b: "- (2 ^ 63) \<le> v" "v < 2 ^ 63"
    by (simp_all only: option.inject option.distinct split: if_split_asm) blast+
  have t: "takeWhile is_digit ds = ds" using d(2) by (simp add: takeWhile_eq_all_conv list_all_iff)
  show ?thesis
    unfolding Atoi_value_def Let_def ds [symmetric] neg [symmetric] t using d(1) v b by auto
qed

lemma byte_digit [simp]: "d < 10 \<Longrightarrow> byte (digit d) = 48 + d"
  by (simp add: digit_def)

lemma is_digit_digit [simp]: "d < 10 \<Longrightarrow> is_digit (digit d)"
  by (simp add: is_digit_def)

lemma read_nat_snoc: "read_nat (s @ [c]) = 10 * read_nat s + (byte c - 48)"
  by (simp add: read_nat_def)

lemma show_nat_not_Nil [simp]: "show_nat n \<noteq> []"
  by (simp add: show_nat.simps [of n])

lemma show_nat_digits: "list_all is_digit (show_nat n)"
proof (induction n rule: show_nat.induct)
  case (1 n)
  then show ?case by (cases "n < 10") (simp_all add: show_nat.simps [of n])
qed

lemma read_show_nat [simp]: "read_nat (show_nat n) = n"
proof (induction n rule: show_nat.induct)
  case (1 n)
  show ?case
  proof (cases "n < 10")
    case True
    then show ?thesis by (simp add: show_nat.simps [of n] read_nat_def)
  next
    case False
    with 1 have "read_nat (show_nat (n div 10)) = n div 10" by simp
    with False show ?thesis by (simp add: show_nat.simps [of n] read_nat_snoc)
  qed
qed

lemma length_show_nat: "length (show_nat n) \<le> Suc (n div 10)"
proof (induction n rule: show_nat.induct)
  case (1 n)
  show ?case
  proof (cases "n < 10")
    case False
    then have "Suc (n div 10 div 10) \<le> n div 10" by auto
    with 1 False show ?thesis by (simp add: show_nat.simps [of n])
  qed (simp add: show_nat.simps [of n])
qed

lemma show_nat_hd_digit: "is_digit (hd (show_nat n))"
  using show_nat_digits [of n] by (cases "show_nat n") auto

lemma Atoi_Itoa: "- (2 ^ 63) \<le> i \<Longrightarrow> i < 2 ^ 63 \<Longrightarrow> Atoi (Itoa i) = Some i"
proof -
  assume r: "- (2 ^ 63) \<le> i" "i < 2 ^ 63"
  have ne: "hd (show_nat n) \<noteq> CHR ''-''" "hd (show_nat n) \<noteq> CHR ''+''" for n
    using show_nat_hd_digit [of n] by (auto simp: is_digit_def byte_def)
  show ?thesis
  proof (cases "i < 0")
    case True
    with r show ?thesis by (simp add: Atoi_def Itoa_def Let_def show_nat_digits)
  next
    case False
    with r ne show ?thesis by (simp add: Atoi_def Itoa_def Let_def show_nat_digits)
  qed
qed

subsection \<open>UTF-8\<close>

text \<open>
  The length of the valid UTF-8 sequence at the front of a string, by the table of Go's
  unicode/utf8 (no overlong forms, no surrogates, nothing above U+10FFFF); 0 when the first
  byte starts none.
\<close>

definition cont :: "nat \<Rightarrow> nat \<Rightarrow> string \<Rightarrow> nat \<Rightarrow> bool" where
  "cont lo hi t i = (i < length t \<and> lo \<le> byte (t ! i) \<and> byte (t ! i) \<le> hi)"

definition utf8_len :: "string \<Rightarrow> nat" where
  "utf8_len s = (case s of [] \<Rightarrow> 0 | c # t \<Rightarrow>
     (let b = byte c in
      if b < 128 then 1
      else if 194 \<le> b \<and> b \<le> 223 then (if cont 128 191 t 0 then 2 else 0)
      else if 224 \<le> b \<and> b \<le> 239 then
        (if cont (if b = 224 then 160 else 128) (if b = 237 then 159 else 191) t 0
            \<and> cont 128 191 t 1 then 3 else 0)
      else if 240 \<le> b \<and> b \<le> 244 then
        (if cont (if b = 240 then 144 else 128) (if b = 244 then 143 else 191) t 0
            \<and> cont 128 191 t 1 \<and> cont 128 191 t 2 then 4 else 0)
      else 0))"

text \<open>
  The runes of a string, each as its UTF-8 bytes; an invalid byte is one rune, U+FFFD, as in
  Go's \<open>[]rune(s)\<close>.
\<close>

definition rune_error :: string where
  "rune_error = [CHR 0xEF, CHR 0xBF, CHR 0xBD]"

function Runes :: "string \<Rightarrow> string list" where
  "Runes s = (if s = [] then []
     else if utf8_len s = 0 then rune_error # Runes (drop 1 s)
     else take (utf8_len s) s # Runes (drop (utf8_len s) s))"
  by pat_completeness auto
termination
  by (relation "measure length") auto

declare Runes.simps [simp del]

function Utf8Valid :: "string \<Rightarrow> bool" where
  "Utf8Valid s = (if s = [] then True else if utf8_len s = 0 then False
     else Utf8Valid (drop (utf8_len s) s))"
  by pat_completeness auto
termination
  by (relation "measure length") auto

declare Utf8Valid.simps [simp del]

lemma Runes_Nil [simp]: "Runes [] = []"
  by (simp add: Runes.simps)

lemma utf8_len_ascii: "byte c < 128 \<Longrightarrow> utf8_len (c # s) = 1"
  by (simp add: utf8_len_def)

lemma Runes_ascii: "\<forall>c \<in> set s. byte c < 128 \<Longrightarrow> Runes s = map (\<lambda>c. [c]) s"
proof (induction s)
  case (Cons c s)
  then show ?case by (subst Runes.simps) (simp add: utf8_len_ascii)
qed simp

lemma utf8_len_le: "utf8_len s \<le> length s"
  by (auto simp: utf8_len_def cont_def Let_def Suc_le_eq split: list.splits)

lemma length_Runes_le: "length (Runes s) \<le> length s"
proof (induction s rule: Runes.induct)
  case (1 s)
  show ?case
  proof (cases "s = [] \<or> utf8_len s = 0")
    case True
    with 1 show ?thesis by (subst Runes.simps) (auto simp: Suc_le_eq le_less_trans)
  next
    case False
    with 1 have "length (Runes (drop (utf8_len s) s)) \<le> length s - utf8_len s" by simp
    with False utf8_len_le [of s] show ?thesis by (subst Runes.simps) auto
  qed
qed

lemma concat_Runes: "Utf8Valid s \<Longrightarrow> concat (Runes s) = s"
proof (induction s rule: Runes.induct)
  case (1 s)
  show ?case
  proof (cases "s = []")
    case False
    with "1.prems" have "utf8_len s \<noteq> 0" and "Utf8Valid (drop (utf8_len s) s)"
      by (simp_all add: Utf8Valid.simps [of s] split: if_splits)
    with False 1 show ?thesis by (subst Runes.simps) simp
  qed simp
qed

subsection \<open>HTTP headers\<close>

text \<open>
  http.Header is a map from canonical keys to value lists, here an association list (a nil
  map is the empty list: every read of it agrees).  Get, Set, Add and Del canonicalise the
  key they are given, as textproto.CanonicalMIMEHeaderKey does: a key with a byte that no
  header name may hold is left alone, otherwise the first letter and each letter after a
  hyphen become upper case and the other letters lower case.
\<close>

type_synonym header = "(string \<times> string list) list"

definition token_char :: "char \<Rightarrow> bool" where
  "token_char c = (is_digit c \<or> 65 \<le> byte c \<and> byte c \<le> 90 \<or> 97 \<le> byte c \<and> byte c \<le> 122
     \<or> c \<in> set ''!#$%&*+-.^_|~'' \<or> byte c = 39 \<or> byte c = 96)"

fun canon_aux :: "bool \<Rightarrow> string \<Rightarrow> string" where
  "canon_aux up [] = []"
| "canon_aux up (c # s) =
     (if up then upper_char c else lower_char c) # canon_aux (c = CHR ''-'') s"

definition CanonicalKey :: "string \<Rightarrow> string" where
  "CanonicalKey k = (if list_all token_char k then canon_aux True k else k)"

definition HGet :: "header \<Rightarrow> string \<Rightarrow> string" where
  "HGet h k = (case map_of h (CanonicalKey k) of Some (v # vs) \<Rightarrow> v | _ \<Rightarrow> [])"

definition HSet :: "string \<Rightarrow> string \<Rightarrow> header \<Rightarrow> header" where
  "HSet k v h = AList.update (CanonicalKey k) [v] h"

definition HAdd :: "string \<Rightarrow> string \<Rightarrow> header \<Rightarrow> header" where
  "HAdd k v h = AList.update (CanonicalKey k)
     ((case map_of h (CanonicalKey k) of Some vs \<Rightarrow> vs | None \<Rightarrow> []) @ [v]) h"

definition HDel :: "string \<Rightarrow> header \<Rightarrow> header" where
  "HDel k h = AList.delete (CanonicalKey k) h"

definition header_keys :: "header \<Rightarrow> string list" where
  "header_keys h = sort (remdups (map fst h))"

lemma HGet_HSet: "HGet (HSet k v h) j = (if CanonicalKey j = CanonicalKey k then v else HGet h j)"
  by (simp add: HGet_def HSet_def update_conv')

lemma HGet_HDel: "HGet (HDel k h) j = (if CanonicalKey j = CanonicalKey k then [] else HGet h j)"
  by (simp add: HGet_def HDel_def delete_conv')

lemma distinct_HSet: "distinct (map fst h) \<Longrightarrow> distinct (map fst (HSet k v h))"
  by (simp add: HSet_def distinct_update)

lemma distinct_HDel: "distinct (map fst h) \<Longrightarrow> distinct (map fst (HDel k h))"
  by (simp add: HDel_def distinct_delete)

lemma HGet_Nil [simp]: "HGet [] k = []"
  by (simp add: HGet_def)

lemma sorted_header_keys [simp]: "sorted (header_keys h)"
  by (simp add: header_keys_def)

lemma distinct_header_keys [simp]: "distinct (header_keys h)"
  by (simp add: header_keys_def)

lemma set_header_keys [simp]: "set (header_keys h) = fst ` set h"
  by (simp add: header_keys_def)

subsection \<open>Line ends and one decimal\<close>

definition nl :: char where
  "nl = CHR 0x0A"

text \<open>\<open>strings.TrimRight(s, "\n")\<close>\<close>

definition TrimRightNL :: "string \<Rightarrow> string" where
  "TrimRightNL s = rev (dropWhile (\<lambda>c. c = nl) (rev s))"

text \<open>The verb \<open>%.1f\<close> for a quotient that is exact in a float64: rounded half to even.\<close>

definition tenths :: "int \<Rightarrow> int \<Rightarrow> int" where
  "tenths b d = (let q = 10 * b div d; r = 10 * b mod d in
     if 2 * r > d \<or> 2 * r = d \<and> odd q then q + 1 else q)"

definition one_decimal :: "int \<Rightarrow> int \<Rightarrow> string" where
  "one_decimal b d = Itoa (tenths b d div 10) @ ''.'' @ Itoa (tenths b d mod 10)"

end
