(* ===== verification/Flow_Store.thy ===== *)
theory Flow_Store
  imports Go_Text
begin

section \<open>The flow store (internal/store)\<close>

text \<open>
  Flow summaries and flow data (store/types.go) and the ring buffer that keeps the last
  \<open>capacity\<close> captured flows (store/ringbuffer.go): slots, the data map, the slot index and
  the head/count pair, every operation with its guards.  Times and durations are integers
  (nanoseconds).  The mutex makes each operation atomic, so an operation is one function on
  the state.  The abstract view is the queue of retained flows, oldest first.
\<close>

subsection \<open>Data\<close>

type_synonym FlowID = string

datatype FlowState = StateInProgress | StateCompleted | StateFailed | StateBreakpoint

record FlowMeta =
  fm_ID :: FlowID
  fm_Method :: string
  fm_StatusCode :: int
  fm_Host :: string
  fm_Path :: string
  fm_Duration :: int
  fm_SizeBytes :: int
  fm_StartedAt :: int
  fm_State :: FlowState
  fm_ContentType :: string
  fm_Scheme :: string
  fm_Process :: string
  fm_ProcessPID :: int

record FlowData =
  fd_RequestHeaders :: header
  fd_RequestBody :: string
  fd_ResponseHeaders :: header
  fd_ResponseBody :: string
  fd_ProcessPID :: int
  fd_ProcessCmdline :: string

text \<open>The zero values of the two structs, which \<open>make\<close> and \<open>&FlowData{}\<close> produce.\<close>

definition zero_meta :: FlowMeta where
  "zero_meta = \<lparr>fm_ID = [], fm_Method = [], fm_StatusCode = 0, fm_Host = [], fm_Path = [],
     fm_Duration = 0, fm_SizeBytes = 0, fm_StartedAt = 0, fm_State = StateInProgress,
     fm_ContentType = [], fm_Scheme = [], fm_Process = [], fm_ProcessPID = 0\<rparr>"

definition empty_data :: FlowData where
  "empty_data = \<lparr>fd_RequestHeaders = [], fd_RequestBody = [], fd_ResponseHeaders = [],
     fd_ResponseBody = [], fd_ProcessPID = 0, fd_ProcessCmdline = []\<rparr>"

text \<open>
  The Filter interface: its Match method, which panics when a nil pointer is hidden in the
  interface value.  An interface that is nil itself is \<open>None\<close> in the operations below.
\<close>

type_synonym Filter = "FlowMeta \<Rightarrow> bool res"

record RingBuffer =
  rb_metas :: "FlowMeta list"
  rb_data :: "FlowID \<rightharpoonup> FlowData"
  rb_index :: "FlowID \<rightharpoonup> nat"
  rb_head :: nat
  rb_count :: nat
  rb_capacity :: nat

subsection \<open>Operations\<close>

definition New :: "int \<Rightarrow> RingBuffer res" where
  "New capacity = (if capacity < 0 then Inl MakeLen
     else Inr \<lparr>rb_metas = replicate (nat capacity) zero_meta, rb_data = Map.empty,
       rb_index = Map.empty, rb_head = 0, rb_count = 0, rb_capacity = nat capacity\<rparr>)"

definition Add :: "FlowMeta \<Rightarrow> RingBuffer \<Rightarrow> RingBuffer res" where
  "Add meta rb =
     (if rb_capacity rb = 0 then Inl DivideByZero
      else let slot = (rb_head rb + rb_count rb) mod rb_capacity rb;
               rb1 = (if rb_count rb = rb_capacity rb
                      then let evicted = rb_metas rb ! rb_head rb
                           in rb\<lparr>rb_data := (rb_data rb)(fm_ID evicted := None),
                                 rb_index := (rb_index rb)(fm_ID evicted := None),
                                 rb_head := (rb_head rb + 1) mod rb_capacity rb\<rparr>
                      else rb\<lparr>rb_count := rb_count rb + 1\<rparr>)
           in Inr (rb1\<lparr>rb_metas := (rb_metas rb1)[slot := meta],
                       rb_index := (rb_index rb1)(fm_ID meta \<mapsto> slot)\<rparr>))"

definition Update :: "FlowID \<Rightarrow> (FlowMeta \<Rightarrow> FlowMeta) \<Rightarrow> RingBuffer \<Rightarrow> RingBuffer" where
  "Update fid fn rb = (case rb_index rb fid of None \<Rightarrow> rb
     | Some slot \<Rightarrow> rb\<lparr>rb_metas := (rb_metas rb)[slot := fn (rb_metas rb ! slot)]\<rparr>)"

definition UpdateData :: "FlowID \<Rightarrow> (FlowData \<Rightarrow> FlowData) \<Rightarrow> RingBuffer \<Rightarrow> RingBuffer" where
  "UpdateData fid fn rb = (case rb_index rb fid of None \<Rightarrow> rb
     | Some _ \<Rightarrow>
        let d = (case rb_data rb fid of None \<Rightarrow> empty_data | Some d \<Rightarrow> d)
        in rb\<lparr>rb_data := (rb_data rb)(fid \<mapsto> fn d)\<rparr>)"

definition SetData :: "FlowID \<Rightarrow> FlowData \<Rightarrow> RingBuffer \<Rightarrow> RingBuffer" where
  "SetData fid d rb = (case rb_index rb fid of None \<Rightarrow> rb
     | Some _ \<Rightarrow> rb\<lparr>rb_data := (rb_data rb)(fid \<mapsto> d)\<rparr>)"

definition not_found :: "FlowID \<Rightarrow> string" where
  "not_found fid = ''flow '' @ fid @ '' not found''"

definition Get :: "FlowID \<Rightarrow> RingBuffer \<Rightarrow> (FlowMeta \<times> FlowData option) or_err" where
  "Get fid rb = (case rb_index rb fid of None \<Rightarrow> Inl (not_found fid)
     | Some slot \<Rightarrow> Inr (rb_metas rb ! slot, rb_data rb fid))"

text \<open>The loop of List: indices \<open>i - 1\<close> down to 0, keeping what the filter accepts.\<close>

fun list_loop :: "RingBuffer \<Rightarrow> Filter option \<Rightarrow> nat \<Rightarrow> FlowMeta list res" where
  "list_loop rb f 0 = Inr []"
| "list_loop rb f (Suc i) =
     (let m = rb_metas rb ! ((rb_head rb + i) mod rb_capacity rb)
      in case (case f of None \<Rightarrow> Inr True | Some match \<Rightarrow> match m) of
           Inl p \<Rightarrow> Inl p
         | Inr keep \<Rightarrow> (case list_loop rb f i of Inl p \<Rightarrow> Inl p
             | Inr ms \<Rightarrow> Inr (if keep then m # ms else ms)))"

definition List :: "Filter option \<Rightarrow> int \<Rightarrow> int \<Rightarrow> RingBuffer \<Rightarrow> (FlowMeta list \<times> nat) res" where
  "List f offset limit rb =
     (case list_loop rb f (rb_count rb) of Inl p \<Rightarrow> Inl p
      | Inr matched \<Rightarrow>
         let total = length matched
         in if offset \<ge> int total then Inr ([], total)
            else if offset < 0 then Inl SliceBounds
            else let matched1 = drop (nat offset) matched
                 in Inr (if limit > 0 \<and> limit < int (length matched1)
                         then take (nat limit) matched1 else matched1, total))"

definition Len :: "RingBuffer \<Rightarrow> nat" where
  "Len rb = rb_count rb"

subsection \<open>The abstract queue and the invariant\<close>

definition slot_at :: "RingBuffer \<Rightarrow> nat \<Rightarrow> nat" where
  "slot_at rb i = (rb_head rb + i) mod rb_capacity rb"

definition flows :: "RingBuffer \<Rightarrow> FlowMeta list" where
  "flows rb = map (\<lambda>i. rb_metas rb ! slot_at rb i) [0..<rb_count rb]"

definition ids :: "RingBuffer \<Rightarrow> FlowID list" where
  "ids rb = map fm_ID (flows rb)"

definition rb_inv :: "RingBuffer \<Rightarrow> bool" where
  "rb_inv rb \<longleftrightarrow> 0 < rb_capacity rb \<and> length (rb_metas rb) = rb_capacity rb \<and>
     rb_head rb < rb_capacity rb \<and> rb_count rb \<le> rb_capacity rb \<and>
     distinct (ids rb) \<and>
     (\<forall>i < rb_count rb. rb_index rb (ids rb ! i) = Some (slot_at rb i)) \<and>
     (\<forall>k. rb_index rb k \<noteq> None \<longrightarrow> k \<in> set (ids rb)) \<and>
     (\<forall>k. rb_data rb k \<noteq> None \<longrightarrow> rb_index rb k \<noteq> None)"

definition abs_rb :: "RingBuffer \<Rightarrow> (FlowMeta \<times> FlowData option) list" where
  "abs_rb rb = map (\<lambda>m. (m, rb_data rb (fm_ID m))) (flows rb)"

text \<open>The operations of the specification: a bounded queue of flows.\<close>

definition q_add :: "nat \<Rightarrow> FlowMeta \<Rightarrow> (FlowMeta \<times> FlowData option) list
    \<Rightarrow> (FlowMeta \<times> FlowData option) list" where
  "q_add cap m q = (if length q = cap then tl q else q) @ [(m, None)]"

definition q_alter :: "FlowID \<Rightarrow> (FlowMeta \<times> FlowData option \<Rightarrow> FlowMeta \<times> FlowData option)
    \<Rightarrow> (FlowMeta \<times> FlowData option) list \<Rightarrow> (FlowMeta \<times> FlowData option) list" where
  "q_alter fid g q = map (\<lambda>e. if fm_ID (fst e) = fid then g e else e) q"

definition data_or_empty :: "FlowData option \<Rightarrow> FlowData" where
  "data_or_empty d = (case d of None \<Rightarrow> empty_data | Some x \<Rightarrow> x)"

text \<open>What every caller's update function keeps: the identifier of the flow.\<close>

definition keeps_id :: "(FlowMeta \<Rightarrow> FlowMeta) \<Rightarrow> bool" where
  "keeps_id fn \<longleftrightarrow> (\<forall>m. fm_ID (fn m) = fm_ID m)"

subsection \<open>Facts about slots\<close>

lemma length_flows [simp]: "length (flows rb) = rb_count rb"
  by (simp add: flows_def)

lemma nth_flows [simp]: "i < rb_count rb \<Longrightarrow> flows rb ! i = rb_metas rb ! slot_at rb i"
  by (simp add: flows_def)

lemma slot_at_less: "0 < rb_capacity rb \<Longrightarrow> slot_at rb i < rb_capacity rb"
  by (simp add: slot_at_def)

lemma mod_shift_inj:
  assumes "(h + i) mod n = (h + j) mod n" and "i < n" and "j < (n :: nat)"
  shows "i = j"
proof -
  have eq: "b = a" if "(h + a) mod n = (h + b) mod n" and "a \<le> b" and "b < n" for a b
  proof -
    from that(2) have "h + a \<le> h + b" by simp
    from mod_eq_dvd_iff_nat [OF this, of n] that(1) have "n dvd (h + b) - (h + a)" by simp
    then have "n dvd b - a" by simp
    moreover have "b - a < n" using that(3) by simp
    ultimately have "b - a = 0" by (metis dvd_imp_le not_gr_zero not_le)
    with that(2) show ?thesis by simp
  qed
  show ?thesis
  proof (cases "i \<le> j")
    case True
    with eq [OF assms(1)] assms(3) show ?thesis by simp
  next
    case False
    with eq [OF assms(1) [symmetric]] assms(2) show ?thesis by simp
  qed
qed

lemma slot_at_inj:
  "slot_at rb i = slot_at rb j \<Longrightarrow> i < rb_capacity rb \<Longrightarrow> j < rb_capacity rb \<Longrightarrow> i = j"
  unfolding slot_at_def by (rule mod_shift_inj)

lemma length_ids [simp]: "length (ids rb) = rb_count rb"
  by (simp add: ids_def)

lemma rb_invD:
  assumes "rb_inv rb"
  shows "0 < rb_capacity rb" and "length (rb_metas rb) = rb_capacity rb"
    and "rb_head rb < rb_capacity rb" and "rb_count rb \<le> rb_capacity rb"
    and "distinct (ids rb)"
    and "\<And>i. i < rb_count rb \<Longrightarrow> rb_index rb (ids rb ! i) = Some (slot_at rb i)"
    and "\<And>k. rb_index rb k \<noteq> None \<Longrightarrow> k \<in> set (ids rb)"
    and "\<And>k. rb_data rb k \<noteq> None \<Longrightarrow> rb_index rb k \<noteq> None"
  using assms by (auto simp only: rb_inv_def)

text \<open>Every index entry points at the live slot of its flow, and every live flow has one.\<close>

lemma index_Some_slot:
  assumes inv: "rb_inv rb" and ix: "rb_index rb fid = Some slot"
  obtains i where "i < rb_count rb" and "slot = slot_at rb i" and "ids rb ! i = fid"
proof -
  from ix rb_invD(7) [OF inv, of fid] have "fid \<in> set (ids rb)" by simp
  then obtain i where i: "i < rb_count rb" "ids rb ! i = fid"
    by (auto simp: in_set_conv_nth)
  with rb_invD(6) [OF inv, of i] ix have "slot = slot_at rb i" by simp
  with i that show ?thesis by blast
qed

lemma index_None_iff: "rb_inv rb \<Longrightarrow> rb_index rb k = None \<longleftrightarrow> k \<notin> set (ids rb)"
  using rb_invD(6,7) [of rb] by (metis in_set_conv_nth length_ids option.distinct(1))

subsection \<open>Every operation keeps the invariant and refines the queue\<close>

lemma New_Inr: "0 < c \<Longrightarrow> New c = Inr rb \<Longrightarrow> rb_inv rb \<and> abs_rb rb = [] \<and> rb_capacity rb = nat c"
  by (auto simp: New_def rb_inv_def abs_rb_def flows_def ids_def)

lemma Update_cases:
  assumes inv: "rb_inv rb"
  obtains (absent) "rb_index rb fid = None" "Update fid fn rb = rb"
  | (live) i where "i < rb_count rb" "ids rb ! i = fid"
      "Update fid fn rb = rb\<lparr>rb_metas := (rb_metas rb)[slot_at rb i := fn (flows rb ! i)]\<rparr>"
proof (cases "rb_index rb fid")
  case None
  then show ?thesis by (intro absent) (simp_all add: Update_def)
next
  case (Some slot)
  from index_Some_slot [OF inv Some] obtain i
    where "i < rb_count rb" "slot = slot_at rb i" "ids rb ! i = fid" .
  with Some show ?thesis by (intro live [of i]) (simp_all add: Update_def)
qed

lemma q_alter_absent:
  "rb_inv rb \<Longrightarrow> rb_index rb fid = None \<Longrightarrow> q_alter fid g (abs_rb rb) = abs_rb rb"
  by (auto simp: index_None_iff q_alter_def abs_rb_def ids_def image_iff intro!: map_idI)

lemma flows_set_slot:
  assumes inv: "rb_inv rb" and i: "i < rb_count rb"
  shows "flows (rb\<lparr>rb_metas := (rb_metas rb)[slot_at rb i := m]\<rparr>) = (flows rb)[i := m]"
proof (rule nth_equalityI)
  fix j assume "j < length (flows (rb\<lparr>rb_metas := (rb_metas rb)[slot_at rb i := m]\<rparr>))"
  then have j: "j < rb_count rb" by simp
  have "slot_at rb i = slot_at rb j \<longleftrightarrow> i = j"
    using rb_invD(4) [OF inv] i j by (auto dest: slot_at_inj)
  then show "flows (rb\<lparr>rb_metas := (rb_metas rb)[slot_at rb i := m]\<rparr>) ! j = (flows rb)[i := m] ! j"
    using i j rb_invD(1,2) [OF inv]
    by (auto simp: slot_at_def nth_list_update)
qed simp

lemma distinct_ids_nth_eq:
  "rb_inv rb \<Longrightarrow> i < rb_count rb \<Longrightarrow> j < rb_count rb \<Longrightarrow>
   ids rb ! i = ids rb ! j \<longleftrightarrow> i = j"
  using rb_invD(5) [of rb] by (simp add: nth_eq_iff_index_eq)

lemma map_id_list_update:
  "i < length xs \<Longrightarrow> f y = f (xs ! i) \<Longrightarrow> map f (xs[i := y]) = map f xs"
  by (metis list_update_id map_update)

lemma Update_refines:
  assumes inv: "rb_inv rb" and keep: "keeps_id fn"
  shows "rb_inv (Update fid fn rb)"
    and "abs_rb (Update fid fn rb) = q_alter fid (\<lambda>(m, d). (fn m, d)) (abs_rb rb)"
proof -
  have "rb_inv (Update fid fn rb) \<and>
    abs_rb (Update fid fn rb) = q_alter fid (\<lambda>(m, d). (fn m, d)) (abs_rb rb)"
  proof (cases rule: Update_cases [OF inv, of fid fn, case_names absent live])
    case absent
    with inv show ?thesis by (simp add: q_alter_absent)
  next
    case (live i)
    let ?rb = "rb\<lparr>rb_metas := (rb_metas rb)[slot_at rb i := fn (flows rb ! i)]\<rparr>"
    have fl: "flows ?rb = (flows rb)[i := fn (flows rb ! i)]"
      by (rule flows_set_slot [OF inv live(1)])
    have "ids ?rb = ids rb"
      using live(1) keep by (simp add: ids_def fl map_id_list_update keeps_id_def del: nth_flows)
    with inv have inv': "rb_inv ?rb"
      unfolding rb_inv_def by (simp add: slot_at_def)
    have "abs_rb ?rb = q_alter fid (\<lambda>(m, d). (fn m, d)) (abs_rb rb)"
    proof (rule nth_equalityI)
      fix j assume "j < length (abs_rb ?rb)"
      then have j: "j < rb_count rb" by (simp add: abs_rb_def)
      have "fm_ID (flows rb ! j) = fid \<longleftrightarrow> j = i"
        using distinct_ids_nth_eq [OF inv j live(1)] live(2) j by (simp add: ids_def del: nth_flows)
      with live(1) j keep show "abs_rb ?rb ! j = q_alter fid (\<lambda>(m, d). (fn m, d)) (abs_rb rb) ! j"
        by (auto simp: abs_rb_def q_alter_def fl keeps_id_def simp del: nth_flows)
    qed (simp add: abs_rb_def q_alter_def)
    with inv' live(3) show ?thesis by simp
  qed
  then show "rb_inv (Update fid fn rb)"
    and "abs_rb (Update fid fn rb) = q_alter fid (\<lambda>(m, d). (fn m, d)) (abs_rb rb)" by auto
qed

lemma set_data_refines:
  assumes inv: "rb_inv rb" and ix: "rb_index rb fid \<noteq> None"
  shows "rb_inv (rb\<lparr>rb_data := (rb_data rb)(fid \<mapsto> d)\<rparr>)"
    and "abs_rb (rb\<lparr>rb_data := (rb_data rb)(fid \<mapsto> d)\<rparr>) = q_alter fid (\<lambda>(m, x). (m, Some d)) (abs_rb rb)"
proof -
  let ?rb = "rb\<lparr>rb_data := (rb_data rb)(fid \<mapsto> d)\<rparr>"
  have fl: "flows ?rb = flows rb" "slot_at ?rb = slot_at rb"
    by (simp_all add: flows_def slot_at_def fun_eq_iff)
  then have "ids ?rb = ids rb" by (simp add: ids_def)
  with inv ix fl(2) show "rb_inv ?rb" unfolding rb_inv_def by simp
  show "abs_rb ?rb = q_alter fid (\<lambda>(m, x). (m, Some d)) (abs_rb rb)"
    by (auto simp: abs_rb_def q_alter_def fl)
qed

lemma SetData_refines:
  assumes inv: "rb_inv rb"
  shows "rb_inv (SetData fid d rb)"
    and "abs_rb (SetData fid d rb) = q_alter fid (\<lambda>(m, x). (m, Some d)) (abs_rb rb)"
  using inv set_data_refines [OF inv, of fid d]
  by (auto simp: SetData_def q_alter_absent split: option.split)

lemma q_alter_cong:
  "(\<And>e. e \<in> set q \<Longrightarrow> fm_ID (fst e) = fid \<Longrightarrow> g e = h e) \<Longrightarrow> q_alter fid g q = q_alter fid h q"
  by (auto simp: q_alter_def)

lemma UpdateData_refines:
  assumes inv: "rb_inv rb"
  shows "rb_inv (UpdateData fid fn rb)"
    and "abs_rb (UpdateData fid fn rb) =
      q_alter fid (\<lambda>(m, x). (m, Some (fn (data_or_empty x)))) (abs_rb rb)"
proof -
  show "rb_inv (UpdateData fid fn rb)"
    using inv set_data_refines(1) [OF inv, of fid]
    by (auto simp: UpdateData_def Let_def split: option.split)
  show "abs_rb (UpdateData fid fn rb) =
      q_alter fid (\<lambda>(m, x). (m, Some (fn (data_or_empty x)))) (abs_rb rb)"
  proof (cases "rb_index rb fid")
    case None
    with inv show ?thesis by (simp add: UpdateData_def q_alter_absent)
  next
    case (Some slot)
    let ?d = "fn (data_or_empty (rb_data rb fid))"
    have "UpdateData fid fn rb = rb\<lparr>rb_data := (rb_data rb)(fid \<mapsto> ?d)\<rparr>"
      using Some by (simp add: UpdateData_def data_or_empty_def Let_def)
    then have "abs_rb (UpdateData fid fn rb) = q_alter fid (\<lambda>(m, x). (m, Some ?d)) (abs_rb rb)"
      using set_data_refines(2) [OF inv, of fid ?d] Some by simp
    also have "\<dots> = q_alter fid (\<lambda>(m, x). (m, Some (fn (data_or_empty x)))) (abs_rb rb)"
      by (rule q_alter_cong) (auto simp: abs_rb_def)
    finally show ?thesis .
  qed
qed

subsection \<open>Add\<close>

lemma Add_not_full:
  assumes inv: "rb_inv rb" and room: "rb_count rb < rb_capacity rb"
  obtains rb' where "Add m rb = Inr rb'" and "flows rb' = flows rb @ [m]"
    and "rb_head rb' = rb_head rb" and "rb_count rb' = Suc (rb_count rb)"
    and "rb_capacity rb' = rb_capacity rb" and "length (rb_metas rb') = rb_capacity rb"
    and "rb_data rb' = rb_data rb"
    and "rb_index rb' = (rb_index rb)(fm_ID m \<mapsto> slot_at rb (rb_count rb))"
proof -
  let ?slot = "slot_at rb (rb_count rb)"
  let ?rb = "rb\<lparr>rb_metas := (rb_metas rb)[?slot := m],
    rb_index := (rb_index rb)(fm_ID m \<mapsto> ?slot), rb_count := Suc (rb_count rb)\<rparr>"
  have add: "Add m rb = Inr ?rb"
    using rb_invD(1) [OF inv] room by (simp add: Add_def Let_def slot_at_def)
  have "flows ?rb = flows rb @ [m]"
  proof (rule nth_equalityI)
    fix i assume "i < length (flows ?rb)"
    then have i: "i < Suc (rb_count rb)" by simp
    have "slot_at rb i = ?slot \<longleftrightarrow> i = rb_count rb"
      using i room by (auto dest: slot_at_inj)
    with i rb_invD(1,2) [OF inv] show "flows ?rb ! i = (flows rb @ [m]) ! i"
      by (auto simp: nth_append slot_at_def nth_list_update)
  qed simp
  with add that [of ?rb] rb_invD(2) [OF inv] show ?thesis by simp
qed

lemma Add_full:
  assumes inv: "rb_inv rb" and full: "rb_count rb = rb_capacity rb"
  obtains rb' where "Add m rb = Inr rb'" and "flows rb' = tl (flows rb) @ [m]"
    and "rb_head rb' = (rb_head rb + 1) mod rb_capacity rb" and "rb_count rb' = rb_count rb"
    and "rb_capacity rb' = rb_capacity rb" and "length (rb_metas rb') = rb_capacity rb"
    and "rb_data rb' = (rb_data rb)(hd (ids rb) := None)"
    and "rb_index rb' = (rb_index rb)(hd (ids rb) := None, fm_ID m \<mapsto> rb_head rb)"
proof -
  note D = rb_invD [OF inv]
  let ?n = "rb_capacity rb"
  let ?old = "fm_ID (rb_metas rb ! rb_head rb)"
  have hd: "hd (ids rb) = ?old"
    using full D(1,3) by (simp add: ids_def hd_map hd_conv_nth slot_at_def flip: length_greater_0_conv)
  have slot: "(rb_head rb + rb_count rb) mod ?n = rb_head rb"
    using full D(3) by simp
  let ?rb = "rb\<lparr>rb_metas := (rb_metas rb)[rb_head rb := m], rb_data := (rb_data rb)(?old := None),
    rb_index := (rb_index rb)(?old := None, fm_ID m \<mapsto> rb_head rb),
    rb_head := Suc (rb_head rb) mod ?n\<rparr>"
  have add: "Add m rb = Inr ?rb"
    using D(1) full slot by (simp add: Add_def Let_def)
  have "flows ?rb = tl (flows rb) @ [m]"
  proof (rule nth_equalityI)
    show "length (flows ?rb) = length (tl (flows rb) @ [m])" using full D(1) by simp
    fix i assume "i < length (flows ?rb)"
    then have i: "i < ?n" using full by simp
    have sl: "slot_at ?rb i = slot_at rb (Suc i)"
      by (simp add: slot_at_def mod_add_left_eq)
    show "flows ?rb ! i = (tl (flows rb) @ [m]) ! i"
    proof (cases "Suc i = ?n")
      case True
      then have "slot_at rb (Suc i) = rb_head rb" using slot full by (simp add: slot_at_def)
      with True i full D show ?thesis by (simp add: sl nth_append)
    next
      case False
      with i have lt: "Suc i < ?n" by simp
      have "slot_at rb (Suc i) \<noteq> slot_at rb 0"
        using slot_at_inj [OF _ lt D(1)] by fastforce
      then have "slot_at rb (Suc i) \<noteq> rb_head rb" using D(3) by (simp add: slot_at_def)
      with lt full show ?thesis by (simp add: sl nth_append nth_tl)
    qed
  qed
  with add hd that [of ?rb] D(2) show ?thesis by simp
qed

text \<open>
  The effect of \<open>Add\<close> of a flow the buffer does not hold: it never panics, the invariant is
  kept and the queue gains the flow at its end, losing its oldest one when it was full.
\<close>

lemma Add_refines:
  assumes inv: "rb_inv rb" and fresh: "fm_ID m \<notin> set (ids rb)"
  obtains rb' where "Add m rb = Inr rb'" and "rb_inv rb'"
    and "abs_rb rb' = q_add (rb_capacity rb) m (abs_rb rb)" and "rb_capacity rb' = rb_capacity rb"
proof (cases "rb_count rb = rb_capacity rb")
  case False
  note D = rb_invD [OF inv]
  with False have room: "rb_count rb < rb_capacity rb" by simp
  from Add_not_full [OF inv room, of m] obtain rb' where
    r: "Add m rb = Inr rb'" "flows rb' = flows rb @ [m]" "rb_head rb' = rb_head rb"
      "rb_count rb' = Suc (rb_count rb)" "rb_capacity rb' = rb_capacity rb"
      "length (rb_metas rb') = rb_capacity rb" "rb_data rb' = rb_data rb"
      "rb_index rb' = (rb_index rb)(fm_ID m \<mapsto> slot_at rb (rb_count rb))" .
  have ids': "ids rb' = ids rb @ [fm_ID m]" by (simp add: ids_def r)
  have sl: "slot_at rb' = slot_at rb" by (simp add: slot_at_def r fun_eq_iff)
  have "rb_inv rb'"
    unfolding rb_inv_def
  proof (intro conjI allI impI)
    fix i assume "i < rb_count rb'"
    moreover have "i < rb_count rb \<Longrightarrow> ids rb ! i \<noteq> fm_ID m"
      using fresh by (metis nth_mem length_ids)
    ultimately show "rb_index rb' (ids rb' ! i) = Some (slot_at rb' i)"
      using D(6) [of i] by (auto simp: r ids' sl nth_append less_Suc_eq)
  next
    fix k assume "rb_index rb' k \<noteq> None"
    then show "k \<in> set (ids rb')" using D(7) [of k] by (auto simp: r ids' split: if_splits)
  next
    fix k assume "rb_data rb' k \<noteq> None"
    then show "rb_index rb' k \<noteq> None" using D(8) [of k] by (simp add: r)
  qed (use D room fresh in \<open>simp_all add: r ids'\<close>)
  moreover have "rb_data rb (fm_ID m) = None"
    using index_None_iff [OF inv, of "fm_ID m"] D(8) [of "fm_ID m"] fresh by blast
  then have "abs_rb rb' = q_add (rb_capacity rb) m (abs_rb rb)"
    using False by (simp add: abs_rb_def q_add_def r)
  ultimately show ?thesis using that r by blast
next
  case full: True
  note D = rb_invD [OF inv]
  from Add_full [OF inv full, of m] obtain rb' where
    r: "Add m rb = Inr rb'" "flows rb' = tl (flows rb) @ [m]"
      "rb_head rb' = (rb_head rb + 1) mod rb_capacity rb" "rb_count rb' = rb_count rb"
      "rb_capacity rb' = rb_capacity rb" "length (rb_metas rb') = rb_capacity rb"
      "rb_data rb' = (rb_data rb)(hd (ids rb) := None)"
      "rb_index rb' = (rb_index rb)(hd (ids rb) := None, fm_ID m \<mapsto> rb_head rb)" .
  obtain old rest where ids: "ids rb = old # rest"
    using full D(1) by (cases "ids rb") (auto simp flip: length_ids)
  have ids': "ids rb' = rest @ [fm_ID m]"
    using ids by (simp add: ids_def r) (metis list.sel(3) map_tl)
  have old: "old \<notin> set rest" using D(5) ids by simp
  have len: "Suc (length rest) = rb_count rb" using ids length_ids [of rb] by simp
  have sl: "slot_at rb' i = slot_at rb (Suc i)" for i
    by (simp add: slot_at_def r mod_add_left_eq)
  have "rb_inv rb'"
    unfolding rb_inv_def
  proof (intro conjI allI impI)
    fix i assume "i < rb_count rb'"
    then have i: "i < rb_count rb" by (simp add: r)
    show "rb_index rb' (ids rb' ! i) = Some (slot_at rb' i)"
    proof (cases "i < length rest")
      case True
      then have "rest ! i \<in> set rest" by simp
      with old fresh ids have ne: "rest ! i \<noteq> old" "rest ! i \<noteq> fm_ID m" by auto
      have "rb_index rb (ids rb ! Suc i) = Some (slot_at rb (Suc i))"
        using True len by (intro D(6)) simp
      with True ne ids show ?thesis by (simp add: r ids' sl nth_append)
    next
      case False
      with i len have il: "i = length rest" by simp
      then have "slot_at rb' i = slot_at rb (rb_capacity rb)" using sl [of i] len full by simp
      then have "slot_at rb' i = rb_head rb" using D(3) by (simp add: slot_at_def)
      with il show ?thesis by (simp add: r ids' nth_append)
    qed
  next
    fix k assume "rb_index rb' k \<noteq> None"
    then show "k \<in> set (ids rb')" using D(7) [of k] ids by (auto simp: r ids' split: if_splits)
  next
    fix k assume "rb_data rb' k \<noteq> None"
    then show "rb_index rb' k \<noteq> None" using D(8) [of k] ids by (auto simp: r split: if_splits)
  qed (use D fresh ids in \<open>simp_all add: r ids'\<close>)
  moreover have "abs_rb rb' = q_add (rb_capacity rb) m (abs_rb rb)"
  proof -
    have "rb_data rb (fm_ID m) = None"
      using index_None_iff [OF inv, of "fm_ID m"] D(8) [of "fm_ID m"] fresh by blast
    moreover have "fm_ID x \<noteq> old" if "x \<in> set (tl (flows rb))" for x
    proof -
      have "rest = map fm_ID (tl (flows rb))" using ids by (simp add: ids_def map_tl)
      with that old show ?thesis by auto
    qed
    ultimately show ?thesis
      using full ids fresh by (auto simp: abs_rb_def q_add_def r simp flip: map_tl)
  qed
  ultimately show ?thesis using that r by blast
qed

subsection \<open>Get and List\<close>

definition lookup_q :: "FlowID \<Rightarrow> (FlowMeta \<times> FlowData option) list
    \<Rightarrow> (FlowMeta \<times> FlowData option) option" where
  "lookup_q fid q = find (\<lambda>e. fm_ID (fst e) = fid) q"

definition found :: "FlowID \<Rightarrow> 'a option \<Rightarrow> 'a or_err" where
  "found fid r = (case r of None \<Rightarrow> Inl (not_found fid) | Some e \<Rightarrow> Inr e)"

lemma lookup_q_alter:
  assumes "\<And>m d. fm_ID (fst (g (m, d))) = fm_ID m"
  shows "lookup_q i (q_alter j g q) = (if i = j then map_option g (lookup_q i q) else lookup_q i q)"
  using assms by (induction q) (auto simp: lookup_q_def q_alter_def)

lemma lookup_q_SomeD: "lookup_q i q = Some e \<Longrightarrow> e \<in> set q \<and> fm_ID (fst e) = i"
  by (auto simp: lookup_q_def find_Some_iff)

lemma lookup_q_None_iff: "lookup_q i q = None \<longleftrightarrow> i \<notin> (fm_ID \<circ> fst) ` set q"
  by (force simp: lookup_q_def find_None_iff)

lemma lookup_q_distinct:
  "distinct (map (fm_ID \<circ> fst) q) \<Longrightarrow> e \<in> set q \<Longrightarrow> lookup_q (fm_ID (fst e)) q = Some e"
  by (induction q) (auto simp: lookup_q_def image_iff)

lemma ids_abs: "map (fm_ID \<circ> fst) (abs_rb rb) = ids rb"
  by (simp add: abs_rb_def ids_def)

lemma Get_refines:
  assumes inv: "rb_inv rb"
  shows "Get fid rb = found fid (lookup_q fid (abs_rb rb))"
proof (cases "rb_index rb fid")
  case None
  then have "fid \<notin> (fm_ID \<circ> fst) ` set (abs_rb rb)"
    using index_None_iff [OF inv, of fid] ids_abs [of rb] by (metis list.set_map)
  then have "lookup_q fid (abs_rb rb) = None" by (simp only: lookup_q_None_iff not_False_eq_True)
  with None show ?thesis by (simp add: Get_def found_def)
next
  case (Some slot)
  from index_Some_slot [OF inv Some] obtain i
    where i: "i < rb_count rb" "slot = slot_at rb i" "ids rb ! i = fid" .
  let ?e = "abs_rb rb ! i"
  have e: "?e = (rb_metas rb ! slot, rb_data rb fid)" "?e \<in> set (abs_rb rb)"
    using i by (simp add: abs_rb_def ids_def) (rule nth_mem, simp add: abs_rb_def i(1))
  have "distinct (map (fm_ID \<circ> fst) (abs_rb rb))"
    using rb_invD(5) [OF inv] by (simp only: ids_abs)
  from lookup_q_distinct [OF this e(2)] i e(1) have "lookup_q fid (abs_rb rb) = Some ?e"
    by (simp add: ids_def)
  with Some e(1) show ?thesis by (simp add: Get_def found_def)
qed

definition run_filter :: "Filter option \<Rightarrow> FlowMeta \<Rightarrow> bool res" where
  "run_filter f m = (case f of None \<Rightarrow> Inr True | Some match \<Rightarrow> match m)"

definition page :: "int \<Rightarrow> int \<Rightarrow> 'a list \<Rightarrow> 'a list" where
  "page offset limit xs =
     (if limit > 0 then take (nat limit) (drop (nat offset) xs) else drop (nat offset) xs)"

lemma list_loop_filter:
  "n \<le> rb_count rb \<Longrightarrow> \<forall>m \<in> set (flows rb). run_filter f m = Inr (g m) \<Longrightarrow>
   list_loop rb f n = Inr (filter g (rev (take n (flows rb))))"
proof (induction n)
  case (Suc n)
  then have n: "n < length (flows rb)" by simp
  then have "flows rb ! n \<in> set (flows rb)" by (rule nth_mem)
  with Suc.prems(2) have "run_filter f (flows rb ! n) = Inr (g (flows rb ! n))" by blast
  with Suc n show ?case
    by (simp add: take_Suc_conv_app_nth run_filter_def slot_at_def Let_def)
qed simp

lemma List_refines:
  assumes "\<forall>m \<in> set (flows rb). run_filter f m = Inr (g m)" and "0 \<le> offset"
  shows "List f offset limit rb =
    Inr (page offset limit (filter g (rev (flows rb))), length (filter g (flows rb)))"
proof -
  let ?ms = "filter g (rev (flows rb))"
  have "list_loop rb f (rb_count rb) = Inr ?ms"
    using list_loop_filter [OF order_refl assms(1)] by simp
  moreover have "length ?ms = length (filter g (flows rb))"
    by (simp flip: rev_filter)
  ultimately show ?thesis
    using assms(2) by (auto simp: List_def Let_def page_def simp flip: rev_filter)
qed

lemma List_negative_offset:
  assumes "\<forall>m \<in> set (flows rb). run_filter f m = Inr (g m)" and "offset < 0"
  shows "List f offset limit rb = Inl SliceBounds"
  using assms list_loop_filter [OF order_refl assms(1)] by (simp add: List_def Let_def)

subsection \<open>The interfaces of the store\<close>

text \<open>
  What the clients of the store rely on.  \<open>flow_reader\<close> is the FlowReader port of the TUI and
  the MCP server, \<open>flow_updater\<close> the flowStore interface of the process resolver, and
  \<open>flow_sink\<close> what the interceptor calls.  Each law is over an abstract view: the queue of
  retained flows.
\<close>

locale flow_reader =
  fixes view :: "'s \<Rightarrow> (FlowMeta \<times> FlowData option) list"
    and invar :: "'s \<Rightarrow> bool"
    and get :: "FlowID \<Rightarrow> 's \<Rightarrow> (FlowMeta \<times> FlowData option) or_err"
  assumes distinct_view: "invar s \<Longrightarrow> distinct (map (fm_ID \<circ> fst) (view s))"
    and get_view: "invar s \<Longrightarrow> get i s = found i (lookup_q i (view s))"
begin

lemma get_Inr_iff: "invar s \<Longrightarrow> get i s = Inr e \<longleftrightarrow> e \<in> set (view s) \<and> fm_ID (fst e) = i"
  using lookup_q_distinct [OF distinct_view, of s e]
  by (auto simp: get_view found_def dest: lookup_q_SomeD split: option.splits)

lemma get_id: "invar s \<Longrightarrow> get i s = Inr (m, d) \<Longrightarrow> fm_ID m = i"
  by (simp add: get_Inr_iff)

end

locale flow_updater = flow_reader view invar get
  for view :: "'s \<Rightarrow> (FlowMeta \<times> FlowData option) list" and invar get +
  fixes upd :: "FlowID \<Rightarrow> (FlowMeta \<Rightarrow> FlowMeta) \<Rightarrow> 's \<Rightarrow> 's"
    and upd_data :: "FlowID \<Rightarrow> (FlowData \<Rightarrow> FlowData) \<Rightarrow> 's \<Rightarrow> 's"
  assumes upd_invar: "invar s \<Longrightarrow> keeps_id fn \<Longrightarrow> invar (upd i fn s)"
    and upd_view: "invar s \<Longrightarrow> keeps_id fn \<Longrightarrow>
      view (upd i fn s) = q_alter i (\<lambda>(m, d). (fn m, d)) (view s)"
    and upd_data_invar: "invar s \<Longrightarrow> invar (upd_data i fd s)"
    and upd_data_view: "invar s \<Longrightarrow>
      view (upd_data i fd s) = q_alter i (\<lambda>(m, d). (m, Some (fd (data_or_empty d)))) (view s)"
begin

lemma get_upd:
  "invar s \<Longrightarrow> keeps_id fn \<Longrightarrow> get i (upd j fn s) =
     (if i = j then map_sum (\<lambda>e. e) (\<lambda>(m, d). (fn m, d)) (get i s) else get i s)"
  by (auto simp: get_view upd_invar upd_view lookup_q_alter keeps_id_def found_def
      split: option.split)

lemma get_upd_data:
  "invar s \<Longrightarrow> get i (upd_data j fd s) =
     (if i = j then map_sum (\<lambda>e. e) (\<lambda>(m, d). (m, Some (fd (data_or_empty d)))) (get i s)
      else get i s)"
  by (auto simp: get_view upd_data_invar upd_data_view lookup_q_alter found_def
      split: option.split)

lemmas get_laws = get_upd get_upd_data upd_invar upd_data_invar

end

locale flow_sink = flow_updater view invar get upd upd_data
  for view :: "'s \<Rightarrow> (FlowMeta \<times> FlowData option) list" and invar get upd upd_data +
  fixes set_data :: "FlowID \<Rightarrow> FlowData \<Rightarrow> 's \<Rightarrow> 's"
  assumes set_data_invar: "invar s \<Longrightarrow> invar (set_data i x s)"
    and set_data_view: "invar s \<Longrightarrow>
      view (set_data i x s) = q_alter i (\<lambda>(m, d). (m, Some x)) (view s)"
begin

lemma get_set_data:
  "invar s \<Longrightarrow> get i (set_data j x s) =
     (if i = j then map_sum (\<lambda>e. e) (\<lambda>(m, d). (m, Some x)) (get i s) else get i s)"
  by (auto simp: get_view set_data_invar set_data_view lookup_q_alter found_def
      split: option.split)

lemma set_data_upd_data:
  "invar s \<Longrightarrow> get i (set_data j x s) = get i (upd_data j (\<lambda>_. x) s)"
  by (simp add: get_set_data get_upd_data)

end

interpretation rb: flow_sink abs_rb rb_inv Get Update UpdateData SetData
proof unfold_locales
  show "distinct (map (fm_ID \<circ> fst) (abs_rb s))" if "rb_inv s" for s
    using rb_invD(5) [OF that] by (simp only: ids_abs)
qed (simp_all add: Get_refines Update_refines UpdateData_refines SetData_refines)

text \<open>
  The Filter interface as a listing uses it: a text makes a filter, and for the texts a caller may
  give, running the filter on a flow ends and says whether the flow is accepted.
\<close>

locale list_filter =
  fixes filter_for :: "string \<Rightarrow> Filter option"
    and usable :: "string \<Rightarrow> bool"
    and accepts :: "string \<Rightarrow> FlowMeta \<Rightarrow> bool"
  assumes runs: "usable t \<Longrightarrow> run_filter (filter_for t) m = Inr (accepts t m)"
begin

lemma list_window:
  "usable t \<Longrightarrow> 0 \<le> offset \<Longrightarrow> List (filter_for t) offset limit rb =
    Inr (page offset limit (filter (accepts t) (rev (flows rb))), length (filter (accepts t) (flows rb)))"
  by (rule List_refines) (simp_all add: runs)

lemma list_negative: "usable t \<Longrightarrow> offset < 0 \<Longrightarrow> List (filter_for t) offset limit rb = Inl SliceBounds"
  by (rule List_negative_offset [of _ _ "accepts t"]) (simp_all add: runs)

lemma listed_accepted:
  "usable t \<Longrightarrow> 0 \<le> offset \<Longrightarrow> List (filter_for t) offset limit rb = Inr (ms, n) \<Longrightarrow> m \<in> set ms \<Longrightarrow> accepts t m \<and> m \<in> set (flows rb)"
  by (auto simp: list_window page_def split: if_splits dest!: in_set_takeD in_set_dropD)

end

subsection \<open>Histories\<close>

text \<open>
  The states the store reaches from \<open>New c\<close>: any sequence of its operations in which a flow
  is added only when no retained flow has its identifier (identifiers are UUIDs) and every
  update keeps the identifier (all callers do).
\<close>

inductive reach :: "int \<Rightarrow> RingBuffer \<Rightarrow> bool" for c where
  reach_new: "0 < c \<Longrightarrow> New c = Inr rb \<Longrightarrow> reach c rb"
| reach_add: "reach c rb \<Longrightarrow> fm_ID m \<notin> set (ids rb) \<Longrightarrow> Add m rb = Inr rb' \<Longrightarrow> reach c rb'"
| reach_upd: "reach c rb \<Longrightarrow> keeps_id fn \<Longrightarrow> reach c (Update fid fn rb)"
| reach_upd_data: "reach c rb \<Longrightarrow> reach c (UpdateData fid fd rb)"
| reach_set_data: "reach c rb \<Longrightarrow> reach c (SetData fid d rb)"

lemma Update_capacity [simp]: "rb_capacity (Update fid fn rb) = rb_capacity rb"
  by (simp add: Update_def split: option.split)

lemma UpdateData_capacity [simp]: "rb_capacity (UpdateData fid fd rb) = rb_capacity rb"
  by (simp add: UpdateData_def Let_def split: option.split)

lemma SetData_capacity [simp]: "rb_capacity (SetData fid d rb) = rb_capacity rb"
  by (simp add: SetData_def split: option.split)

lemma reach_inv: "reach c rb \<Longrightarrow> rb_inv rb \<and> rb_capacity rb = nat c"
proof (induction rule: reach.induct)
  case (reach_add rb m rb')
  then have inv: "rb_inv rb" by simp
  from Add_refines [OF inv reach_add(2)] reach_add show ?case
    by (metis Inr_inject)
qed (auto simp: New_Inr Update_refines UpdateData_refines SetData_refines)

text \<open>C6: In every reachable state the buffer holds at most \<open>c\<close> flows, the data map at most
  one entry per retained flow and none for an evicted one, and the index points exactly at the
  retained flows.\<close>

theorem store_bounded:
  assumes "reach c rb"
  shows "Len rb \<le> nat c \<and> dom (rb_data rb) \<subseteq> set (ids rb) \<and> card (dom (rb_data rb)) \<le> nat c \<and>
    dom (rb_index rb) = set (ids rb) \<and> distinct (ids rb)"
proof -
  from reach_inv [OF assms] have inv: "rb_inv rb" and c: "rb_capacity rb = nat c" by auto
  note D = rb_invD [OF inv]
  have ix: "dom (rb_index rb) = set (ids rb)"
    using index_None_iff [OF inv] by (auto simp: dom_def)
  have sub: "dom (rb_data rb) \<subseteq> set (ids rb)"
    using D(8) ix by (metis domIff subsetI)
  then have "card (dom (rb_data rb)) \<le> length (ids rb)"
    by (meson List.finite_set card_length card_mono order_trans)
  with sub ix D(4,5) c show ?thesis by (simp add: Len_def)
qed

lemma reach_witness: "\<exists>rb. reach 1 rb"
  by (rule exI, rule reach_new [of 1]) (simp_all add: New_def)

theorem store_bounded_witness: "\<exists>rb. reach 1 rb \<and> Len rb \<le> nat 1"
  using reach_witness store_bounded by blast

text \<open>C5: \<open>Add\<close> of a flow the buffer does not hold never panics, keeps the invariant and
  implements the bounded queue: the flow becomes the newest one and, when the buffer is full,
  exactly the oldest flow is dropped together with its data.\<close>

theorem add_refines_queue:
  assumes "rb_inv rb" and "fm_ID m \<notin> set (ids rb)"
  shows "\<exists>rb'. Add m rb = Inr rb' \<and> rb_inv rb' \<and> rb_capacity rb' = rb_capacity rb \<and>
    abs_rb rb' = q_add (rb_capacity rb) m (abs_rb rb)"
  using Add_refines [OF assms] by metis

definition buf1 :: RingBuffer where
  "buf1 = \<lparr>rb_metas = [zero_meta], rb_data = Map.empty, rb_index = [[] \<mapsto> 0],
     rb_head = 0, rb_count = 1, rb_capacity = 1\<rparr>"

lemma buf1_inv: "rb_inv buf1"
  by (simp add: rb_inv_def buf1_def ids_def flows_def slot_at_def zero_meta_def)

lemma buf1_ids: "ids buf1 = [[]]"
  by (simp add: buf1_def ids_def flows_def slot_at_def zero_meta_def)

lemma buf1_abs: "abs_rb buf1 = [(zero_meta, None)]" "rb_capacity buf1 = 1"
  by (simp_all add: buf1_def abs_rb_def flows_def slot_at_def)

theorem add_refines_queue_witness:
  "\<exists>rb'. Add (zero_meta\<lparr>fm_ID := ''a''\<rparr>) buf1 = Inr rb' \<and> rb_inv rb' \<and>
    abs_rb rb' = [(zero_meta\<lparr>fm_ID := ''a''\<rparr>, None)]"
proof -
  have "fm_ID (zero_meta\<lparr>fm_ID := ''a''\<rparr>) \<notin> set (ids buf1)" by (simp add: buf1_ids)
  from add_refines_queue [OF buf1_inv this] show ?thesis
    by (auto simp: q_add_def buf1_abs)
qed

text \<open>A run of \<open>Add\<close>: the flows captured one after the other.\<close>

fun add_all :: "FlowMeta list \<Rightarrow> RingBuffer \<Rightarrow> RingBuffer res" where
  "add_all [] rb = Inr rb"
| "add_all (m # ms) rb = (case Add m rb of Inl p \<Rightarrow> Inl p | Inr rb' \<Rightarrow> add_all ms rb')"

lemma flows_of_abs: "map fst (abs_rb rb) = flows rb"
  by (simp add: abs_rb_def comp_def)

lemma add_all_flows:
  assumes "rb_inv rb" and "distinct (ids rb @ map fm_ID ms)"
  shows "\<exists>rb'. add_all ms rb = Inr rb' \<and> rb_inv rb' \<and>
    flows rb' = drop (rb_count rb + length ms - rb_capacity rb) (flows rb @ ms)"
  using assms
proof (induction ms arbitrary: rb)
  case Nil
  then show ?case using rb_invD(4) [of rb] by simp
next
  case (Cons m ms)
  from Cons.prems have fresh: "fm_ID m \<notin> set (ids rb)" by simp
  from Add_refines [OF Cons.prems(1) fresh] obtain rb1 where
    a: "Add m rb = Inr rb1" "rb_inv rb1" "rb_capacity rb1 = rb_capacity rb"
      "abs_rb rb1 = q_add (rb_capacity rb) m (abs_rb rb)" .
  let ?full = "rb_count rb = rb_capacity rb"
  have fl: "flows rb1 = (if ?full then tl (flows rb) else flows rb) @ [m]"
    using arg_cong [OF a(4), of "map fst"]
    by (auto simp: flows_of_abs q_add_def map_tl abs_rb_def comp_def)
  then have cnt: "rb_count rb1 = (if ?full then rb_count rb else Suc (rb_count rb))"
    using length_flows [of rb1] length_flows [of rb] rb_invD(1) [OF Cons.prems(1)]
    unfolding fl by auto
  have "distinct (ids rb1 @ map fm_ID ms)"
    using Cons.prems(2) fl by (cases "flows rb") (auto simp: ids_def)
  from Cons.IH [OF a(2) this] obtain rb' where
    r: "add_all ms rb1 = Inr rb'" "rb_inv rb'"
      "flows rb' = drop (rb_count rb1 + length ms - rb_capacity rb) (flows rb1 @ ms)"
    by (auto simp: a(3))
  have "flows rb' = drop (rb_count rb + length (m # ms) - rb_capacity rb) (flows rb @ m # ms)"
  proof (cases ?full)
    case True
    with rb_invD(1) [OF Cons.prems(1)] length_flows [of rb] show ?thesis
      by (cases "flows rb") (auto simp: r(3) fl cnt Suc_diff_le)
  next
    case False
    then show ?thesis by (simp add: r(3) fl cnt del: drop_append)
  qed
  with a(1) r show ?case by auto
qed

text \<open>After any number of captured flows with distinct identifiers, a buffer of capacity
  \<open>c\<close> retains exactly the last \<open>c\<close> of them, in capture order.\<close>

theorem store_keeps_last:
  assumes "0 < c" and "New c = Inr rb" and "distinct (map fm_ID ms)"
  shows "\<exists>rb'. add_all ms rb = Inr rb' \<and> flows rb' = drop (length ms - nat c) ms"
proof -
  from New_Inr [OF assms(1,2)] have inv: "rb_inv rb" and "abs_rb rb = []"
    and cap: "rb_capacity rb = nat c" by auto
  then have e: "flows rb = []" by (simp add: abs_rb_def)
  then have "ids rb = []" and "rb_count rb = 0"
    using length_flows [of rb] by (simp_all add: ids_def)
  with add_all_flows [OF inv, of ms] assms(3) e cap show ?thesis by auto
qed

theorem store_keeps_last_witness:
  "\<exists>rb rb'. New 1 = Inr rb \<and> add_all [zero_meta, zero_meta\<lparr>fm_ID := ''b''\<rparr>] rb = Inr rb' \<and>
    flows rb' = [zero_meta\<lparr>fm_ID := ''b''\<rparr>]"
proof -
  obtain rb where rb: "New 1 = Inr rb" by (auto simp: New_def)
  have "distinct (map fm_ID [zero_meta, zero_meta\<lparr>fm_ID := ''b''\<rparr>])"
    by (simp add: zero_meta_def)
  from store_keeps_last [OF _ rb this] rb show ?thesis by auto
qed

text \<open>C34: \<open>List\<close> with a filter that does not panic returns the matching flows newest first,
  cut to the page that offset and limit select, and the number of all matches.\<close>

theorem list_pages:
  assumes "\<forall>m \<in> set (flows rb). run_filter f m = Inr (g m)" and "0 \<le> offset"
  shows "List f offset limit rb =
    Inr (page offset limit (filter g (rev (flows rb))), length (filter g (flows rb)))"
  using assms by (rule List_refines)

theorem list_pages_witness:
  "List None 0 10 buf1 = Inr ([zero_meta], 1)"
  using list_pages [of buf1 None "\<lambda>_. True" 0 10]
  by (simp add: run_filter_def page_def buf1_def flows_def slot_at_def)

text \<open>An update of one flow is visible to a later \<open>Get\<close> of that flow and of no other, and
  neither update creates or removes a flow.\<close>

theorem get_after_update:
  assumes "rb_inv rb" and "keeps_id fn"
  shows "Get i (Update j fn rb) =
      (if i = j then map_sum (\<lambda>e. e) (\<lambda>(m, d). (fn m, d)) (Get i rb) else Get i rb) \<and>
    Get i (UpdateData j fd rb) =
      (if i = j then map_sum (\<lambda>e. e) (\<lambda>(m, d). (m, Some (fd (data_or_empty d)))) (Get i rb)
       else Get i rb)"
  using assms by (simp only: rb.get_upd rb.get_upd_data simp_thms)

theorem get_after_update_witness:
  "Get [] (Update [] (fm_StatusCode_update (\<lambda>_. 200)) buf1) = Inr (zero_meta\<lparr>fm_StatusCode := 200\<rparr>, None)"
proof -
  have "keeps_id (fm_StatusCode_update (\<lambda>_. 200))" by (simp add: keeps_id_def)
  from get_after_update [OF buf1_inv this, of "[]" "[]"] show ?thesis
    by (simp add: Get_def buf1_def)
qed

end
