(* ===== verification/Flow_Diff.thy ===== *)
theory Flow_Diff
  imports Flow_Store
begin

section \<open>Comparing two flows (internal/diff)\<close>

text \<open>
  The line diff of two flows: fields, headers and bodies.  The dynamic-programming table of
  \<open>simpleDiff\<close> is built from its last row, a row from its last column, as the two loops do; the
  walk over it emits the lines.  The reference is the length of a longest common subsequence.
\<close>

record DiffLine =
  dl_Type :: string
  dl_Content :: string

type_synonym diff_result = "DiffLine list"

definition dline :: "string \<Rightarrow> string \<Rightarrow> DiffLine" where
  "dline t c = \<lparr>dl_Type = t, dl_Content = c\<rparr>"

definition HasChanges :: "diff_result \<Rightarrow> bool" where
  "HasChanges r = list_ex (\<lambda>l. dl_Type l = ''add'' \<or> dl_Type l = ''del'') r"

definition Render :: "diff_result \<Rightarrow> string" where
  "Render r = concat (map (\<lambda>l.
     (if dl_Type l = ''add'' then ''+ '' else if dl_Type l = ''del'' then ''- '' else ''  '')
       @ dl_Content l @ [CHR 0x0A]) r)"

definition fmtURL :: "FlowMeta \<Rightarrow> string" where
  "fmtURL m = fm_Scheme m @ ''://'' @ fm_Host m @ fm_Path m"

definition diffField :: "string \<Rightarrow> string \<Rightarrow> string \<Rightarrow> diff_result" where
  "diffField name v1 v2 =
     (if v1 = v2 then [dline ''ctx'' (name @ '': '' @ v1)]
      else [dline ''del'' (name @ '': '' @ v1), dline ''add'' (name @ '': '' @ v2)])"

definition joinVals :: "header \<Rightarrow> string \<Rightarrow> string" where
  "joinVals h key = (case map_of h key of None \<Rightarrow> [] | Some vals \<Rightarrow> Join vals '', '')"

definition diffHeaders :: "string \<Rightarrow> header \<Rightarrow> header \<Rightarrow> diff_result" where
  "diffHeaders sect h1 h2 =
     dline ''ctx'' (''--- '' @ sect @ '' ---'') #
     concat (map (\<lambda>k. let v1 = joinVals h1 k; v2 = joinVals h2 k
        in if v1 = v2 then [dline ''ctx'' (''  '' @ k @ '': '' @ v1)]
           else (if v1 \<noteq> [] then [dline ''del'' (''  '' @ k @ '': '' @ v1)] else []) @
                (if v2 \<noteq> [] then [dline ''add'' (''  '' @ k @ '': '' @ v2)] else []))
       (header_keys (h1 @ h2)))"

subsection \<open>The line diff\<close>

text \<open>Row \<open>i\<close> of the table from line \<open>a[i]\<close>, the lines \<open>b\<close> and row \<open>i + 1\<close>.\<close>

fun dp_row :: "'a \<Rightarrow> 'a list \<Rightarrow> nat list \<Rightarrow> nat list" where
  "dp_row x [] below = [0]"
| "dp_row x (y # ys) below =
     (let right = dp_row x ys (tl below)
      in (if x = y then below ! 1 + 1 else max (below ! 0) (right ! 0)) # right)"

fun dp_table :: "'a list \<Rightarrow> 'a list \<Rightarrow> nat list list" where
  "dp_table [] b = [replicate (length b + 1) 0]"
| "dp_table (x # xs) b = (let rows = dp_table xs b in dp_row x b (rows ! 0) # rows)"

function diff_walk :: "string list \<Rightarrow> string list \<Rightarrow> nat list list \<Rightarrow> nat \<Rightarrow> nat \<Rightarrow> diff_result" where
  "diff_walk a b dp i j =
     (if i < length a \<or> j < length b then
        if i < length a \<and> j < length b \<and> a ! i = b ! j
        then dline ''ctx'' (a ! i) # diff_walk a b dp (i + 1) (j + 1)
        else if j < length b \<and> (i \<ge> length a \<or> dp ! i ! (j + 1) \<ge> dp ! (i + 1) ! j)
        then dline ''add'' (b ! j) # diff_walk a b dp i (j + 1)
        else dline ''del'' (a ! i) # diff_walk a b dp (i + 1) j
      else [])"
  by pat_completeness auto
termination
  by (relation "measure (\<lambda>(a, b, dp, i, j). (length a - i) + (length b - j))") auto

declare diff_walk.simps [simp del]

definition simpleDiff :: "string list \<Rightarrow> string list \<Rightarrow> diff_result" where
  "simpleDiff a b = diff_walk a b (dp_table a b) 0 0"

definition diffBody :: "string \<Rightarrow> string \<Rightarrow> string \<Rightarrow> diff_result" where
  "diffBody sect s1 s2 =
     (if s1 = s2 then (if s1 \<noteq> [] then [dline ''ctx'' (''--- '' @ sect @ '' (unchanged) ---'')] else [])
      else let lines1 = Split CHR 0x0A s1; lines2 = Split CHR 0x0A s2
           in dline ''ctx'' (''--- '' @ sect @ '' ---'') #
              (if max (length lines1) (length lines2) > 200
               then map (dline ''del'') lines1 @ map (dline ''add'') lines2
               else simpleDiff lines1 lines2))"

definition of_data :: "(FlowData \<Rightarrow> 'a list) \<Rightarrow> FlowData option \<Rightarrow> 'a list" where
  "of_data f d = (case d of None \<Rightarrow> [] | Some x \<Rightarrow> f x)"

definition Compare :: "FlowMeta \<Rightarrow> FlowData option \<Rightarrow> FlowMeta \<Rightarrow> FlowData option \<Rightarrow> diff_result" where
  "Compare meta1 data1 meta2 data2 =
     diffField ''Method'' (fm_Method meta1) (fm_Method meta2) @
     diffField ''URL'' (fmtURL meta1) (fmtURL meta2) @
     diffField ''Status'' (Itoa (fm_StatusCode meta1)) (Itoa (fm_StatusCode meta2)) @
     diffHeaders ''Request Headers'' (of_data fd_RequestHeaders data1) (of_data fd_RequestHeaders data2) @
     diffHeaders ''Response Headers'' (of_data fd_ResponseHeaders data1) (of_data fd_ResponseHeaders data2) @
     diffBody ''Request Body'' (of_data fd_RequestBody data1) (of_data fd_RequestBody data2) @
     diffBody ''Response Body'' (of_data fd_ResponseBody data1) (of_data fd_ResponseBody data2)"

subsection \<open>The table holds the lengths of longest common subsequences\<close>

fun lcs :: "'a list \<Rightarrow> 'a list \<Rightarrow> nat" where
  "lcs [] ys = 0"
| "lcs xs [] = 0"
| "lcs (x # xs) (y # ys) =
     (if x = y then lcs xs ys + 1 else max (lcs xs (y # ys)) (lcs (x # xs) ys))"

lemma lcs_Nil2 [simp]: "lcs xs [] = 0"
  by (cases xs) auto

lemma lcs_upper: "subseq zs xs \<Longrightarrow> subseq zs ys \<Longrightarrow> length zs \<le> lcs xs ys"
proof (induction xs ys arbitrary: zs rule: lcs.induct)
  case (3 x xs y ys)
  show ?case
  proof (cases zs)
    case Nil
    then show ?thesis by simp
  next
    case (Cons z zs')
    show ?thesis
    proof (cases "x = y")
      case True
      then have "subseq zs' xs" "subseq zs' ys"
        using 3(4,5) Cons by (auto simp: subseq_Cons' split: if_splits)
      with 3(1) [OF True] True Cons show ?thesis by simp
    next
      case False
      then have "subseq zs xs \<or> subseq zs ys"
        using 3(4,5) Cons by (auto split: if_splits)
      with False 3(2) [OF False, of zs] 3(3) [OF False, of zs] 3(4,5) show ?thesis by force
    qed
  qed
qed auto

lemma dp_row_lcs:
  "below = map (\<lambda>j. lcs xs (drop j b)) [0..<Suc (length b)] \<Longrightarrow>
   dp_row x b below = map (\<lambda>j. lcs (x # xs) (drop j b)) [0..<Suc (length b)]"
proof (induction b arbitrary: below)
  case (Cons y ys)
  have tl: "tl below = map (\<lambda>j. lcs xs (drop j ys)) [0..<Suc (length ys)]"
    using Cons.prems by (simp add: upt_conv_Cons map_Suc_upt [symmetric] comp_def del: upt_Suc)
  have nth: "below ! 0 = lcs xs (y # ys)" "below ! 1 = lcs xs ys"
    using Cons.prems by (simp_all add: nth_map del: upt_Suc)
  have r: "dp_row x ys (tl below) = map (\<lambda>j. lcs (x # xs) (drop j ys)) [0..<Suc (length ys)]"
    by (rule Cons.IH [OF tl])
  have "map (\<lambda>j. lcs (x # xs) (drop j (y # ys))) [0..<Suc (length (y # ys))] =
      lcs (x # xs) (y # ys) # map (\<lambda>j. lcs (x # xs) (drop j ys)) [0..<Suc (length ys)]"
    by (simp add: upt_conv_Cons map_Suc_upt [symmetric] comp_def del: upt_Suc)
  with r nth show ?case by (simp add: Let_def del: upt_Suc)
qed simp

lemma dp_table_lcs:
  "dp_table a b = map (\<lambda>i. map (\<lambda>j. lcs (drop i a) (drop j b)) [0..<Suc (length b)]) [0..<Suc (length a)]"
proof (induction a)
  case Nil
  have "map (\<lambda>j. 0 :: nat) [0..<Suc n] = replicate (Suc n) 0" for n
    by (simp add: map_replicate_const del: upt_Suc replicate_Suc)
  then show ?case by (simp del: upt_Suc) simp
next
  case (Cons x xs)
  have "dp_table xs b ! 0 = map (\<lambda>j. lcs xs (drop j b)) [0..<Suc (length b)]"
    unfolding Cons by (simp add: nth_map del: upt_Suc)
  from dp_row_lcs [OF this] Cons show ?case
    by (simp add: Let_def upt_conv_Cons [of 0 "Suc (Suc _)"] map_Suc_upt [symmetric] comp_def del: upt_Suc)
qed

lemma dp_lookup:
  "i \<le> length a \<Longrightarrow> j \<le> length b \<Longrightarrow> dp_table a b ! i ! j = lcs (drop i a) (drop j b)"
  by (simp add: dp_table_lcs nth_map del: upt_Suc)

text \<open>The two sides of a diff and its unchanged lines.\<close>

definition contents :: "string list \<Rightarrow> diff_result \<Rightarrow> string list" where
  "contents ts r = map dl_Content (filter (\<lambda>l. dl_Type l \<in> set ts) r)"

lemma contents_simps [simp]:
  "contents ts [] = []"
  "contents ts (dline t c # r) = (if t \<in> set ts then c # contents ts r else contents ts r)"
  by (simp_all add: contents_def dline_def)

lemma diff_walk_correct:
  "i \<le> length a \<Longrightarrow> j \<le> length b \<Longrightarrow>
   contents [''ctx'', ''del''] (diff_walk a b (dp_table a b) i j) = drop i a \<and>
   contents [''ctx'', ''add''] (diff_walk a b (dp_table a b) i j) = drop j b \<and>
   length (contents [''ctx''] (diff_walk a b (dp_table a b) i j)) = lcs (drop i a) (drop j b)"
proof (induction a b "dp_table a b" i j rule: diff_walk.induct)
  case (1 a b i j)
  note le = "1.prems"
  consider (same) "i < length a" "j < length b" "a ! i = b ! j"
    | (ins) "j < length b" "\<not> (i < length a \<and> a ! i = b ! j)"
        "i \<ge> length a \<or> dp_table a b ! i ! (j + 1) \<ge> dp_table a b ! (i + 1) ! j"
    | (rm) "i < length a" "\<not> (j < length b \<and> a ! i = b ! j)"
        "\<not> (j < length b \<and> (i \<ge> length a \<or> dp_table a b ! i ! (j + 1) \<ge> dp_table a b ! (i + 1) ! j))"
    | (stop) "i = length a" "j = length b"
    using le by fastforce
  then show ?case
  proof cases
    case same
    with "1.hyps"(1) have "contents [''ctx'', ''del''] (diff_walk a b (dp_table a b) (i + 1) (j + 1)) = drop (i + 1) a \<and>
       contents [''ctx'', ''add''] (diff_walk a b (dp_table a b) (i + 1) (j + 1)) = drop (j + 1) b \<and>
       length (contents [''ctx''] (diff_walk a b (dp_table a b) (i + 1) (j + 1))) = lcs (drop (i + 1) a) (drop (j + 1) b)"
      by simp
    with same show ?thesis
      by (subst (1 2 3) diff_walk.simps) (simp add: Cons_nth_drop_Suc [symmetric])
  next
    case ins
    with "1.hyps"(2) have IH: "contents [''ctx'', ''del''] (diff_walk a b (dp_table a b) i (j + 1)) = drop i a \<and>
       contents [''ctx'', ''add''] (diff_walk a b (dp_table a b) i (j + 1)) = drop (j + 1) b \<and>
       length (contents [''ctx''] (diff_walk a b (dp_table a b) i (j + 1))) = lcs (drop i a) (drop (j + 1) b)"
      using le by auto
    have "lcs (drop i a) (drop j b) = lcs (drop i a) (drop (j + 1) b)"
    proof (cases "i < length a")
      case True
      with ins le have "lcs (drop (i + 1) a) (drop j b) \<le> lcs (drop i a) (drop (j + 1) b)"
        by (simp add: dp_lookup)
      with True ins show ?thesis by (simp add: Cons_nth_drop_Suc [symmetric])
    qed simp
    with ins IH show ?thesis
      by (subst (1 2 3) diff_walk.simps) (auto simp: Cons_nth_drop_Suc [symmetric])
  next
    case rm
    with "1.hyps"(3) have IH: "contents [''ctx'', ''del''] (diff_walk a b (dp_table a b) (i + 1) j) = drop (i + 1) a \<and>
       contents [''ctx'', ''add''] (diff_walk a b (dp_table a b) (i + 1) j) = drop j b \<and>
       length (contents [''ctx''] (diff_walk a b (dp_table a b) (i + 1) j)) = lcs (drop (i + 1) a) (drop j b)"
      using le by auto
    have "lcs (drop i a) (drop j b) = lcs (drop (i + 1) a) (drop j b)"
    proof (cases "j < length b")
      case True
      with rm le have "lcs (drop i a) (drop (j + 1) b) \<le> lcs (drop (i + 1) a) (drop j b)"
        by (simp add: dp_lookup)
      with True rm show ?thesis by (simp add: Cons_nth_drop_Suc [symmetric])
    qed simp
    with rm IH show ?thesis
      by (subst (1 2 3) diff_walk.simps) (auto simp: Cons_nth_drop_Suc [symmetric])
  next
    case stop
    then show ?thesis by (subst (1 2 3) diff_walk.simps) simp
  qed
qed

text \<open>C22: The line diff is sound and minimal: its unchanged and deleted lines are the first text,
  its unchanged and added lines the second, and no common subsequence of the two texts has
  more lines than the diff leaves unchanged.\<close>

theorem simple_diff_minimal:
  "contents [''ctx'', ''del''] (simpleDiff a b) = a \<and>
   contents [''ctx'', ''add''] (simpleDiff a b) = b \<and>
   (subseq zs a \<and> subseq zs b \<longrightarrow> length zs \<le> length (contents [''ctx''] (simpleDiff a b)))"
  using diff_walk_correct [of 0 a 0 b] lcs_upper [of zs a b] by (simp add: simpleDiff_def)

theorem simple_diff_minimal_witness:
  "1 \<le> length (contents [''ctx''] (simpleDiff [''a'', ''b''] [''b'', ''c'']))"
  using simple_diff_minimal [of "[''a'', ''b'']" "[''b'', ''c'']" "[''b'']"] by simp

subsection \<open>When two flows differ\<close>

lemma HasChanges_append [simp]: "HasChanges (r @ s) \<longleftrightarrow> HasChanges r \<or> HasChanges s"
  by (simp add: HasChanges_def)

lemma HasChanges_simps [simp]:
  "\<not> HasChanges []"
  "HasChanges (dline t c # r) \<longleftrightarrow> t = ''add'' \<or> t = ''del'' \<or> HasChanges r"
  by (auto simp: HasChanges_def dline_def)

lemma HasChanges_concat: "HasChanges (concat rs) \<longleftrightarrow> (\<exists>r \<in> set rs. HasChanges r)"
  by (induction rs) auto

lemma HasChanges_diffField [simp]: "HasChanges (diffField n v1 v2) \<longleftrightarrow> v1 \<noteq> v2"
  by (simp add: diffField_def)

lemma joinVals_absent: "k \<notin> fst ` set h \<Longrightarrow> joinVals h k = []"
  by (simp add: joinVals_def map_of_eq_None_iff [THEN iffD2])

lemma HasChanges_diffHeaders [simp]:
  "HasChanges (diffHeaders n h1 h2) \<longleftrightarrow> (\<exists>k. joinVals h1 k \<noteq> joinVals h2 k)"
proof -
  have "HasChanges (diffHeaders n h1 h2) \<longleftrightarrow>
      (\<exists>k \<in> set (header_keys (h1 @ h2)). joinVals h1 k \<noteq> joinVals h2 k)"
  proof -
    have one: "HasChanges (let v1 = joinVals h1 k; v2 = joinVals h2 k
        in if v1 = v2 then [dline ''ctx'' (''  '' @ k @ '': '' @ v1)]
           else (if v1 \<noteq> [] then [dline ''del'' (''  '' @ k @ '': '' @ v1)] else []) @
                (if v2 \<noteq> [] then [dline ''add'' (''  '' @ k @ '': '' @ v2)] else [])) \<longleftrightarrow>
        joinVals h1 k \<noteq> joinVals h2 k" for k
      by (auto simp: Let_def)
    show ?thesis unfolding diffHeaders_def HasChanges_simps HasChanges_concat set_map
      using one by simp
  qed
  moreover have "k \<in> set (header_keys (h1 @ h2))" if "joinVals h1 k \<noteq> joinVals h2 k" for k
    using that joinVals_absent [of k h1] joinVals_absent [of k h2]
    by (auto simp: image_Un) fastforce+
  ultimately show ?thesis by blast
qed

lemma HasChanges_simpleDiff: "a \<noteq> b \<Longrightarrow> HasChanges (simpleDiff a b)"
proof (rule ccontr)
  assume ne: "a \<noteq> b" and no: "\<not> HasChanges (simpleDiff a b)"
  have "contents [''ctx'', ''del''] (simpleDiff a b) = contents [''ctx'', ''add''] (simpleDiff a b)"
    using no by (auto simp: contents_def HasChanges_def list_ex_iff intro!: arg_cong [of _ _ "map dl_Content"] filter_cong)
  with diff_walk_correct [of 0 a 0 b] ne show False by (simp add: simpleDiff_def)
qed

lemma HasChanges_diffBody [simp]: "HasChanges (diffBody n s1 s2) \<longleftrightarrow> s1 \<noteq> s2"
proof (cases "s1 = s2")
  case False
  then have "Split CHR 0x0A s1 \<noteq> Split CHR 0x0A s2" by (metis Join_Split)
  moreover have "HasChanges (map (dline ''del'') (Split CHR 0x0A s1))"
    by (cases "Split CHR 0x0A s1") simp_all
  ultimately show ?thesis using False HasChanges_simpleDiff by (simp add: diffBody_def Let_def)
qed (simp add: diffBody_def)

lemma show_nat_inj [simp]: "show_nat m = show_nat n \<longleftrightarrow> m = n"
  by (metis read_show_nat)

lemma Itoa_inj [simp]: "Itoa i = Itoa j \<longleftrightarrow> i = j"
proof -
  have "hd (show_nat n) \<noteq> CHR ''-''" for n
    using show_nat_hd_digit [of n] by (auto simp: is_digit_def byte_def)
  then show ?thesis by (auto simp: Itoa_def nat_eq_iff split: if_splits) (metis list.sel(1))+
qed

text \<open>A comparison shows changes exactly when the flows differ in method, URL, status, the
  values of some request or response header, or a body.\<close>

theorem compare_has_changes:
  "HasChanges (Compare m1 d1 m2 d2) \<longleftrightarrow>
   fm_Method m1 \<noteq> fm_Method m2 \<or> fmtURL m1 \<noteq> fmtURL m2 \<or> fm_StatusCode m1 \<noteq> fm_StatusCode m2 \<or>
   (\<exists>k. joinVals (of_data fd_RequestHeaders d1) k \<noteq> joinVals (of_data fd_RequestHeaders d2) k) \<or>
   (\<exists>k. joinVals (of_data fd_ResponseHeaders d1) k \<noteq> joinVals (of_data fd_ResponseHeaders d2) k) \<or>
   of_data fd_RequestBody d1 \<noteq> of_data fd_RequestBody d2 \<or>
   of_data fd_ResponseBody d1 \<noteq> of_data fd_ResponseBody d2"
  by (simp add: Compare_def)

theorem compare_has_changes_witness:
  "HasChanges (Compare zero_meta None (zero_meta\<lparr>fm_StatusCode := 200\<rparr>) None)"
  using compare_has_changes [of zero_meta None "zero_meta\<lparr>fm_StatusCode := 200\<rparr>" None]
  by (simp add: zero_meta_def)

end
