(* ===== verification/Flow_Filter.thy ===== *)
theory Flow_Filter
  imports Flow_Store
begin

section \<open>Flow filters (internal/filter)\<close>

text \<open>
  The quick filter (quick.go) and the filter expressions (advanced.go).  A compile function
  returns a pointer, nil for a blank input: here an option.  Match on a nil pointer panics,
  which is what a caller gets who stores the nil pointer in the Filter interface: \<open>quick_iface\<close>
  and \<open>adv_iface\<close> are those interface values.  The regular-expression engine is a parameter:
  the compiled matcher of a pattern, or \<open>None\<close> for a pattern with an error.
\<close>

type_synonym regexp = "string \<Rightarrow> (string \<Rightarrow> bool) option"

subsection \<open>Quick filter\<close>

record QuickFilter =
  qf_query :: string

definition CompileQuick :: "string \<Rightarrow> QuickFilter option" where
  "CompileQuick input =
     (let q = TrimSpace input in if q = [] then None else Some \<lparr>qf_query = ToLower q\<rparr>)"

definition QuickMatch :: "QuickFilter option \<Rightarrow> FlowMeta \<Rightarrow> bool res" where
  "QuickMatch f flow = (case f of None \<Rightarrow> Inl NilDeref
     | Some qf \<Rightarrow> let target = ToLower (fm_Host flow @ fm_Path flow)
                  in Inr (Contains target (qf_query qf)))"

definition quick_iface :: "QuickFilter option \<Rightarrow> Filter option" where
  "quick_iface f = Some (QuickMatch f)"

subsection \<open>Filter expressions\<close>

record fterm =
  ft_negate :: bool
  ft_matcher :: "(FlowMeta \<Rightarrow> bool) option"

type_synonym AdvancedFilter = "fterm list"

definition compileStatus :: "string \<Rightarrow> FlowMeta \<Rightarrow> bool" where
  "compileStatus val =
     (if length val = 3 \<and> val ! 1 = CHR ''x'' \<and> val ! 2 = CHR ''x''
      then let base = int ((byte (val ! 0) + (256 - 48)) mod 256) * 100
           in (\<lambda>flow. fm_StatusCode flow \<ge> base \<and> fm_StatusCode flow < base + 100)
      else (case Atoi val of None \<Rightarrow> (\<lambda>_. False) | Some code \<Rightarrow> (\<lambda>flow. fm_StatusCode flow = code)))"

definition compileMethod :: "string \<Rightarrow> FlowMeta \<Rightarrow> bool" where
  "compileMethod val = (let method = ToUpper val in (\<lambda>flow. EqualFold (fm_Method flow) method))"

definition compileContentType :: "string \<Rightarrow> FlowMeta \<Rightarrow> bool" where
  "compileContentType val =
     (let q = ToLower val in (\<lambda>flow. Contains (ToLower (fm_ContentType flow)) q))"

definition compileRegex :: "regexp \<Rightarrow> string \<Rightarrow> FlowMeta \<Rightarrow> bool" where
  "compileRegex re val0 =
     (let val = TrimSuffix (TrimPrefix val0 ''/'') ''/''
      in case re val of None \<Rightarrow> (\<lambda>_. False) | Some mt \<Rightarrow> (\<lambda>flow. mt (fm_Host flow @ fm_Path flow)))"

definition parseSingleTerm :: "regexp \<Rightarrow> string \<Rightarrow> fterm" where
  "parseSingleTerm re s0 =
     (let negate = HasPrefix s0 ''!'';
          s = (if negate then drop 1 s0 else s0);
          matcher =
            (if HasPrefix s ''s:'' then compileStatus (drop 2 s)
             else if HasPrefix s ''m:'' then compileMethod (drop 2 s)
             else if HasPrefix s ''ct:'' then compileContentType (drop 3 s)
             else if HasPrefix s ''re:'' then compileRegex re (drop 3 s)
             else (let q = ToLower s
                   in (\<lambda>flow. Contains (ToLower (fm_Host flow @ fm_Path flow)) q)))
      in \<lparr>ft_negate = negate, ft_matcher = Some matcher\<rparr>)"

definition parseTerms :: "regexp \<Rightarrow> string \<Rightarrow> fterm list" where
  "parseTerms re input0 =
     (let input = TrimSpace input0
      in if input = [] then []
         else filter (\<lambda>t. ft_matcher t \<noteq> None) (map (parseSingleTerm re) (Fields input)))"

definition Compile :: "regexp \<Rightarrow> string \<Rightarrow> AdvancedFilter option" where
  "Compile re input =
     (let terms = parseTerms re input in if length terms = 0 then None else Some terms)"

fun match_terms :: "fterm list \<Rightarrow> FlowMeta \<Rightarrow> bool res" where
  "match_terms [] flow = Inr True"
| "match_terms (t # ts) flow = (case ft_matcher t of None \<Rightarrow> Inl NilDeref
     | Some mt \<Rightarrow>
        let m = mt flow; m' = (if ft_negate t then \<not> m else m)
        in if \<not> m' then Inr False else match_terms ts flow)"

definition AdvMatch :: "AdvancedFilter option \<Rightarrow> FlowMeta \<Rightarrow> bool res" where
  "AdvMatch f flow = (case f of None \<Rightarrow> Inl NilDeref | Some terms \<Rightarrow> match_terms terms flow)"

definition adv_iface :: "AdvancedFilter option \<Rightarrow> Filter option" where
  "adv_iface f = Some (AdvMatch f)"

subsection \<open>White space\<close>

lemma Fields_aux_space: "is_space c \<Longrightarrow> Fields_aux w (a @ c # b) = Fields_aux w a @ Fields b"
  by (induction w a rule: Fields_aux.induct) (auto simp: Fields_def)

lemma Fields_append_space: "is_space c \<Longrightarrow> Fields (a @ c # b) = Fields a @ Fields b"
  by (simp add: Fields_def Fields_aux_space)

lemma Fields_all_space: "\<forall>c \<in> set s. is_space c \<Longrightarrow> Fields s = []"
  by (induction s) (auto simp: Fields_def)

lemma Fields_dropWhile: "Fields (dropWhile is_space s) = Fields s"
  by (induction s) (auto simp: Fields_def)

lemma Fields_append_all_space: "\<forall>c \<in> set t. is_space c \<Longrightarrow> Fields (s @ t) = Fields s"
  by (cases t) (auto simp: Fields_append_space Fields_all_space)

lemma Fields_TrimSpace [simp]: "Fields (TrimSpace s) = Fields s"
proof -
  let ?a = "dropWhile is_space s"
  have "?a = rev (dropWhile is_space (rev ?a)) @ rev (takeWhile is_space (rev ?a))"
    by (metis rev_append rev_rev_ident takeWhile_dropWhile_id)
  moreover have "\<forall>c \<in> set (rev (takeWhile is_space (rev ?a))). is_space c"
    by (auto dest: set_takeWhileD)
  ultimately have "Fields ?a = Fields (rev (dropWhile is_space (rev ?a)))"
    by (metis Fields_append_all_space)
  then show ?thesis by (simp add: TrimSpace_def Fields_dropWhile)
qed

subsection \<open>The meaning of an expression\<close>

text \<open>What one word of an expression accepts, and what an expression accepts.\<close>

definition word_accepts :: "regexp \<Rightarrow> string \<Rightarrow> FlowMeta \<Rightarrow> bool" where
  "word_accepts re w m =
     (let t = parseSingleTerm re w in the (ft_matcher t) m \<noteq> ft_negate t)"

definition expr_accepts :: "regexp \<Rightarrow> string \<Rightarrow> FlowMeta \<Rightarrow> bool" where
  "expr_accepts re input m = list_all (\<lambda>w. word_accepts re w m) (Fields input)"

lemma matcher_not_nil: "\<exists>mt. ft_matcher (parseSingleTerm re w) = Some mt"
  by (simp add: parseSingleTerm_def Let_def)

lemma match_parsed: "match_terms (map (parseSingleTerm re) ws) m = Inr (list_all (\<lambda>w. word_accepts re w m) ws)"
proof (induction ws)
  case (Cons w ws)
  obtain mt where "ft_matcher (parseSingleTerm re w) = Some mt"
    using matcher_not_nil [of re w] by blast
  with Cons show ?case by (auto simp: word_accepts_def Let_def)
qed simp

lemma Fields_empty_iff: "Fields s = [] \<longleftrightarrow> TrimSpace s = []"
proof
  assume f: "Fields s = []"
  show "TrimSpace s = []"
  proof (rule ccontr)
    assume ne: "TrimSpace s \<noteq> []"
    then have "dropWhile is_space s \<noteq> []" unfolding TrimSpace_def by force
    then obtain c t where ct: "dropWhile is_space s = c # t" "\<not> is_space c"
      by (metis hd_dropWhile list.exhaust_sel)
    have grow: "v \<noteq> [] \<Longrightarrow> Fields_aux v u \<noteq> []" for v u
      by (induction v u rule: Fields_aux.induct) auto
    have "Fields s = Fields (c # t)" using ct(1) by (metis Fields_dropWhile)
    with ct(2) have "Fields s = Fields_aux [c] t" by (simp add: Fields_def)
    with f grow show False by simp
  qed
next
  assume "TrimSpace s = []"
  then have "Fields (TrimSpace s) = []" by (simp add: Fields_def)
  then show "Fields s = []" by simp
qed

lemma parseTerms_eq: "parseTerms re input = map (parseSingleTerm re) (Fields input)"
proof (cases "TrimSpace input = []")
  case True
  then have "Fields input = []" by (simp add: Fields_empty_iff)
  with True show ?thesis by (simp add: parseTerms_def)
qed (simp add: parseTerms_def Let_def filter_id_conv matcher_not_nil)

lemma Compile_match:
  "Compile re input = None \<longleftrightarrow> TrimSpace input = []"
  "TrimSpace input \<noteq> [] \<Longrightarrow> AdvMatch (Compile re input) m = Inr (expr_accepts re input m)"
  by (auto simp: Compile_def parseTerms_eq Let_def Fields_empty_iff AdvMatch_def match_parsed expr_accepts_def)

text \<open>C27: A filter expression that is not blank never panics and accepts the flows that every
  one of its words accepts; two expressions side by side accept what both accept, and an
  exclamation mark turns a word into its complement.\<close>

theorem advanced_filter_meaning:
  assumes "TrimSpace input \<noteq> []"
  shows "AdvMatch (Compile re input) m = Inr (expr_accepts re input m) \<and>
    (is_space c \<longrightarrow> expr_accepts re (input @ c # other) m \<longleftrightarrow>
       expr_accepts re input m \<and> expr_accepts re other m) \<and>
    (\<not> HasPrefix w ''!'' \<longrightarrow> word_accepts re (CHR ''!'' # w) m = (\<not> word_accepts re w m))"
  using Compile_match(2) [OF assms]
  by (auto simp: expr_accepts_def Fields_append_space word_accepts_def parseSingleTerm_def Let_def)

definition get_flow :: FlowMeta where
  "get_flow = zero_meta\<lparr>fm_Method := ''GET'', fm_StatusCode := 404, fm_Host := ''a.example''\<rparr>"

theorem advanced_filter_meaning_witness:
  "AdvMatch (Compile (\<lambda>_. None) ''s:4xx !m:post'') get_flow = Inr True"
proof -
  have ne: "TrimSpace ''s:4xx !m:post'' \<noteq> []" by (simp add: TrimSpace_def is_space_def byte_def)
  have "expr_accepts (\<lambda>_. None) ''s:4xx !m:post'' get_flow"
    by (simp add: expr_accepts_def Fields_def is_space_def byte_def word_accepts_def
        parseSingleTerm_def compileStatus_def compileMethod_def EqualFold_def ToLower_def
        lower_char_def ToUpper_def upper_char_def get_flow_def zero_meta_def)
  with advanced_filter_meaning [OF ne, of "\<lambda>_. None" get_flow] show ?thesis by simp
qed

text \<open>The three status forms: a class such as 4xx accepts exactly the hundred codes of that
  class, a number accepts that code, and any other text accepts nothing.\<close>

theorem status_filter_classes:
  assumes "is_digit d"
  shows "compileStatus [d, CHR ''x'', CHR ''x''] m =
      (fm_StatusCode m div 100 = int (byte d) - 48) \<and>
    (- (2 ^ 63) \<le> code \<longrightarrow> code < 2 ^ 63 \<longrightarrow> compileStatus (Itoa code) m = (fm_StatusCode m = code)) \<and>
    (Atoi v = None \<longrightarrow> \<not> (length v = 3 \<and> v ! 1 = CHR ''x'' \<and> v ! 2 = CHR ''x'') \<longrightarrow>
      \<not> compileStatus v m)"
proof -
  have d: "48 \<le> byte d" "byte d \<le> 57" using assms by (auto simp: is_digit_def)
  have "byte d + 208 = (byte d - 48) + 256" using d by simp
  then have b: "(byte d + 208) mod 256 = byte d - 48" using d by (simp only: mod_add_self2) simp
  have cls: "compileStatus [d, CHR ''x'', CHR ''x''] m = (fm_StatusCode m div 100 = int (byte d) - 48)"
    using d by (auto simp: compileStatus_def Let_def b of_nat_diff)
  have nat_digits: "CHR ''x'' \<notin> set (show_nat n)" for n
    using show_nat_digits [of n] by (fastforce simp: list_all_iff is_digit_def byte_def)
  have digits: "c \<in> set (Itoa code) \<Longrightarrow> c \<noteq> CHR ''x''" for c code
    using nat_digits by (auto simp: Itoa_def split: if_splits)
  have "compileStatus (Itoa code) m = (fm_StatusCode m = code)"
    if "- (2 ^ 63) \<le> code" "code < 2 ^ 63"
  proof -
    have "length (Itoa code) \<noteq> 3 \<or> Itoa code ! 1 \<noteq> CHR ''x''"
      using digits [of "Itoa code ! 1" code] by (auto simp: nth_mem)
    with Atoi_Itoa [OF that] show ?thesis unfolding compileStatus_def by auto
  qed
  with cls show ?thesis by (auto simp: compileStatus_def)
qed

theorem status_filter_classes_witness:
  "compileStatus ''4xx'' get_flow \<and> \<not> compileStatus ''5xx'' get_flow"
  using status_filter_classes [of "CHR ''4''" get_flow] status_filter_classes [of "CHR ''5''" get_flow]
  by (simp add: is_digit_def byte_def get_flow_def)

interpretation quick: list_filter "\<lambda>t. quick_iface (CompileQuick t)" "\<lambda>t. TrimSpace t \<noteq> []"
  "\<lambda>t m. Contains (ToLower (fm_Host m @ fm_Path m)) (ToLower (TrimSpace t))"
  by unfold_locales (simp add: run_filter_def quick_iface_def QuickMatch_def CompileQuick_def Let_def)

interpretation adv: list_filter "\<lambda>t. adv_iface (Compile re t)" "\<lambda>t. TrimSpace t \<noteq> []" "expr_accepts re" for re
  by unfold_locales (simp add: run_filter_def adv_iface_def Compile_match(2))

text \<open>A filter compiled from blank input is a nil pointer, and a store listing that is
  given it as a Filter panics as soon as the store holds a flow.\<close>

theorem blank_filter_panics:
  assumes "TrimSpace input = []" and "rb_count rb \<noteq> 0"
  shows "List (quick_iface (CompileQuick input)) off lim rb = Inl NilDeref \<and>
    List (adv_iface (Compile re input)) off lim rb = Inl NilDeref"
proof -
  obtain n where n: "rb_count rb = Suc n" using assms(2) by (cases "rb_count rb") auto
  have "CompileQuick input = None" "Compile re input = None"
    using assms(1) by (simp_all add: CompileQuick_def Compile_match(1))
  with n show ?thesis
    by (simp add: List_def quick_iface_def adv_iface_def QuickMatch_def AdvMatch_def Let_def)
qed

theorem blank_filter_panics_witness:
  "List (quick_iface (CompileQuick '' '')) 0 10 buf1 = Inl NilDeref"
  using blank_filter_panics [of "'' ''" buf1 0 10]
  by (simp add: TrimSpace_def is_space_def byte_def buf1_def)

text \<open>A quick filter that is not blank accepts a flow exactly when the trimmed query occurs
  in host and path, whatever the case of either.\<close>

theorem quick_filter_meaning:
  assumes "TrimSpace q \<noteq> []"
  shows "QuickMatch (CompileQuick q) m =
    Inr (\<exists>a b. ToLower (fm_Host m @ fm_Path m) = a @ ToLower (TrimSpace q) @ b)"
  using assms by (simp add: CompileQuick_def QuickMatch_def Let_def Contains_iff)

theorem quick_filter_meaning_witness:
  "QuickMatch (CompileQuick '' EXAMPLE '') get_flow = Inr True"
proof -
  have t: "TrimSpace '' EXAMPLE '' = ''EXAMPLE''" by (simp add: TrimSpace_def is_space_def byte_def)
  have "ToLower (fm_Host get_flow @ fm_Path get_flow) = ''a.'' @ ToLower ''EXAMPLE'' @ ''''"
    by code_simp
  then have "\<exists>a b. ToLower (fm_Host get_flow @ fm_Path get_flow) = a @ ToLower (TrimSpace '' EXAMPLE '') @ b"
    unfolding t by blast
  with quick_filter_meaning [of "'' EXAMPLE ''" get_flow] t show ?thesis by simp
qed

end
