(* ===== verification/Breakpoint.thy ===== *)
theory Breakpoint
  imports Flow_Store
begin

section \<open>The breakpoint controller (internal/breakpoint)\<close>

text \<open>
  A proxy goroutine that hits a breakpoint registers itself under its flow, tells the
  subscribers and blocks on a fresh channel of capacity 1 until someone resumes the flow.  A
  channel is its number and the list of values it holds.  \<open>Resume\<close> and \<open>ResumeAll\<close> take entries
  out of the pending map under the lock and send after unlocking: in the step relation a taken
  entry is in flight until its send is done, so sends, receives and new pauses interleave.
\<close>

subsection \<open>Data and operations\<close>

text \<open>The body of an answer is an option: nil keeps the body, an empty one replaces it.\<close>

datatype Phase = PhaseRequest | PhaseResponse

record BreakpointHit =
  bh_FlowID :: FlowID
  bh_Phase :: Phase
  bh_Headers :: "(string \<times> string) list"
  bh_Body :: string
  bh_Meta :: FlowMeta

record BreakpointResume =
  br_Headers :: "(string \<times> string) list"
  br_Body :: "string option"
  br_Skipped :: bool

record pendingHit =
  ph_hit :: BreakpointHit
  ph_respCh :: nat

record controller =
  c_pending :: "(FlowID \<times> pendingHit) list"
  c_subscribers :: "BreakpointHit list list"
  c_chans :: "nat \<Rightarrow> BreakpointResume list"
  c_fresh :: nat

definition NewController :: controller where
  "NewController = \<lparr>c_pending = [], c_subscribers = [], c_chans = (\<lambda>_. []), c_fresh = 0\<rparr>"

text \<open>The skip that \<open>ResumeAll\<close> sends.\<close>

definition skip_resume :: BreakpointResume where
  "skip_resume = \<lparr>br_Headers = [], br_Body = None, br_Skipped = True\<rparr>"

text \<open>
  \<open>Pause\<close> up to its receive: a channel is made, the hit is registered and every subscriber
  with room in its buffer of 16 gets the hit (the send does not block).  The receive is
  \<open>chan_recv\<close> on the channel returned.
\<close>

definition notify :: "BreakpointHit \<Rightarrow> BreakpointHit list \<Rightarrow> BreakpointHit list" where
  "notify hit buf = (if length buf < 16 then buf @ [hit] else buf)"

definition Pause_begin :: "BreakpointHit \<Rightarrow> controller \<Rightarrow> nat \<times> controller" where
  "Pause_begin hit c =
     (let ch = c_fresh c; ph = \<lparr>ph_hit = hit, ph_respCh = ch\<rparr>
      in (ch, c\<lparr>c_fresh := ch + 1, c_chans := (c_chans c)(ch := []),
                c_pending := AList.update (bh_FlowID hit) ph (c_pending c),
                c_subscribers := map (notify hit) (c_subscribers c)\<rparr>))"

definition chan_send :: "nat \<Rightarrow> BreakpointResume \<Rightarrow> controller \<Rightarrow> controller option" where
  "chan_send ch v c = (if length (c_chans c ch) < 1
     then Some (c\<lparr>c_chans := (c_chans c)(ch := c_chans c ch @ [v])\<rparr>) else None)"

definition chan_recv :: "nat \<Rightarrow> controller \<Rightarrow> (BreakpointResume \<times> controller) option" where
  "chan_recv ch c = (case c_chans c ch of [] \<Rightarrow> None
     | v # vs \<Rightarrow> Some (v, c\<lparr>c_chans := (c_chans c)(ch := vs)\<rparr>))"

definition Subscribe :: "controller \<Rightarrow> nat \<times> controller" where
  "Subscribe c = (length (c_subscribers c), c\<lparr>c_subscribers := c_subscribers c @ [[]]\<rparr>)"

definition sub_recv :: "nat \<Rightarrow> controller \<Rightarrow> (BreakpointHit \<times> controller) option" where
  "sub_recv i c = (if i < length (c_subscribers c)
     then (case c_subscribers c ! i of [] \<Rightarrow> None
       | h # hs \<Rightarrow> Some (h, c\<lparr>c_subscribers := (c_subscribers c)[i := hs]\<rparr>)) else None)"

text \<open>\<open>Resume\<close> and \<open>ResumeAll\<close> as what they do under the lock and the sends that follow it.\<close>

definition Resume_take :: "FlowID \<Rightarrow> controller \<Rightarrow> pendingHit option \<times> controller" where
  "Resume_take flowID c = (case map_of (c_pending c) flowID of None \<Rightarrow> (None, c)
     | Some ph \<Rightarrow> (Some ph, c\<lparr>c_pending := AList.delete flowID (c_pending c)\<rparr>))"

definition Resume :: "FlowID \<Rightarrow> BreakpointResume \<Rightarrow> controller \<Rightarrow> controller option" where
  "Resume flowID resp c = (case Resume_take flowID c of (None, c1) \<Rightarrow> Some c1
     | (Some ph, c1) \<Rightarrow> chan_send (ph_respCh ph) resp c1)"

definition Pending :: "controller \<Rightarrow> BreakpointHit list" where
  "Pending c = map (ph_hit \<circ> snd) (c_pending c)"

definition ResumeAll_take :: "controller \<Rightarrow> pendingHit list \<times> controller" where
  "ResumeAll_take c = (map snd (c_pending c), c\<lparr>c_pending := []\<rparr>)"

fun send_all :: "pendingHit list \<Rightarrow> controller \<Rightarrow> controller option" where
  "send_all [] c = Some c"
| "send_all (ph # phs) c = (case chan_send (ph_respCh ph) skip_resume c of None \<Rightarrow> None
     | Some c1 \<Rightarrow> send_all phs c1)"

definition ResumeAll :: "controller \<Rightarrow> controller option" where
  "ResumeAll c = (case ResumeAll_take c of (all, c1) \<Rightarrow> send_all all c1)"

subsection \<open>Interleavings\<close>

text \<open>
  The controller with its goroutines: the channels of the sends in flight, the paused
  goroutines (by their channel) and what the resumed ones received.  A flow is paused by the
  goroutine of its hook, which then waits, so it is not pending when it is paused.
\<close>

record bworld =
  w_ctl :: controller
  w_sending :: "(nat \<times> BreakpointResume) list"
  w_waiting :: "nat set"
  w_done :: "(nat \<times> BreakpointResume) list"

definition start_world :: bworld where
  "start_world = \<lparr>w_ctl = NewController, w_sending = [], w_waiting = {}, w_done = []\<rparr>"

inductive bstep :: "bworld \<Rightarrow> bworld \<Rightarrow> bool" where
  step_pause: "map_of (c_pending (w_ctl w)) (bh_FlowID hit) = None \<Longrightarrow>
     Pause_begin hit (w_ctl w) = (ch, c') \<Longrightarrow>
     bstep w (w\<lparr>w_ctl := c', w_waiting := insert ch (w_waiting w)\<rparr>)"
| step_take: "Resume_take fid (w_ctl w) = (Some ph, c') \<Longrightarrow>
     bstep w (w\<lparr>w_ctl := c', w_sending := w_sending w @ [(ph_respCh ph, r)]\<rparr>)"
| step_take_all: "ResumeAll_take (w_ctl w) = (phs, c') \<Longrightarrow> mset all = mset phs \<Longrightarrow>
     bstep w (w\<lparr>w_ctl := c',
       w_sending := w_sending w @ map (\<lambda>ph. (ph_respCh ph, skip_resume)) all\<rparr>)"
| step_send: "w_sending w = xs @ (ch, r) # ys \<Longrightarrow> chan_send ch r (w_ctl w) = Some c' \<Longrightarrow>
     bstep w (w\<lparr>w_ctl := c', w_sending := xs @ ys\<rparr>)"
| step_recv: "ch \<in> w_waiting w \<Longrightarrow> chan_recv ch (w_ctl w) = Some (r, c') \<Longrightarrow>
     bstep w (w\<lparr>w_ctl := c', w_waiting := w_waiting w - {ch}, w_done := w_done w @ [(ch, r)]\<rparr>)"
| step_subscribe: "Subscribe (w_ctl w) = (i, c') \<Longrightarrow> bstep w (w\<lparr>w_ctl := c'\<rparr>)"
| step_sub_recv: "sub_recv i (w_ctl w) = Some (h, c') \<Longrightarrow> bstep w (w\<lparr>w_ctl := c'\<rparr>)"

inductive breach :: "bworld \<Rightarrow> bool" where
  breach_start: "breach start_world"
| breach_step: "breach w \<Longrightarrow> bstep w w' \<Longrightarrow> breach w'"

text \<open>The channels somebody will still send on.\<close>

definition pend_chans :: "controller \<Rightarrow> nat list" where
  "pend_chans c = map (ph_respCh \<circ> snd) (c_pending c)"

definition owed :: "bworld \<Rightarrow> nat list" where
  "owed w = pend_chans (w_ctl w) @ map fst (w_sending w)"

definition full_chans :: "bworld \<Rightarrow> nat set" where
  "full_chans w = {ch. c_chans (w_ctl w) ch \<noteq> []}"

definition bp_inv :: "bworld \<Rightarrow> bool" where
  "bp_inv w \<longleftrightarrow>
     distinct (map fst (c_pending (w_ctl w))) \<and> distinct (owed w) \<and>
     (\<forall>ch. length (c_chans (w_ctl w) ch) \<le> 1) \<and> set (owed w) \<inter> full_chans w = {} \<and>
     w_waiting w = set (owed w) \<union> full_chans w \<and>
     distinct (map fst (w_done w)) \<and> fst ` set (w_done w) \<inter> w_waiting w = {} \<and>
     (\<forall>ch \<in> w_waiting w \<union> fst ` set (w_done w). ch < c_fresh (w_ctl w))"

lemma update_new: "map_of xs k = None \<Longrightarrow> AList.update k v xs = xs @ [(k, v)]"
  by (induction xs) (auto split: if_splits)

lemma delete_keep: "k \<notin> fst ` set xs \<Longrightarrow> filter (\<lambda>(k', _). k \<noteq> k') xs = xs"
  by (induction xs) auto

lemma delete_split:
  assumes "distinct (map fst xs)" and "map_of xs k = Some v"
  obtains as bs where "xs = as @ (k, v) # bs" and "AList.delete k xs = as @ bs"
proof -
  from assms(2) obtain as bs where xs: "xs = as @ (k, v) # bs"
    by (metis map_of_SomeD split_list)
  have k: "k \<notin> fst ` set as" "k \<notin> fst ` set bs" using assms(1) by (auto simp: xs)
  have "AList.delete k xs = as @ bs"
    using delete_keep [OF k(1)] delete_keep [OF k(2)] by (simp add: xs AList.delete_eq)
  with xs that show ?thesis by blast
qed

lemma bp_inv_step: "bstep w w' \<Longrightarrow> bp_inv w \<Longrightarrow> bp_inv w'"
proof (induction rule: bstep.induct)
  case (step_pause w hit ch c')
  let ?w = "w\<lparr>w_ctl := c', w_waiting := insert ch (w_waiting w)\<rparr>"
  note inv = step_pause(3)
  from step_pause have ch: "ch = c_fresh (w_ctl w)" "c_chans c' = (c_chans (w_ctl w))(ch := [])"
    "c_pending c' = c_pending (w_ctl w) @ [(bh_FlowID hit, \<lparr>ph_hit = hit, ph_respCh = ch\<rparr>)]"
    "c_fresh c' = Suc ch"
    by (auto simp: Pause_begin_def Let_def update_new)
  have fresh: "ch \<notin> w_waiting w" "ch \<notin> fst ` set (w_done w)" "ch \<notin> full_chans w"
    "ch \<notin> set (owed w)" using inv ch(1) by (auto simp: bp_inv_def)
  then have e: "c_chans (w_ctl w) ch = []" by (simp add: full_chans_def)
  have fc: "full_chans ?w = full_chans w" using ch e by (auto simp: full_chans_def)
  have ow: "distinct (owed ?w) \<and> set (owed ?w) = insert ch (set (owed w))"
    using inv fresh by (auto simp: owed_def pend_chans_def ch bp_inv_def)
  have "bh_FlowID hit \<notin> set (map fst (c_pending (w_ctl w)))"
    using step_pause by (auto simp: map_of_eq_None_iff)
  with inv ow fresh e show ?case
    unfolding bp_inv_def fc by (auto simp: ch less_Suc_eq)
next
  case (step_take fid w ph c' r)
  let ?w = "w\<lparr>w_ctl := c', w_sending := w_sending w @ [(ph_respCh ph, r)]\<rparr>"
  note inv = step_take(2)
  from step_take have m: "map_of (c_pending (w_ctl w)) fid = Some ph"
    and c': "c' = (w_ctl w)\<lparr>c_pending := AList.delete fid (c_pending (w_ctl w))\<rparr>"
    by (auto simp: Resume_take_def split: option.splits)
  have "distinct (map fst (c_pending (w_ctl w)))" using inv by (simp add: bp_inv_def)
  from delete_split [OF this m] obtain as bs where
    s: "c_pending (w_ctl w) = as @ (fid, ph) # bs" "AList.delete fid (c_pending (w_ctl w)) = as @ bs" .
  have p': "c_pending c' = as @ bs" "c_chans c' = c_chans (w_ctl w)" "c_fresh c' = c_fresh (w_ctl w)"
    using s(2) by (simp_all add: c')
  have ow: "mset (owed ?w) = mset (owed w)"
    by (simp add: owed_def pend_chans_def p' s(1))
  have "full_chans ?w = full_chans w" by (simp add: full_chans_def p')
  moreover from ow have "set (owed ?w) = set (owed w)" by (rule mset_eq_setD)
  moreover from ow have "distinct (owed ?w) = distinct (owed w)" by (rule mset_eq_imp_distinct_iff)
  moreover have "distinct (map fst (c_pending c'))" using inv by (auto simp: bp_inv_def p' s(1))
  ultimately show ?case using inv unfolding bp_inv_def by (auto simp: p')
next
  case (step_take_all w phs c' all)
  let ?w = "w\<lparr>w_ctl := c', w_sending := w_sending w @ map (\<lambda>ph. (ph_respCh ph, skip_resume)) all\<rparr>"
  note inv = step_take_all(3)
  from step_take_all have c': "phs = map snd (c_pending (w_ctl w))" "c' = (w_ctl w)\<lparr>c_pending := []\<rparr>"
    by (auto simp: ResumeAll_take_def)
  have fc: "full_chans ?w = full_chans w" by (auto simp: full_chans_def c')
  have "mset (map ph_respCh all) = mset (pend_chans (w_ctl w))"
    using step_take_all(2) by (simp add: c' pend_chans_def image_mset.compositionality)
  then have "mset (owed ?w) = mset (owed w)"
    by (simp add: owed_def c' pend_chans_def comp_def)
  then have "set (owed ?w) = set (owed w)" "distinct (owed ?w) = distinct (owed w)"
    by (metis mset_eq_setD, metis mset_eq_imp_distinct_iff)
  with inv fc show ?case unfolding bp_inv_def by (auto simp: c')
next
  case (step_send w xs ch r ys c')
  let ?w = "w\<lparr>w_ctl := c', w_sending := xs @ ys\<rparr>"
  note inv = step_send(3)
  from step_send have e: "c_chans (w_ctl w) ch = []" and c': "c' = (w_ctl w)\<lparr>c_chans := (c_chans (w_ctl w))(ch := [r])\<rparr>"
    by (auto simp: chan_send_def split: if_splits)
  have fc: "full_chans ?w = insert ch (full_chans w)" by (auto simp: full_chans_def c')
  have "w_sending w = xs @ (ch, r) # ys" by (rule step_send(1))
  then have ow: "mset (owed w) = add_mset ch (mset (owed ?w))"
    by (simp add: owed_def c' pend_chans_def)
  then have "set (owed w) = insert ch (set (owed ?w))" by (metis set_mset_add_mset_insert set_mset_mset)
  moreover have "distinct (owed w) = distinct (ch # owed ?w)"
    using ow by (metis mset.simps(2) mset_eq_imp_distinct_iff)
  ultimately show ?case using inv fc unfolding bp_inv_def by (auto simp: c')
next
  case (step_recv ch w r c')
  let ?w = "w\<lparr>w_ctl := c', w_waiting := w_waiting w - {ch}, w_done := w_done w @ [(ch, r)]\<rparr>"
  note inv = step_recv(3)
  from step_recv obtain vs where e: "c_chans (w_ctl w) ch = r # vs"
    and c': "c' = (w_ctl w)\<lparr>c_chans := (c_chans (w_ctl w))(ch := vs)\<rparr>"
    by (auto simp: chan_recv_def split: list.splits)
  have "length (c_chans (w_ctl w) ch) \<le> 1" using inv by (auto simp only: bp_inv_def)
  with e have vs: "vs = []" by simp
  have fc: "full_chans ?w = full_chans w - {ch}" "owed ?w = owed w"
    by (auto simp: full_chans_def c' vs owed_def pend_chans_def)
  have "ch \<in> full_chans w" using e by (simp add: full_chans_def)
  then have ch: "ch \<notin> set (owed w)" "ch \<in> w_waiting w" using inv by (auto simp: bp_inv_def)
  have len: "length (c_chans c' x) \<le> 1" for x
    using inv by (auto simp only: bp_inv_def c' vs) simp
  have same: "c_pending c' = c_pending (w_ctl w)" "c_fresh c' = c_fresh (w_ctl w)" by (simp_all add: c')
  from inv have I: "distinct (map fst (c_pending (w_ctl w)))" "distinct (owed w)"
    "set (owed w) \<inter> full_chans w = {}" "w_waiting w = set (owed w) \<union> full_chans w"
    "distinct (map fst (w_done w))" "fst ` set (w_done w) \<inter> w_waiting w = {}"
    "\<forall>ch \<in> w_waiting w \<union> fst ` set (w_done w). ch < c_fresh (w_ctl w)"
    unfolding bp_inv_def by fast+
  have "w_waiting ?w = set (owed ?w) \<union> full_chans ?w"
    unfolding fc using I(4) ch by auto
  moreover have "distinct (map fst (w_done ?w))" using I(5,6) ch(2) by auto
  moreover have "fst ` set (w_done ?w) \<inter> w_waiting ?w = {}" using I(6) by auto
  moreover have "\<forall>x \<in> w_waiting ?w \<union> fst ` set (w_done ?w). x < c_fresh (w_ctl ?w)"
    using I(7) ch(2) same by auto
  moreover have "set (owed ?w) \<inter> full_chans ?w = {}" unfolding fc using I(3) by blast
  ultimately show ?case using I(1,2) len unfolding bp_inv_def by (simp add: fc(2) same(1))
next
  case (step_subscribe w i c')
  let ?w = "w\<lparr>w_ctl := c'\<rparr>"
  note inv = step_subscribe(2)
  from step_subscribe have "full_chans ?w = full_chans w" "owed ?w = owed w" "c_pending c' = c_pending (w_ctl w)"
     "c_chans c' = c_chans (w_ctl w)" "c_fresh c' = c_fresh (w_ctl w)"
    by (auto simp: full_chans_def Subscribe_def owed_def pend_chans_def)
  with inv show ?case unfolding bp_inv_def by auto
next
  case (step_sub_recv i w h c')
  let ?w = "w\<lparr>w_ctl := c'\<rparr>"
  note inv = step_sub_recv(2)
  from step_sub_recv have "full_chans ?w = full_chans w" "owed ?w = owed w" "c_pending c' = c_pending (w_ctl w)"
     "c_chans c' = c_chans (w_ctl w)" "c_fresh c' = c_fresh (w_ctl w)"
    by (auto simp: full_chans_def sub_recv_def owed_def pend_chans_def split: if_splits list.splits)
  with inv show ?case unfolding bp_inv_def by auto
qed

lemma breach_inv: "breach w \<Longrightarrow> bp_inv w"
proof (induction rule: breach.induct)
  case breach_start
  show ?case by (simp add: bp_inv_def start_world_def NewController_def owed_def pend_chans_def full_chans_def)
qed (blast intro: bp_inv_step)

lemma breach_one_pause: "\<exists>w. breach w \<and> w_waiting w = {0} \<and> map fst (c_pending (w_ctl w)) = [''f'']"
proof -
  let ?h = "\<lparr>bh_FlowID = ''f'', bh_Phase = PhaseRequest, bh_Headers = [], bh_Body = [], bh_Meta = zero_meta\<rparr>"
  obtain ch c' where p: "Pause_begin ?h (w_ctl start_world) = (ch, c')" by (metis prod.exhaust)
  have "breach (start_world\<lparr>w_ctl := c', w_waiting := insert ch (w_waiting start_world)\<rparr>)"
    by (rule breach_step [OF breach_start step_pause [OF _ p]]) (simp add: start_world_def NewController_def)
  moreover from p have "ch = 0" "map fst (c_pending c') = [''f'']"
    by (auto simp: Pause_begin_def start_world_def NewController_def Let_def)
  ultimately show ?thesis by (intro exI conjI) (auto simp: start_world_def)
qed

text \<open>C1: In every interleaving of pauses, resumes and skips, a paused goroutine is in exactly
  one of three places (still pending, about to be sent to, or with its answer in its
  channel), no send on a channel ever blocks, and no goroutine is answered twice.\<close>

theorem breakpoint_exactly_once:
  assumes "breach w"
  shows "(\<forall>ch \<in> w_waiting w. count (mset (owed w)) ch + length (c_chans (w_ctl w) ch) = 1) \<and>
    (\<forall>(ch, r) \<in> set (w_sending w). chan_send ch r (w_ctl w) \<noteq> None) \<and>
    distinct (map fst (w_done w)) \<and> fst ` set (w_done w) \<inter> w_waiting w = {}"
proof -
  from breach_inv [OF assms] have inv: "bp_inv w" .
  have one: "count (mset (owed w)) ch + length (c_chans (w_ctl w) ch) = 1" if "ch \<in> w_waiting w" for ch
  proof (cases "ch \<in> set (owed w)")
    case True
    with inv have "count (mset (owed w)) ch = 1" "c_chans (w_ctl w) ch = []"
      by (auto simp: bp_inv_def full_chans_def distinct_count_atmost_1)
    then show ?thesis by simp
  next
    case False
    with that inv have "c_chans (w_ctl w) ch \<noteq> []" by (auto simp: bp_inv_def full_chans_def)
    moreover have "length (c_chans (w_ctl w) ch) \<le> 1" using inv by (auto simp only: bp_inv_def)
    ultimately have "length (c_chans (w_ctl w) ch) = 1" by (cases "c_chans (w_ctl w) ch") auto
    with False show ?thesis by (simp add: not_in_iff)
  qed
  have send: "chan_send ch r (w_ctl w) \<noteq> None" if "(ch, r) \<in> set (w_sending w)" for ch r
  proof -
    have "ch \<in> set (owed w)" using that by (force simp: owed_def)
    with inv have "c_chans (w_ctl w) ch = []" by (auto simp: bp_inv_def full_chans_def)
    then show ?thesis by (simp add: chan_send_def)
  qed
  from inv one send show ?thesis by (auto simp: bp_inv_def)
qed

theorem breakpoint_exactly_once_witness:
  "\<exists>w. breach w \<and> w_waiting w = {0} \<and> count (mset (owed w)) 0 + length (c_chans (w_ctl w) 0) = 1"
  using breach_one_pause breakpoint_exactly_once by fastforce

text \<open>After \<open>ResumeAll\<close> has taken the pending map, every paused goroutine is about to be
  sent to or has its answer: none is left behind.\<close>

theorem resume_all_leaves_none:
  assumes "breach w" and "ResumeAll_take (w_ctl w) = (phs, c')"
  shows "Pending c' = [] \<and>
    (\<forall>ch \<in> w_waiting w. ch \<in> fst ` set (w_sending w) \<or> ch \<in> ph_respCh ` set phs \<or>
       chan_recv ch c' \<noteq> None)"
proof -
  have "bp_inv w" by (rule breach_inv [OF assms(1)])
  then have "w_waiting w = set (owed w) \<union> full_chans w" by (auto simp only: bp_inv_def)
  moreover have c': "phs = map snd (c_pending (w_ctl w))" "c' = (w_ctl w)\<lparr>c_pending := []\<rparr>"
    using assms(2) by (auto simp: ResumeAll_take_def)
  moreover have "chan_recv ch c' \<noteq> None" if "ch \<in> full_chans w" for ch
    using that by (auto simp: full_chans_def c' chan_recv_def split: list.split)
  ultimately show ?thesis
    by (auto simp: Pending_def owed_def pend_chans_def image_image simp del: not_None_eq)
qed

theorem resume_all_leaves_none_witness:
  "\<exists>w phs c'. breach w \<and> w_waiting w = {0} \<and> ResumeAll_take (w_ctl w) = (phs, c') \<and> Pending c' = []"
proof -
  obtain w where w: "breach w" "w_waiting w = {0}" using breach_one_pause by blast
  obtain phs c' where r: "ResumeAll_take (w_ctl w) = (phs, c')" by (metis prod.exhaust)
  from resume_all_leaves_none [OF w(1) r] w r show ?thesis by blast
qed

text \<open>What a pause receives is the answer given to \<open>Resume\<close> of its flow: on an idle
  controller a pause, a resume and the receive give back the answer and the pending map from
  before, and a second resume of that flow changes nothing.\<close>

theorem pause_resume_roundtrip:
  assumes "map_of (c_pending c) (bh_FlowID hit) = None" and "Pause_begin hit c = (ch, c1)"
  shows "\<exists>c2 c3. Resume (bh_FlowID hit) resp c1 = Some c2 \<and> chan_recv ch c2 = Some (resp, c3) \<and>
    c_pending c3 = c_pending c \<and> Resume (bh_FlowID hit) other c3 = Some c3 \<and>
    map_of (c_pending c1) (bh_FlowID hit) = Some \<lparr>ph_hit = hit, ph_respCh = ch\<rparr>"
proof -
  let ?f = "bh_FlowID hit" and ?ph = "\<lparr>ph_hit = hit, ph_respCh = ch\<rparr>"
  have "?f \<notin> fst ` set (c_pending c)" using assms(1) by (simp add: map_of_eq_None_iff)
  then have del: "AList.delete ?f (c_pending c @ [(?f, ?ph)]) = c_pending c"
    by (simp add: AList.delete_eq delete_keep)
  have c1: "c_pending c1 = c_pending c @ [(?f, ?ph)]" "c_chans c1 ch = []"
    using assms by (auto simp: Pause_begin_def Let_def update_new)
  then have m: "map_of (c_pending c1) ?f = Some ?ph" using assms(1) by (simp add: map_add_def)
  let ?c2 = "c1\<lparr>c_pending := c_pending c, c_chans := (c_chans c1)(ch := [resp])\<rparr>"
  let ?c3 = "?c2\<lparr>c_chans := (c_chans ?c2)(ch := [])\<rparr>"
  have "Resume ?f resp c1 = Some ?c2"
    using del unfolding Resume_def Resume_take_def m by (simp add: c1 chan_send_def)
  moreover have "chan_recv ch ?c2 = Some (resp, ?c3)" by (simp add: chan_recv_def)
  moreover have "Resume ?f other ?c3 = Some ?c3" using assms(1) by (simp add: Resume_def Resume_take_def)
  ultimately show ?thesis using m by (intro exI [of _ ?c2] exI [of _ ?c3]) simp
qed

theorem pause_resume_roundtrip_witness:
  "\<exists>ch c1 c2 c3. Pause_begin \<lparr>bh_FlowID = ''f'', bh_Phase = PhaseRequest, bh_Headers = [],
      bh_Body = [], bh_Meta = zero_meta\<rparr> NewController = (ch, c1) \<and>
    Resume ''f'' skip_resume c1 = Some c2 \<and> chan_recv ch c2 = Some (skip_resume, c3)"
proof -
  let ?h = "\<lparr>bh_FlowID = ''f'', bh_Phase = PhaseRequest, bh_Headers = [], bh_Body = [], bh_Meta = zero_meta\<rparr>"
  obtain ch c1 where p: "Pause_begin ?h NewController = (ch, c1)" by (metis prod.exhaust)
  have "map_of (c_pending NewController) (bh_FlowID ?h) = None" by (simp add: NewController_def)
  from pause_resume_roundtrip [OF this p, of skip_resume skip_resume] p show ?thesis by auto
qed

end
