(* ===== verification/Breakpoint_Spec.thy ===== *)
theory Breakpoint_Spec
  imports Breakpoint
begin

section \<open>What the breakpoint controller promises\<close>

text \<open>
  The abstract view of the controller of internal/breakpoint: each paused goroutine, named by its
  channel, has a fate.  It is open for its flow, then decided, then delivered; a decision is made
  once and is what is delivered.  The steps of \<open>bstep\<close>, with their map of pending flows, their sends
  outside the lock and their channels, refine it: a send is invisible.
\<close>

datatype fate = Unknown | Open FlowID | Decided BreakpointResume | Delivered BreakpointResume

inductive tstep :: "(nat \<Rightarrow> fate) \<Rightarrow> (nat \<Rightarrow> fate) \<Rightarrow> bool" where
  t_open: "s ch = Unknown \<Longrightarrow> \<forall>c. s c \<noteq> Open fid \<Longrightarrow> tstep s (s(ch := Open fid))"
| t_decide: "s ch = Open fid \<Longrightarrow> tstep s (s(ch := Decided r))"
| t_skip_all: "tstep s (\<lambda>ch. case s ch of Open fid \<Rightarrow> Decided skip_resume | f \<Rightarrow> f)"
| t_deliver: "s ch = Decided r \<Longrightarrow> tstep s (s(ch := Delivered r))"

subsection \<open>The fate of a channel\<close>

definition open_map :: "bworld \<Rightarrow> nat \<Rightarrow> FlowID option" where
  "open_map w = map_of (map (\<lambda>(fid, ph). (ph_respCh ph, fid)) (c_pending (w_ctl w)))"

definition decided_map :: "bworld \<Rightarrow> nat \<Rightarrow> BreakpointResume option" where
  "decided_map w ch = (case map_of (w_sending w) ch of Some r \<Rightarrow> Some r
     | None \<Rightarrow> (case c_chans (w_ctl w) ch of [] \<Rightarrow> None | r # _ \<Rightarrow> Some r))"

definition done_map :: "bworld \<Rightarrow> nat \<Rightarrow> BreakpointResume option" where
  "done_map w = map_of (w_done w)"

definition fate_of :: "bworld \<Rightarrow> nat \<Rightarrow> fate" where
  "fate_of w ch = (case open_map w ch of Some fid \<Rightarrow> Open fid
     | None \<Rightarrow> (case decided_map w ch of Some r \<Rightarrow> Decided r
     | None \<Rightarrow> (case done_map w ch of Some r \<Rightarrow> Delivered r | None \<Rightarrow> Unknown)))"

lemma dom_open: "dom (open_map w) = set (pend_chans (w_ctl w))"
  by (force simp: open_map_def dom_map_of_conv_image_fst pend_chans_def)

lemma dom_decided: "dom (decided_map w) = fst ` set (w_sending w) \<union> full_chans w"
  by (auto simp: decided_map_def full_chans_def domIff map_of_eq_None_iff split: option.splits list.splits)
    (auto dest: map_of_SomeD simp: rev_image_eqI)

lemma dom_done: "dom (done_map w) = fst ` set (w_done w)"
  by (simp add: done_map_def dom_map_of_conv_image_fst)

lemma bp_invD:
  assumes "bp_inv w"
  shows "distinct (map fst (c_pending (w_ctl w)))" "distinct (pend_chans (w_ctl w))" "distinct (map fst (w_sending w))"
    "dom (open_map w) \<inter> dom (decided_map w) = {}" "dom (open_map w) \<inter> dom (done_map w) = {}"
    "dom (decided_map w) \<inter> dom (done_map w) = {}" "fst ` set (w_sending w) \<inter> full_chans w = {}"
    "\<And>ch. length (c_chans (w_ctl w) ch) \<le> 1"
    "\<And>ch. ch \<in> dom (open_map w) \<union> dom (decided_map w) \<union> dom (done_map w) \<Longrightarrow> ch < c_fresh (w_ctl w)"
proof -
  from assms have i: "distinct (map fst (c_pending (w_ctl w)))" "distinct (owed w)" "\<forall>ch. length (c_chans (w_ctl w) ch) \<le> 1"
    "set (owed w) \<inter> full_chans w = {}" "w_waiting w = set (owed w) \<union> full_chans w" "fst ` set (w_done w) \<inter> w_waiting w = {}"
    "\<forall>ch \<in> w_waiting w \<union> fst ` set (w_done w). ch < c_fresh (w_ctl w)" unfolding bp_inv_def by fast+
  have o: "set (owed w) = set (pend_chans (w_ctl w)) \<union> fst ` set (w_sending w)" by (simp add: owed_def)
  show "distinct (map fst (c_pending (w_ctl w)))" "\<And>ch. length (c_chans (w_ctl w) ch) \<le> 1" using i(1,3) by auto
  show "distinct (pend_chans (w_ctl w))" "distinct (map fst (w_sending w))" using i(2) by (auto simp: owed_def)
  show "fst ` set (w_sending w) \<inter> full_chans w = {}" using i(4) o by blast
  have "set (pend_chans (w_ctl w)) \<inter> fst ` set (w_sending w) = {}" using i(2) by (simp add: owed_def)
  then show "dom (open_map w) \<inter> dom (decided_map w) = {}" using i(4) o unfolding dom_open dom_decided by blast
  show "dom (open_map w) \<inter> dom (done_map w) = {}" "dom (decided_map w) \<inter> dom (done_map w) = {}"
    using i(5,6) o unfolding dom_open dom_decided dom_done by blast+
  show "ch < c_fresh (w_ctl w)" if "ch \<in> dom (open_map w) \<union> dom (decided_map w) \<union> dom (done_map w)" for ch
    using i(5,7) o that unfolding dom_open dom_decided dom_done by blast
qed

text \<open>Two worlds whose maps differ at one channel.\<close>

lemma fate_of_upd:
  assumes "open_map w' = (open_map w)(ch := a)" "decided_map w' = (decided_map w)(ch := b)" "done_map w' = (done_map w)(ch := c)"
  shows "fate_of w' = (fate_of w)(ch := case a of Some fid \<Rightarrow> Open fid
     | None \<Rightarrow> (case b of Some r \<Rightarrow> Decided r | None \<Rightarrow> (case c of Some r \<Rightarrow> Delivered r | None \<Rightarrow> Unknown)))"
  by (rule ext) (simp add: fate_of_def assms cong: option.case_cong)

lemma fate_of_cong: "open_map w' = open_map w \<Longrightarrow> decided_map w' = decided_map w \<Longrightarrow> done_map w' = done_map w \<Longrightarrow> fate_of w' = fate_of w"
  by (rule ext) (simp add: fate_of_def cong: option.case_cong)

lemma fate_of_ctl: "c_pending c' = c_pending (w_ctl w) \<Longrightarrow> c_chans c' = c_chans (w_ctl w) \<Longrightarrow> fate_of (w\<lparr>w_ctl := c'\<rparr>) = fate_of w"
  by (simp add: fate_of_def open_map_def decided_map_def done_map_def fun_eq_iff cong: option.case_cong)

lemma fate_of_Open: "fate_of w ch = Open fid \<longleftrightarrow> open_map w ch = Some fid"
  by (simp add: fate_of_def split: option.split)

lemma fate_of_Decided: "bp_inv w \<Longrightarrow> fate_of w ch = Decided r \<longleftrightarrow> decided_map w ch = Some r"
  using bp_invD(4) [of w] by (auto simp: fate_of_def domIff split: option.split)

lemma open_pending: "bp_inv w \<Longrightarrow> open_map w ch = Some fid \<longleftrightarrow> (\<exists>ph. map_of (c_pending (w_ctl w)) fid = Some ph \<and> ph_respCh ph = ch)"
  using bp_invD(1,2) [of w]
  by (force simp: open_map_def pend_chans_def map_of_eq_Some_iff comp_def case_prod_beta image_iff)

subsection \<open>The steps\<close>

lemma sim_pause:
  assumes "bp_inv w" and "map_of (c_pending (w_ctl w)) (bh_FlowID hit) = None" and "Pause_begin hit (w_ctl w) = (ch, c')"
  shows "tstep (fate_of w) (fate_of (w\<lparr>w_ctl := c', w_waiting := v\<rparr>))"
proof -
  let ?w = "w\<lparr>w_ctl := c', w_waiting := v\<rparr>"
  from assms(2,3) have ch: "ch = c_fresh (w_ctl w)" "c_chans c' = (c_chans (w_ctl w))(ch := [])"
    "c_pending c' = c_pending (w_ctl w) @ [(bh_FlowID hit, \<lparr>ph_hit = hit, ph_respCh = ch\<rparr>)]"
    by (auto simp: Pause_begin_def Let_def update_new)
  have new: "open_map w ch = None" "decided_map w ch = None" "done_map w ch = None"
    using bp_invD(9) [OF assms(1), of ch] ch(1) by (auto simp flip: not_None_eq)
  have "open_map ?w = (open_map w)(ch := Some (bh_FlowID hit))"
    using new(1) by (auto simp: open_map_def ch(3) map_add_def split: option.splits)
  moreover have "decided_map ?w = (decided_map w)(ch := None)"
    using new(2) by (auto simp: decided_map_def ch(2) split: option.splits)
  moreover have "done_map ?w = (done_map w)(ch := None)" using new(3) by (auto simp: done_map_def)
  ultimately have "fate_of ?w = (fate_of w)(ch := Open (bh_FlowID hit))"
    using fate_of_upd [of ?w w ch "Some (bh_FlowID hit)" None None] by simp
  moreover have "fate_of w ch = Unknown" using new by (simp add: fate_of_def)
  moreover have "\<forall>c. fate_of w c \<noteq> Open (bh_FlowID hit)" using assms(2) by (simp add: fate_of_Open open_pending [OF assms(1)])
  ultimately show ?thesis by (simp add: t_open)
qed

lemma sim_take:
  assumes "bp_inv w" and "Resume_take fid (w_ctl w) = (Some ph, c')"
  shows "tstep (fate_of w) (fate_of (w\<lparr>w_ctl := c', w_sending := w_sending w @ [(ph_respCh ph, r)]\<rparr>))"
proof -
  let ?w = "w\<lparr>w_ctl := c', w_sending := w_sending w @ [(ph_respCh ph, r)]\<rparr>" and ?ch = "ph_respCh ph"
  from assms(2) have m: "map_of (c_pending (w_ctl w)) fid = Some ph"
    and c': "c' = (w_ctl w)\<lparr>c_pending := AList.delete fid (c_pending (w_ctl w))\<rparr>"
    by (auto simp: Resume_take_def split: option.splits)
  have o: "open_map w ?ch = Some fid" using m by (auto simp: open_pending [OF assms(1)])
  then have none: "decided_map w ?ch = None" "done_map w ?ch = None"
    using bp_invD(4,5) [OF assms(1)] by (auto simp: domIff)
  from delete_split [OF bp_invD(1) [OF assms(1)] m] obtain as bs where
    s: "c_pending (w_ctl w) = as @ (fid, ph) # bs" "AList.delete fid (c_pending (w_ctl w)) = as @ bs" .
  have p: "c_pending c' = as @ bs" "c_chans c' = c_chans (w_ctl w)" using s(2) by (simp_all add: c')
  have "?ch \<notin> (\<lambda>x. ph_respCh (snd x)) ` (set as \<union> set bs)"
    using bp_invD(2) [OF assms(1)] by (auto simp: pend_chans_def s(1))
  then have "map_of (map (\<lambda>(fid, ph). (ph_respCh ph, fid)) as) ?ch = None" "map_of (map (\<lambda>(fid, ph). (ph_respCh ph, fid)) bs) ?ch = None"
    by (auto simp: map_of_eq_None_iff image_image case_prod_beta)
  then have "open_map ?w = (open_map w)(?ch := None)"
    by (intro ext) (simp add: open_map_def p s(1) map_add_def split: option.split)
  moreover have "decided_map ?w = (decided_map w)(?ch := Some r)"
    using none(1) by (auto simp: decided_map_def p map_add_def split: option.splits)
  moreover have "done_map ?w = (done_map w)(?ch := None)" using none(2) by (auto simp: done_map_def)
  ultimately have "fate_of ?w = (fate_of w)(?ch := Decided r)"
    using fate_of_upd [of ?w w ?ch None "Some r" None] by simp
  then show ?thesis using o by (simp add: t_decide fate_of_Open)
qed

lemma fate_take_all:
  assumes "bp_inv w" and "ResumeAll_take (w_ctl w) = (phs, c')" and "mset all = mset phs"
  shows "fate_of (w\<lparr>w_ctl := c', w_sending := w_sending w @ map (\<lambda>ph. (ph_respCh ph, skip_resume)) all\<rparr>) =
    (\<lambda>ch. case fate_of w ch of Open fid \<Rightarrow> Decided skip_resume | f \<Rightarrow> f)"
proof -
  let ?w = "w\<lparr>w_ctl := c', w_sending := w_sending w @ map (\<lambda>ph. (ph_respCh ph, skip_resume)) all\<rparr>"
  from assms(2) have c': "phs = map snd (c_pending (w_ctl w))" "c' = (w_ctl w)\<lparr>c_pending := []\<rparr>"
    by (auto simp: ResumeAll_take_def)
  have "set all = snd ` set (c_pending (w_ctl w))" using mset_eq_setD [OF assms(3)] by (simp add: c')
  then have a: "ph_respCh ` set all = dom (open_map w)" by (simp add: dom_open pend_chans_def image_comp)
  have all: "map_of (map (\<lambda>ph. (ph_respCh ph, skip_resume)) l) ch = (if ch \<in> ph_respCh ` set l then Some skip_resume else None)" for l ch
    by (induction l) auto
  have m: "map_of (map (\<lambda>ph. (ph_respCh ph, skip_resume)) all) ch = (if ch \<in> dom (open_map w) then Some skip_resume else None)" for ch
    unfolding all a ..
  have "decided_map ?w ch = (if ch \<in> dom (open_map w) then Some skip_resume else decided_map w ch)" for ch
    using bp_invD(4) [OF assms(1)] by (auto simp: decided_map_def c' map_add_def m split: option.splits)
  moreover have "open_map ?w = Map.empty" "done_map ?w = done_map w" by (simp_all add: open_map_def done_map_def c')
  ultimately have "fate_of ?w ch = (case fate_of w ch of Open fid \<Rightarrow> Decided skip_resume | f \<Rightarrow> f)" for ch
    by (simp add: fate_of_def domIff split: option.split)
  then show ?thesis by blast
qed

lemma sim_send:
  assumes "bp_inv w" and "w_sending w = xs @ (ch, r) # ys" and "chan_send ch r (w_ctl w) = Some c'"
  shows "fate_of (w\<lparr>w_ctl := c', w_sending := xs @ ys\<rparr>) = fate_of w"
proof (rule fate_of_cong)
  let ?w = "w\<lparr>w_ctl := c', w_sending := xs @ ys\<rparr>"
  from assms(3) have e: "c_chans (w_ctl w) ch = []" and c': "c' = (w_ctl w)\<lparr>c_chans := (c_chans (w_ctl w))(ch := [r])\<rparr>"
    by (auto simp: chan_send_def split: if_splits)
  have "ch \<notin> fst ` (set xs \<union> set ys)" using bp_invD(3) [OF assms(1)] by (auto simp: assms(2))
  then have "map_of xs ch = None" "map_of ys ch = None" by (auto simp: map_of_eq_None_iff)
  then show "decided_map ?w = decided_map w"
    by (intro ext) (simp add: decided_map_def c' assms(2) map_add_def split: option.split)
qed (simp_all add: open_map_def done_map_def chan_send_def, use assms(3) in \<open>auto simp: chan_send_def split: if_splits\<close>)

lemma fate_recv:
  assumes "bp_inv w" and "chan_recv ch (w_ctl w) = Some (r, c')"
  shows "fate_of w ch = Decided r"
    and "fate_of (w\<lparr>w_ctl := c', w_waiting := v, w_done := w_done w @ [(ch, r)]\<rparr>) = (fate_of w)(ch := Delivered r)"
proof -
  let ?w = "w\<lparr>w_ctl := c', w_waiting := v, w_done := w_done w @ [(ch, r)]\<rparr>"
  from assms(2) obtain vs where e: "c_chans (w_ctl w) ch = r # vs"
    and c': "c' = (w_ctl w)\<lparr>c_chans := (c_chans (w_ctl w))(ch := vs)\<rparr>"
    by (auto simp: chan_recv_def split: list.splits)
  have vs: "vs = []" using bp_invD(8) [OF assms(1), of ch] e by simp
  have "ch \<in> full_chans w" using e by (simp add: full_chans_def)
  then have n: "map_of (w_sending w) ch = None" using bp_invD(7) [OF assms(1)] by (auto simp: map_of_eq_None_iff)
  then have d: "decided_map w ch = Some r" by (simp add: decided_map_def e)
  then have none: "open_map w ch = None" "done_map w ch = None"
    using bp_invD(4,6) [OF assms(1)] by (auto simp: domIff)
  have "open_map ?w = (open_map w)(ch := None)" using none(1) by (auto simp: open_map_def c')
  moreover have "decided_map ?w = (decided_map w)(ch := None)"
    using n by (intro ext) (simp add: decided_map_def c' vs split: option.split)
  moreover have "done_map ?w = (done_map w)(ch := Some r)"
    using none(2) by (intro ext) (simp add: done_map_def map_add_def split: option.split)
  ultimately show "fate_of ?w = (fate_of w)(ch := Delivered r)"
    using fate_of_upd [of ?w w ch None None "Some r"] by simp
  show "fate_of w ch = Decided r" using d by (simp add: fate_of_Decided [OF assms(1)])
qed

text \<open>C2: The controller refines the table of fates: every step of its goroutines, from a reachable world, is a
  step of the table or leaves it as it is.\<close>

theorem controller_refines_fates:
  assumes "breach w" and "bstep w w'"
  shows "fate_of w' = fate_of w \<or> tstep (fate_of w) (fate_of w')"
proof -
  have inv: "bp_inv w" by (rule breach_inv [OF assms(1)])
  from assms(2) show ?thesis
  proof cases
    case (step_subscribe i c')
    then show ?thesis by (auto simp: Subscribe_def intro: fate_of_ctl)
  next
    case (step_sub_recv i h c')
    then show ?thesis by (auto simp: sub_recv_def intro: fate_of_ctl split: if_splits list.splits)
  next
    case (step_pause hit ch c')
    then show ?thesis using sim_pause [OF inv step_pause(2,3)] by simp
  next
    case (step_take fid ph c' r)
    then show ?thesis using sim_take [OF inv step_take(2)] by simp
  next
    case (step_take_all phs c' all)
    then show ?thesis using fate_take_all [OF inv step_take_all(2,3)] by (simp add: t_skip_all)
  next
    case (step_send xs ch r ys c')
    then show ?thesis using sim_send [OF inv step_send(2,3)] by simp
  next
    case (step_recv ch r c')
    then show ?thesis using fate_recv [OF inv step_recv(3)] by (simp add: t_deliver)
  qed
qed

lemma one_pause_step:
  "\<exists>w. bstep start_world w \<and> fate_of start_world 0 = Unknown \<and> fate_of w 0 = Open ''f''"
proof -
  let ?h = "\<lparr>bh_FlowID = ''f'', bh_Phase = PhaseRequest, bh_Headers = [], bh_Body = [], bh_Meta = zero_meta\<rparr>"
  obtain c' where p: "Pause_begin ?h (w_ctl start_world) = (0, c')" and c: "c_pending c' = [(''f'', \<lparr>ph_hit = ?h, ph_respCh = 0\<rparr>)]"
    by (simp add: Pause_begin_def start_world_def NewController_def)
  have "map_of (c_pending (w_ctl start_world)) (bh_FlowID ?h) = None" by (simp add: start_world_def NewController_def)
  note s = step_pause [OF this p]
  have "fate_of start_world 0 = Unknown"
    by (simp add: fate_of_def open_map_def decided_map_def done_map_def start_world_def NewController_def)
  moreover have "fate_of (start_world\<lparr>w_ctl := c', w_waiting := v\<rparr>) 0 = Open ''f''" for v
    by (simp add: fate_of_Open open_map_def c)
  ultimately show ?thesis using s by blast
qed

theorem controller_refines_fates_witness:
  "\<exists>w. bstep start_world w \<and> tstep (fate_of start_world) (fate_of w)"
proof -
  obtain w where w: "bstep start_world w" "fate_of start_world 0 = Unknown" "fate_of w 0 = Open ''f''" using one_pause_step by blast
  from controller_refines_fates [OF breach_start w(1)] w show ?thesis by auto
qed

subsection \<open>Decisions\<close>

inductive_cases tstepE: "tstep s s'"

lemma tstep_Decided: "tstep s s' \<Longrightarrow> s ch = Decided r \<Longrightarrow> s' ch \<in> {Decided r, Delivered r}"
  by (auto elim!: tstepE)

lemma tstep_Delivered: "tstep s s' \<Longrightarrow> s ch = Delivered r \<Longrightarrow> s' ch = Delivered r"
  by (auto elim!: tstepE)

text \<open>C3: A decision, once made for a paused flow, is final in every later interleaving: no other Resume or
  ResumeAll replaces it, and what the goroutine receives is it.\<close>

theorem decision_is_final:
  assumes "bstep\<^sup>*\<^sup>* w w'" and "breach w" and "fate_of w ch = Decided r"
  shows "breach w' \<and> fate_of w' ch \<in> {Decided r, Delivered r} \<and> (\<forall>q. (ch, q) \<in> set (w_done w') \<longrightarrow> q = r)"
proof -
  from assms(1) have c: "breach w' \<and> fate_of w' ch \<in> {Decided r, Delivered r}"
  proof (induction rule: rtranclp_induct)
    case base
    with assms(2,3) show ?case by simp
  next
    case (step u v)
    then have b: "breach v" using breach_step by blast
    from controller_refines_fates [of u v] step have "fate_of v = fate_of u \<or> tstep (fate_of u) (fate_of v)" by blast
    with step(3) b show ?case using tstep_Decided tstep_Delivered by (metis insert_iff singletonD)
  qed
  have "q = r" if q: "(ch, q) \<in> set (w_done w')" for q
  proof -
    have inv: "bp_inv w'" using c breach_inv by blast
    then have "distinct (map fst (w_done w'))" unfolding bp_inv_def by blast
    with q have d: "done_map w' ch = Some q" by (simp add: done_map_def)
    then have "open_map w' ch = None" "decided_map w' ch = None" using bp_invD(5,6) [OF inv] by (auto simp: domIff)
    with d have "fate_of w' ch = Delivered q" by (simp add: fate_of_def)
    with c show ?thesis by simp
  qed
  with c show ?thesis by blast
qed

theorem decision_is_final_witness:
  "\<exists>w w'. breach w \<and> fate_of w 0 = Decided skip_resume \<and> bstep\<^sup>*\<^sup>* w w' \<and> w_done w' = [(0, skip_resume)] \<and> fate_of w' 0 = Delivered skip_resume"
proof -
  let ?h = "\<lparr>bh_FlowID = ''f'', bh_Phase = PhaseRequest, bh_Headers = [], bh_Body = [], bh_Meta = zero_meta\<rparr>"
  let ?ph = "\<lparr>ph_hit = ?h, ph_respCh = 0\<rparr>"
  let ?c1 = "\<lparr>c_pending = [(''f'', ?ph)], c_subscribers = [], c_chans = (\<lambda>_. []), c_fresh = 1\<rparr>"
  let ?w1 = "\<lparr>w_ctl = ?c1, w_sending = [], w_waiting = {0}, w_done = []\<rparr>"
  let ?w2 = "?w1\<lparr>w_ctl := ?c1\<lparr>c_pending := []\<rparr>, w_sending := [(0, skip_resume)]\<rparr>"
  let ?c3 = "?c1\<lparr>c_pending := [], c_chans := (\<lambda>_. [])(0 := [skip_resume])\<rparr>"
  let ?w3 = "?w1\<lparr>w_ctl := ?c3\<rparr>"
  let ?w4 = "?w1\<lparr>w_ctl := ?c3\<lparr>c_chans := (\<lambda>_. [])\<rparr>, w_waiting := {}, w_done := [(0, skip_resume)]\<rparr>"
  have "bstep start_world ?w1" using step_pause [of start_world ?h 0 ?c1]
    by (simp add: start_world_def NewController_def Pause_begin_def fun_upd_idem)
  then have "breach ?w1" by (rule breach_step [OF breach_start])
  moreover have "bstep ?w1 ?w2" using step_take [of "''f''" ?w1 ?ph "?c1\<lparr>c_pending := []\<rparr>" skip_resume]
    by (simp add: Resume_take_def)
  ultimately have b: "breach ?w2" by (rule breach_step)
  have d: "fate_of ?w2 0 = Decided skip_resume" by (simp add: fate_of_def open_map_def decided_map_def cong: option.case_cong)
  have "bstep ?w2 ?w3" using step_send [of ?w2 "[]" 0 skip_resume "[]" ?c3] by (simp add: chan_send_def)
  moreover have "bstep ?w3 ?w4" using step_recv [of 0 ?w3 skip_resume "?c3\<lparr>c_chans := (\<lambda>_. [])\<rparr>"]
    by (simp add: chan_recv_def fun_eq_iff)
  ultimately have s: "bstep\<^sup>*\<^sup>* ?w2 ?w4" by (meson converse_rtranclp_into_rtranclp r_into_rtranclp)
  have "fate_of ?w4 0 \<noteq> Decided skip_resume"
    using decision_is_final [OF s b d] by (simp add: fate_of_def open_map_def decided_map_def done_map_def cong: option.case_cong)
  with decision_is_final [OF s b d] have "fate_of ?w4 0 = Delivered skip_resume" by simp
  with b d s show ?thesis by (intro exI [of _ ?w2] exI [of _ ?w4]) simp
qed

subsection \<open>Nobody waits for ever\<close>

lemma full_delivers:
  assumes "bp_inv w" and "c_chans (w_ctl w) ch = r # vs"
  shows "\<exists>w'. bstep w w' \<and> fate_of w' ch = Delivered r"
proof -
  obtain c' where c: "chan_recv ch (w_ctl w) = Some (r, c')" using assms(2) by (simp add: chan_recv_def)
  have "ch \<in> full_chans w" using assms(2) by (simp add: full_chans_def)
  then have "ch \<in> w_waiting w" using assms(1) unfolding bp_inv_def by blast
  from step_recv [OF this c] fate_recv(2) [OF assms(1) c] show ?thesis by (metis fun_upd_same)
qed

lemma decided_delivers:
  assumes "bp_inv w" and "fate_of w ch = Decided r"
  shows "\<exists>w1 w2. (w1 = w \<or> bstep w w1) \<and> bstep w1 w2 \<and> fate_of w2 ch = Delivered r"
proof (cases "map_of (w_sending w) ch")
  case None
  with assms obtain vs where "c_chans (w_ctl w) ch = r # vs"
    by (auto simp: fate_of_Decided decided_map_def split: list.splits)
  with full_delivers [OF assms(1) this] show ?thesis by blast
next
  case (Some q)
  with assms have q: "q = r" by (simp add: fate_of_Decided decided_map_def)
  from Some obtain xs ys where s: "w_sending w = xs @ (ch, r) # ys" by (metis q map_of_SomeD split_list)
  then have "c_chans (w_ctl w) ch = []" using bp_invD(7) [OF assms(1)] by (auto simp: full_chans_def)
  then obtain c' where c: "chan_send ch r (w_ctl w) = Some c'" and full: "c_chans c' ch = [r]" by (simp add: chan_send_def)
  let ?w = "w\<lparr>w_ctl := c', w_sending := xs @ ys\<rparr>"
  have st: "bstep w ?w" by (rule step_send [OF s c])
  from full_delivers [of ?w ch r "[]"] bp_inv_step [OF st assms(1)] full st show ?thesis by auto
qed



end
