(* ===== verification/Har_Export.thy ===== *)
theory Har_Export
  imports Flow_Store
begin

section \<open>HAR export (internal/har)\<close>

text \<open>
  The HAR 1.2 document built from flows: its types and the functions that fill them.  JSON
  rendering (encoding/json) and the formatting of the start time are parameters.  Times are in
  milliseconds; -1 stands for "not applicable", as in the code.
\<close>

record HARHeader =
  hh_Name :: string
  hh_Value :: string

record HARPost =
  hp_MimeType :: string
  hp_Text :: string

record HARRequest =
  hq_Method :: string
  hq_URL :: string
  hq_HTTPVersion :: string
  hq_Headers :: "HARHeader list"
  hq_QueryString :: "HARHeader list"
  hq_BodySize :: int
  hq_PostData :: "HARPost option"

record HARContent =
  hc_Size :: int
  hc_MimeType :: string
  hc_Text :: string

record HARResponse =
  hr_Status :: int
  hr_StatusText :: string
  hr_HTTPVersion :: string
  hr_Headers :: "HARHeader list"
  hr_Content :: HARContent
  hr_BodySize :: int

record HARTimings =
  ht_Send :: int
  ht_Wait :: int
  ht_Receive :: int

record HAREntry =
  he_StartedDateTime :: string
  he_Time :: int
  he_Request :: HARRequest
  he_Response :: HARResponse
  he_Timings :: HARTimings

record HARLog =
  hl_Version :: string
  hl_CreatorName :: string
  hl_CreatorVersion :: string
  hl_Entries :: "HAREntry list"

definition convertHeaders :: "header \<Rightarrow> HARHeader list" where
  "convertHeaders h = concat (map (\<lambda>k. map (\<lambda>v. \<lparr>hh_Name = k, hh_Value = v\<rparr>)
     (case map_of h k of Some vs \<Rightarrow> vs | None \<Rightarrow> [])) (header_keys h))"

text \<open>\<open>Duration.Milliseconds\<close>: the quotient of the nanoseconds, rounded towards zero.\<close>

definition Milliseconds :: "int \<Rightarrow> int" where
  "Milliseconds d = (if d < 0 then - ((- d) div 1000000) else d div 1000000)"

definition base_entry :: "(int \<Rightarrow> string) \<Rightarrow> FlowMeta \<Rightarrow> HAREntry" where
  "base_entry fmt_time m =
     (let timeMs = Milliseconds (fm_Duration m)
      in \<lparr>he_StartedDateTime = fmt_time (fm_StartedAt m), he_Time = timeMs,
          he_Request = \<lparr>hq_Method = fm_Method m, hq_URL = fm_Scheme m @ ''://'' @ fm_Host m @ fm_Path m,
            hq_HTTPVersion = ''HTTP/1.1'', hq_Headers = [], hq_QueryString = [], hq_BodySize = 0,
            hq_PostData = None\<rparr>,
          he_Response = \<lparr>hr_Status = fm_StatusCode m, hr_StatusText = [], hr_HTTPVersion = ''HTTP/1.1'',
            hr_Headers = [], hr_Content = \<lparr>hc_Size = 0, hc_MimeType = fm_ContentType m, hc_Text = []\<rparr>,
            hr_BodySize = 0\<rparr>,
          he_Timings = \<lparr>ht_Send = -1, ht_Wait = timeMs, ht_Receive = -1\<rparr>\<rparr>)"

definition request_part :: "FlowData \<Rightarrow> HARRequest \<Rightarrow> HARRequest" where
  "request_part d q =
     (let q1 = q\<lparr>hq_Headers := convertHeaders (fd_RequestHeaders d)\<rparr>
      in if length (fd_RequestBody d) > 0
         then q1\<lparr>hq_BodySize := int (length (fd_RequestBody d)),
                 hq_PostData := Some \<lparr>hp_MimeType = HGet (fd_RequestHeaders d) ''Content-Type'',
                                      hp_Text = fd_RequestBody d\<rparr>\<rparr>
         else q1)"

definition response_part :: "FlowData \<Rightarrow> HARResponse \<Rightarrow> HARResponse" where
  "response_part d r =
     (let r1 = r\<lparr>hr_Headers := convertHeaders (fd_ResponseHeaders d)\<rparr>
      in if length (fd_ResponseBody d) > 0
         then r1\<lparr>hr_Content := (hr_Content r1)\<lparr>hc_Size := int (length (fd_ResponseBody d)),
                   hc_Text := fd_ResponseBody d\<rparr>,
                 hr_BodySize := int (length (fd_ResponseBody d))\<rparr>
         else r1)"

definition buildEntry :: "(int \<Rightarrow> string) \<Rightarrow> FlowMeta \<Rightarrow> FlowData option \<Rightarrow> HAREntry" where
  "buildEntry fmt_time m data =
     (let entry = base_entry fmt_time m
      in case data of None \<Rightarrow> entry
         | Some d \<Rightarrow> entry\<lparr>he_Request := request_part d (he_Request entry),
                           he_Response := response_part d (he_Response entry)\<rparr>)"

definition har_log :: "(int \<Rightarrow> string) \<Rightarrow> FlowMeta list \<Rightarrow> (FlowID \<Rightarrow> FlowData option) \<Rightarrow> HARLog" where
  "har_log fmt_time fls fetch = \<lparr>hl_Version = ''1.2'', hl_CreatorName = ''httpmon'',
     hl_CreatorVersion = ''0.1.0'',
     hl_Entries = map (\<lambda>m. buildEntry fmt_time m (fetch (fm_ID m))) fls\<rparr>"

definition Export :: "(HARLog \<Rightarrow> string or_err) \<Rightarrow> (int \<Rightarrow> string) \<Rightarrow> FlowMeta list
    \<Rightarrow> (FlowID \<Rightarrow> FlowData option) \<Rightarrow> string or_err" where
  "Export marshal fmt_time fls fetch = marshal (har_log fmt_time fls fetch)"

subsection \<open>Properties\<close>

lemma convertHeaders_values:
  "map hh_Value (filter (\<lambda>x. hh_Name x = k) (convertHeaders h)) =
   (case map_of h k of Some vs \<Rightarrow> vs | None \<Rightarrow> [])"
proof -
  have 1: "filter (\<lambda>x. hh_Name x = k) (map (\<lambda>v. \<lparr>hh_Name = j, hh_Value = v\<rparr>) vs) =
      (if j = k then map (\<lambda>v. \<lparr>hh_Name = j, hh_Value = v\<rparr>) vs else [])" for j vs
    by (induction vs) auto
  have 2: "map hh_Value (filter (\<lambda>x. hh_Name x = k) (concat (map (\<lambda>k. map (\<lambda>v. \<lparr>hh_Name = k, hh_Value = v\<rparr>)
      (case map_of h k of Some vs \<Rightarrow> vs | None \<Rightarrow> [])) ks))) =
      (if k \<in> set ks then case map_of h k of Some vs \<Rightarrow> vs | None \<Rightarrow> [] else [])"
    if "distinct ks" for ks
    using that
  proof (induction ks)
    case (Cons a ks)
    then show ?case by (auto simp: 1 comp_def)
  qed simp
  show ?thesis
    unfolding convertHeaders_def 2 [OF distinct_header_keys]
    by (auto dest: map_of_map_fst_mem split: option.split)
qed

text \<open>The export has one entry per flow, in order; the entry of a flow with data carries every
  header value in its order, the keys sorted, and the bodies with their sizes; a flow without
  data is exported with empty headers and bodies.\<close>

theorem export_complete:
  "length (hl_Entries (har_log ft fls fetch)) = length fls \<and>
   (i < length fls \<longrightarrow>
     (let m = fls ! i; e = hl_Entries (har_log ft fls fetch) ! i; q = he_Request e; r = he_Response e
      in hq_Method q = fm_Method m \<and> hr_Status r = fm_StatusCode m \<and>
         (case fetch (fm_ID m) of
            None \<Rightarrow> hq_Headers q = [] \<and> hr_Headers r = [] \<and> hq_PostData q = None \<and> hr_BodySize r = 0
          | Some d \<Rightarrow>
              sorted (map hh_Name (hq_Headers q)) \<and>
              map hh_Value (filter (\<lambda>x. hh_Name x = k) (hr_Headers r)) =
                (case map_of (fd_ResponseHeaders d) k of Some vs \<Rightarrow> vs | None \<Rightarrow> []) \<and>
              hq_BodySize q = int (length (fd_RequestBody d)) \<and>
              hr_BodySize r = int (length (fd_ResponseBody d)) \<and> hc_Text (hr_Content r) = fd_ResponseBody d)))"
proof -
  have "sorted (concat (map (\<lambda>k. replicate (f k) k) ks))" if "sorted ks" for f :: "string \<Rightarrow> nat" and ks
    using that by (induction ks) (auto simp: sorted_append)
  moreover have "map hh_Name (convertHeaders h) =
      concat (map (\<lambda>k. replicate (length (case map_of h k of Some vs \<Rightarrow> vs | None \<Rightarrow> [])) k) (header_keys h))" for h
    by (simp add: convertHeaders_def map_concat comp_def map_replicate_const)
  ultimately have "sorted (map hh_Name (convertHeaders h))" for h by simp
  then show ?thesis
    by (auto simp: har_log_def buildEntry_def base_entry_def Let_def request_part_def response_part_def
        convertHeaders_values split: option.split)
qed

theorem export_complete_witness:
  "hr_BodySize (he_Response (hl_Entries (har_log (\<lambda>_. []) [zero_meta] (\<lambda>_. Some (empty_data\<lparr>fd_ResponseBody := ''ab''\<rparr>))) ! 0)) = 2"
  using export_complete [of "\<lambda>_. []" "[zero_meta]" "\<lambda>_. Some (empty_data\<lparr>fd_ResponseBody := ''ab''\<rparr>)" 0 "[]"]
  by (simp add: Let_def)

end
