(* ===== verification/Script_Glob.thy ===== *)
theory Script_Glob
  imports Go_Text
begin

section \<open>URL patterns of scripts (internal/scripting/glob.go, matchURL)\<close>

text \<open>
  The matcher that decides which scripts run for a URL: \<open>GlobMatch\<close> for the match list of a
  script header and \<open>matchURL\<close> for the pattern of \<open>LoadScript\<close>.  Both search greedily for the
  literal parts of a pattern; the reference is the usual backtracking meaning of a wildcard.
  path.Match, which the host part uses, is modelled on bytes (Go reads runes), with its
  classes, escapes and malformed patterns; a malformed pattern matches nothing.
\<close>

subsection \<open>Go's path.Match\<close>

definition get_esc :: "string \<Rightarrow> (char \<times> string) option" where
  "get_esc p = (case p of [] \<Rightarrow> None
     | x # q \<Rightarrow>
        if x = CHR ''-'' \<or> x = CHR '']'' then None
        else if byte x = 92 then (case q of [] \<Rightarrow> None | y # r \<Rightarrow> if r = [] then None else Some (y, r))
        else if q = [] then None else Some (x, q))"

lemma get_esc_shorter: "get_esc p = Some (c, q) \<Longrightarrow> length q < length p \<and> q \<noteq> []"
  by (auto simp: get_esc_def split: list.splits if_splits)

text \<open>The ranges of a character class up to its closing bracket: whether the byte is in one.\<close>

function class_ranges :: "bool \<Rightarrow> bool \<Rightarrow> char \<Rightarrow> string \<Rightarrow> (bool \<times> string) option" where
  "class_ranges seen m r p =
     (if p \<noteq> [] \<and> hd p = CHR '']'' \<and> seen then Some (m, tl p)
      else (case get_esc p of None \<Rightarrow> None
        | Some (lo, q) \<Rightarrow>
            if hd q = CHR ''-''
            then (case get_esc (tl q) of None \<Rightarrow> None
              | Some (hi, q') \<Rightarrow> class_ranges True (m \<or> byte lo \<le> byte r \<and> byte r \<le> byte hi) r q')
            else class_ranges True (m \<or> lo = r) r q))"
  by pat_completeness auto
termination
  by (relation "measure (\<lambda>(_, _, _, p). length p)")
    (auto dest!: get_esc_shorter simp: less_le_trans)

declare class_ranges.simps [simp del]

lemma class_ranges_shorter: "class_ranges seen m r p = Some (b, q) \<Longrightarrow> length q < length p"
proof (induction seen m r p rule: class_ranges.induct)
  case (1 seen m r p)
  then show ?case
    by (subst (asm) (3) class_ranges.simps)
      (fastforce dest: get_esc_shorter split: if_splits option.splits)
qed

function path_match :: "string \<Rightarrow> string \<Rightarrow> bool" where
  "path_match [] s = (s = [])"
| "path_match (x # p) s =
     (if x = CHR ''*'' then
        path_match p s \<or> (case s of [] \<Rightarrow> False | c # t \<Rightarrow> c \<noteq> CHR ''/'' \<and> path_match (x # p) t)
      else (case s of [] \<Rightarrow> False
        | c # t \<Rightarrow>
            if x = CHR ''?'' then c \<noteq> CHR ''/'' \<and> path_match p t
            else if x = CHR ''['' then
              (let neg = (p \<noteq> [] \<and> hd p = CHR ''^'')
               in case class_ranges False False c (if neg then tl p else p) of None \<Rightarrow> False
                  | Some (m, q) \<Rightarrow> m \<noteq> neg \<and> path_match q t)
            else if byte x = 92 then (case p of [] \<Rightarrow> False | y # q \<Rightarrow> y = c \<and> path_match q t)
            else x = c \<and> path_match p t))"
  by pat_completeness auto
termination
proof (relation "measure (\<lambda>(p, s). length p + length s)", goal_cases)
  case (5 x p s c t neg rq m q)
  then have "length q < length (if neg then tl p else p)" by (metis class_ranges_shorter)
  with 5 show ?case by (auto split: if_splits)
qed auto

declare path_match.simps(2) [simp del]

subsection \<open>Wildcards in the path\<close>

text \<open>The loop over the middle parts: each is searched from where the last one ended.\<close>

fun wm_middle :: "string list \<Rightarrow> string \<Rightarrow> string option" where
  "wm_middle [] s = Some s"
| "wm_middle (part # parts) s =
     (case Index s part of None \<Rightarrow> None
      | Some idx \<Rightarrow> wm_middle parts (drop (idx + length part) s))"

definition wildcardMatch :: "string \<Rightarrow> string \<Rightarrow> bool" where
  "wildcardMatch pattern s =
     (let parts = Split CHR ''*'' pattern
      in if length parts = 1 then pattern = s
         else if \<not> HasPrefix s (hd parts) then False
         else (case wm_middle (butlast (tl parts)) (drop (length (hd parts)) s) of
                 None \<Rightarrow> False
               | Some rest \<Rightarrow> HasSuffix rest (last parts)))"

definition splitScheme :: "string \<Rightarrow> string \<times> string" where
  "splitScheme s = (case Cut s ''://'' of Some (before, after) \<Rightarrow> (before, after) | None \<Rightarrow> ([], s))"

definition splitHostPath :: "string \<Rightarrow> string \<times> string" where
  "splitHostPath s = (case Cut s ''/'' of Some (before, after) \<Rightarrow> (before, ''/'' @ after)
     | None \<Rightarrow> (s, []))"

definition GlobMatch :: "string \<Rightarrow> string \<Rightarrow> bool" where
  "GlobMatch pattern url =
     (let p = ToLower pattern; u = ToLower url;
          (pScheme, pRest) = splitScheme p;
          (uScheme, uRest) = splitScheme u
      in if pScheme \<noteq> ''*'' \<and> pScheme \<noteq> uScheme then False
         else let (pHost, pPath) = splitHostPath pRest;
                  (uHost, uPath) = splitHostPath uRest
              in if \<not> path_match pHost uHost then False else wildcardMatch pPath uPath)"

definition GlobMatchAny :: "string list \<Rightarrow> string \<Rightarrow> bool" where
  "GlobMatchAny patterns url = list_ex (\<lambda>p. GlobMatch p url) patterns"

text \<open>
  The legacy matcher.  \<open>host_path\<close> stands for net/url's Parse: host and path of a URL that
  parses, \<open>None\<close> for one that does not.
\<close>

fun mu_loop :: "string list \<Rightarrow> string \<Rightarrow> bool" where
  "mu_loop [] s = True"
| "mu_loop (part # parts) s =
     (if part = [] then mu_loop parts s
      else (case Index s part of None \<Rightarrow> False
        | Some idx \<Rightarrow> mu_loop parts (drop (idx + length part) s)))"

definition matchURL :: "(string \<Rightarrow> string option) \<Rightarrow> string \<Rightarrow> string \<Rightarrow> bool" where
  "matchURL host_path pattern rawURL =
     (let hostPath = (case host_path rawURL of Some hp \<Rightarrow> hp | None \<Rightarrow> rawURL);
          pat = ToLower pattern; hp = ToLower hostPath
      in if CHR ''*'' \<notin> set pat then Contains hp pat
         else mu_loop (Split CHR ''*'' pat) hp)"

subsection \<open>The reference: a wildcard stands for any text\<close>

fun glob :: "string \<Rightarrow> string \<Rightarrow> bool" where
  "glob [] s = (s = [])"
| "glob (c # p) s =
     (if c = CHR ''*'' then (\<exists>k \<le> length s. glob p (drop k s))
      else s \<noteq> [] \<and> hd s = c \<and> glob p (tl s))"

text \<open>The same for a list of literal parts, each after a star.\<close>

fun star_parts :: "string list \<Rightarrow> string \<Rightarrow> bool" where
  "star_parts [] s = True"
| "star_parts [l] s = HasSuffix s l"
| "star_parts (p # q # ps) s =
     (\<exists>k \<le> length s. HasPrefix (drop k s) p \<and> star_parts (q # ps) (drop (k + length p) s))"

lemma glob_literal: "CHR ''*'' \<notin> set l \<Longrightarrow> glob l s \<longleftrightarrow> s = l"
proof (induction l arbitrary: s)
  case (Cons c l)
  then show ?case by (cases s) auto
qed simp

lemma glob_append:
  "CHR ''*'' \<notin> set l \<Longrightarrow> glob (l @ p) s \<longleftrightarrow> HasPrefix s l \<and> glob p (drop (length l) s)"
proof (induction l arbitrary: s)
  case (Cons c l)
  then show ?case by (cases s) auto
qed simp

lemma HasSuffix_drop_iff: "HasSuffix s l \<longleftrightarrow> (\<exists>k \<le> length s. drop k s = l)"
  by (metis HasSuffix_def HasSuffix_iff append_take_drop_id diff_le_self)

lemma glob_star_parts:
  "ps \<noteq> [] \<Longrightarrow> \<forall>p \<in> set ps. CHR ''*'' \<notin> set p \<Longrightarrow>
   glob (CHR ''*'' # Join ps ''*'') s \<longleftrightarrow> star_parts ps s"
proof (induction ps arbitrary: s rule: induct_list012)
  case (2 l)
  then show ?case by (simp add: glob_literal HasSuffix_drop_iff)
next
  case (3 p q ps)
  then have "glob (Join (p # q # ps) ''*'') t \<longleftrightarrow>
      HasPrefix t p \<and> star_parts (q # ps) (drop (length p) t)" for t
    by (simp add: glob_append del: glob.simps)
  then show ?case by (simp add: add.commute del: Join.simps)
qed simp

text \<open>A match of the parts stays a match when text is put in front, so the leftmost occurrence
  of a part is always a right choice.\<close>

lemma star_parts_mono: "star_parts ps s \<Longrightarrow> star_parts ps (a @ s)"
proof (induction ps arbitrary: s a rule: induct_list012)
  case (2 l)
  then show ?case by (auto simp: HasSuffix_iff)
next
  case (3 p q ps)
  then obtain k where "k \<le> length s" "HasPrefix (drop k s) p"
    "star_parts (q # ps) (drop (k + length p) s)" by auto
  then show ?case by (auto intro!: exI [of _ "length a + k"] simp: add.assoc)
qed simp

lemma star_parts_drop_mono:
  assumes "star_parts ps (drop j s)" and "i \<le> j"
  shows "star_parts ps (drop i s)"
proof -
  have "drop i s = take (j - i) (drop i s) @ drop j s"
    using assms(2) by (metis append_take_drop_id drop_drop le_add_diff_inverse2 add.commute)
  with assms(1) show ?thesis by (metis star_parts_mono)
qed

lemma star_parts_greedy:
  "star_parts (p # q # ps) s \<longleftrightarrow>
   (case Index s p of None \<Rightarrow> False | Some i \<Rightarrow> star_parts (q # ps) (drop (i + length p) s))"
proof (cases "Index s p")
  case None
  then have "\<forall>j \<le> length s. \<not> HasPrefix (drop j s) p" by (simp add: Index_None_iff)
  with None show ?thesis by auto
next
  case (Some i)
  from Index_Some_prefix [OF Some] have i: "HasPrefix (drop i s) p" "i \<le> length s" by auto
  have "i \<le> k" if "HasPrefix (drop k s) p" for k
    using that Index_Some_least [OF Some, of k] by (meson not_le)
  then show ?thesis
    using Some i by (auto intro: star_parts_drop_mono)
qed

lemma wm_middle_star_parts:
  "star_parts (ms @ [l]) s \<longleftrightarrow>
   (case wm_middle ms s of None \<Rightarrow> False | Some r \<Rightarrow> HasSuffix r l)"
proof (induction ms arbitrary: s)
  case (Cons m ms)
  obtain q ps where "ms @ [l] = q # ps" by (cases ms) auto
  with Cons show ?case
    by (auto simp: star_parts_greedy simp del: star_parts.simps(3) split: option.split)
qed simp

lemma Index_empty [simp]: "Index s [] = Some 0"
  by (cases s) auto

lemma mu_loop_star_parts: "mu_loop ps s \<longleftrightarrow> star_parts (ps @ [[]]) s"
proof (induction ps arbitrary: s)
  case (Cons p ps)
  obtain q qs where "ps @ [[]] = q # qs" by (cases ps) auto
  with Cons show ?case
    by (auto simp: star_parts_greedy simp del: star_parts.simps(3) split: option.split)
qed simp

subsection \<open>Properties\<close>

text \<open>C26: The greedy path matcher agrees with the backtracking meaning of wildcards on every
  pattern and every text.\<close>

theorem wildcardMatch_glob: "wildcardMatch pattern s \<longleftrightarrow> glob pattern s"
proof (cases "CHR ''*'' \<in> set pattern")
  case False
  then show ?thesis by (auto simp: wildcardMatch_def Split_id glob_literal)
next
  case True
  let ?parts = "Split CHR ''*'' pattern"
  from Split_sep_mem [OF True] obtain p ps where parts: "?parts = p # ps" "ps \<noteq> []"
    by (cases ?parts) (fastforce, metis One_nat_def Suc_1 length_Cons list.size(3) not_less_eq_eq le_zero_eq nat.simps(3))
  have nostar: "\<forall>q \<in> set ?parts. CHR ''*'' \<notin> set q" by (blast dest: Split_no_sep)
  have ps: "ps = butlast ps @ [last ps]" using parts(2) by simp
  have "pattern = p @ CHR ''*'' # Join ps ''*''"
    using Join_Split [of "CHR ''*''" pattern] parts by (simp add: Join_Cons)
  then have "glob pattern s \<longleftrightarrow> HasPrefix s p \<and> star_parts ps (drop (length p) s)"
    using nostar parts by (simp add: glob_append glob_star_parts del: glob.simps)
  also have "\<dots> \<longleftrightarrow> wildcardMatch pattern s"
    using parts wm_middle_star_parts [of "butlast ps" "last ps", folded ps]
    by (auto simp: wildcardMatch_def cong: option.case_cong)
  finally show ?thesis by simp
qed

text \<open>The legacy matcher accepts a URL exactly when the pattern, read with wildcards and
  case-insensitively, matches some part of its host and path.\<close>

theorem matchURL_glob:
  "matchURL host_path pattern url \<longleftrightarrow>
   glob (''*'' @ ToLower pattern @ ''*'')
     (ToLower (case host_path url of Some hp \<Rightarrow> hp | None \<Rightarrow> url))"
proof -
  let ?p = "ToLower pattern"
  let ?u = "ToLower (case host_path url of Some hp \<Rightarrow> hp | None \<Rightarrow> url)"
  let ?parts = "Split CHR ''*'' ?p"
  have "Join (?parts @ [[]]) ''*'' = ?p @ ''*''" by (simp add: Split_Join_append)
  moreover have "\<forall>q \<in> set (?parts @ [[]]). CHR ''*'' \<notin> set q" by (auto dest: Split_no_sep)
  ultimately have g: "glob (''*'' @ ?p @ ''*'') ?u \<longleftrightarrow> mu_loop ?parts ?u"
    using glob_star_parts [of "?parts @ [[]]" ?u] by (simp add: mu_loop_star_parts)
  have "mu_loop [?p] ?u \<longleftrightarrow> Contains ?u ?p"
    by (auto simp: Contains_def Index_empty split: option.split)
  with g show ?thesis by (auto simp: matchURL_def Let_def Split_id)
qed

lemma lower_char_colon_slash:
  assumes "d = CHR '':'' \<or> d = CHR ''/''"
  shows "lower_char c = d \<longleftrightarrow> c = d"
proof (cases "65 \<le> byte c \<and> byte c \<le> 90")
  case True
  then have "byte (lower_char c) = byte c + 32" by (simp add: lower_char_def)
  moreover have "byte d \<le> 58" using assms by (auto simp: byte_def)
  ultimately show ?thesis using True by auto
qed (auto simp: lower_char_def)

lemma HasPrefix_ToLower: "HasPrefix (ToLower s) ''://'' \<longleftrightarrow> HasPrefix s ''://''"
  by (cases s rule: remdups_adj.cases)
    (auto simp: ToLower_def HasPrefix_def take_map lower_char_colon_slash numeral_eq_Suc map_eq_Cons_conv
      intro: lower_char_colon_slash [THEN iffD1])

lemma Contains_ToLower: "Contains (ToLower s) ''://'' \<longleftrightarrow> Contains s ''://''"
  using HasPrefix_ToLower [of "drop _ s"]
  by (simp add: Contains_def Index_None_iff not_None_eq [symmetric] ToLower_def drop_map del: not_None_eq)

text \<open>The pattern of the script template, a lone star, matches no URL that has a scheme: a
  script made from the template never runs until its match list is edited.\<close>

theorem template_pattern_never_matches:
  assumes "Contains url ''://''" and "\<not> HasPrefix url ''://''"
  shows "\<not> GlobMatch ''*'' url"
proof -
  from assms(1) have "Contains (ToLower url) ''://''" by (simp only: Contains_ToLower)
  then obtain i where i: "Index (ToLower url) ''://'' = Some i"
    unfolding Contains_def by blast
  have "i \<noteq> 0"
  proof
    assume "i = 0"
    with Index_Some_prefix [OF i] have "HasPrefix (ToLower url) ''://''" by simp
    with assms(2) show False by (simp add: HasPrefix_ToLower)
  qed
  moreover have "i \<le> length (ToLower url)" using Index_Some_prefix [OF i] by simp
  ultimately have "fst (splitScheme (ToLower url)) \<noteq> []"
    using i by (auto simp: splitScheme_def Cut_def)
  then show ?thesis
    by (auto simp: GlobMatch_def Let_def ToLower_def lower_char_def byte_def splitScheme_def
        Cut_def split: prod.splits)
qed

theorem template_pattern_never_matches_witness: "\<not> GlobMatch ''*'' ''https://a/b''"
  by (rule template_pattern_never_matches) (simp_all add: Contains_def)

end
