(* ===== verification/Script_Header.thy ===== *)
theory Script_Header
  imports Script_Glob
begin

section \<open>Script files (internal/scripting/header.go, loader.go)\<close>

text \<open>
  The YAML front matter of a script file, the operations that rewrite it (id back-fill, enable
  toggle) and the files made from templates.  The YAML decoder is the parameter
  \<open>unmarshal\<close>.  The file system is a state: the regular files, the directories, the random
  bytes still to be drawn, and faults that make reads and writes of some paths fail.
  Directory arguments are clean paths, so filepath.Join is concatenation with a slash.
\<close>

subsection \<open>Files\<close>

record fsys =
  fs_files :: "(string \<times> string) list"
  fs_dirs :: "string list"
  fs_read_fault :: "string \<Rightarrow> string option"
  fs_write_fault :: "string \<Rightarrow> string option"
  fs_random :: "nat \<Rightarrow> string"
  fs_drawn :: nat

definition no_file :: "string \<Rightarrow> string" where
  "no_file p = ''open '' @ p @ '': no such file or directory''"

definition ReadFile :: "string \<Rightarrow> fsys \<Rightarrow> string or_err" where
  "ReadFile p fs = (case fs_read_fault fs p of Some e \<Rightarrow> Inl e
     | None \<Rightarrow> (case map_of (fs_files fs) p of None \<Rightarrow> Inl (no_file p) | Some c \<Rightarrow> Inr c))"

definition WriteFile :: "string \<Rightarrow> string \<Rightarrow> fsys \<Rightarrow> string option \<times> fsys" where
  "WriteFile p c fs = (case fs_write_fault fs p of Some e \<Rightarrow> (Some e, fs)
     | None \<Rightarrow> (None, fs\<lparr>fs_files := AList.update p c (fs_files fs)\<rparr>))"

definition RemoveFile :: "string \<Rightarrow> fsys \<Rightarrow> string option \<times> fsys" where
  "RemoveFile p fs = (if map_of (fs_files fs) p = None then (Some (no_file p), fs)
     else (case fs_write_fault fs p of Some e \<Rightarrow> (Some e, fs)
       | None \<Rightarrow> (None, fs\<lparr>fs_files := AList.delete p (fs_files fs)\<rparr>)))"

definition path_join :: "string \<Rightarrow> string \<Rightarrow> string" where
  "path_join dir name = dir @ ''/'' @ name"

definition child_name :: "string \<Rightarrow> string \<Rightarrow> string option" where
  "child_name dir p =
     (if HasPrefix p (dir @ ''/'')
      then let n = drop (length dir + 1) p in if n = [] \<or> CHR ''/'' \<in> set n then None else Some n
      else None)"

text \<open>\<open>os.ReadDir\<close>: the entries of a directory in name order, each with its IsDir.\<close>

definition ReadDir :: "string \<Rightarrow> fsys \<Rightarrow> (string \<times> bool) list or_err" where
  "ReadDir dir fs = (if dir \<notin> set (fs_dirs fs) then Inl (no_file dir)
     else Inr (sort_key fst
       (map (\<lambda>n. (n, False)) (List.map_filter (child_name dir) (map fst (fs_files fs))) @
        map (\<lambda>n. (n, True)) (List.map_filter (child_name dir) (fs_dirs fs)))))"

definition hex_digit :: "nat \<Rightarrow> char" where
  "hex_digit n = (if n < 10 then char_of (48 + n) else char_of (87 + n))"

definition hex_encode :: "string \<Rightarrow> string" where
  "hex_encode s = concat (map (\<lambda>c. [hex_digit (byte c div 16), hex_digit (byte c mod 16)]) s)"

definition generateID :: "fsys \<Rightarrow> string \<times> fsys" where
  "generateID fs = (hex_encode (take 8 (fs_random fs (fs_drawn fs))), fs\<lparr>fs_drawn := fs_drawn fs + 1\<rparr>)"

subsection \<open>The header\<close>

record ScriptMeta =
  sm_ID :: string
  sm_Name :: string
  sm_Match :: "string list"
  sm_Enabled :: "bool option"

definition IsEnabled :: "ScriptMeta \<Rightarrow> bool" where
  "IsEnabled m = (case sm_Enabled m of None \<Rightarrow> True | Some b \<Rightarrow> b)"

type_synonym yaml = "string \<Rightarrow> ScriptMeta or_err"

definition is_delim :: "string \<Rightarrow> bool" where
  "is_delim line = (TrimSpace line = ''// ---'')"

fun find_line :: "(string \<Rightarrow> bool) \<Rightarrow> string list \<Rightarrow> nat option" where
  "find_line P [] = None"
| "find_line P (l # ls) = (if P l then Some 0 else map_option Suc (find_line P ls))"

definition strip_line :: "string \<Rightarrow> string" where
  "strip_line l = TrimPrefix (TrimPrefix l ''// '') ''//''"

text \<open>The lines between the delimiters, stripped, and those after the second one.\<close>

definition header_lines :: "string list \<Rightarrow> (string list \<times> string list) or_err" where
  "header_lines lines =
     (case find_line is_delim lines of None \<Rightarrow> Inl ''missing header: no opening // --- delimiter''
      | Some start \<Rightarrow>
         (case find_line is_delim (drop (start + 1) lines) of
            None \<Rightarrow> Inl ''missing header: no closing // --- delimiter''
          | Some k \<Rightarrow> Inr (map strip_line (take k (drop (start + 1) lines)),
                           drop (start + 1 + k + 1) lines)))"

definition ParseHeader :: "yaml \<Rightarrow> string \<Rightarrow> (ScriptMeta \<times> string) or_err" where
  "ParseHeader unmarshal source =
     (case header_lines (Split nl source) of Inl e \<Rightarrow> Inl e
      | Inr (yamlLines, rest) \<Rightarrow>
         (case unmarshal (Join yamlLines [nl]) of
            Inl e \<Rightarrow> Inl (''invalid header YAML: '' @ e)
          | Inr meta \<Rightarrow>
              if sm_Name meta = [] then Inl ''header missing required field: name''
              else if length (sm_Match meta) = 0 then Inl ''header missing required field: match''
              else Inr (meta, Join rest [nl])))"

subsection \<open>Loading a directory\<close>

definition insert_at :: "nat \<Rightarrow> 'a \<Rightarrow> 'a list \<Rightarrow> 'a list" where
  "insert_at i x xs = take i xs @ x # drop i xs"

definition with_id :: "string \<Rightarrow> string \<Rightarrow> string option" where
  "with_id sid source =
     (let lines = Split nl source
      in case find_line is_delim lines of None \<Rightarrow> None
         | Some i \<Rightarrow> Some (Join (insert_at (i + 1) (''// id: '' @ sid) lines) [nl]))"

definition ensureScriptID :: "string \<Rightarrow> ScriptMeta \<Rightarrow> string \<Rightarrow> fsys \<Rightarrow> ScriptMeta or_err \<times> fsys" where
  "ensureScriptID path meta source fs =
     (if sm_ID meta \<noteq> [] then (Inr meta, fs)
      else let (sid, fs1) = generateID fs
           in case with_id sid source of
                None \<Rightarrow> (Inl (''no opening delimiter in '' @ path), fs1)
              | Some new \<Rightarrow>
                 (case WriteFile path new fs1 of
                    (Some e, fs2) \<Rightarrow> (Inl (''backfill id in '' @ path @ '': '' @ e), fs2)
                  | (None, fs2) \<Rightarrow> (Inr (meta\<lparr>sm_ID := sid\<rparr>), fs2)))"

record ScriptFile =
  sf_Meta :: ScriptMeta
  sf_Source :: string
  sf_FilePath :: string
  sf_Error :: string

definition filenameToName :: "string \<Rightarrow> string" where
  "filenameToName name = TrimSuffix name ''.js''"

definition named_meta :: "string \<Rightarrow> ScriptMeta" where
  "named_meta n = \<lparr>sm_ID = [], sm_Name = n, sm_Match = [], sm_Enabled = None\<rparr>"

definition error_file :: "ScriptMeta \<Rightarrow> string \<Rightarrow> string \<Rightarrow> ScriptFile" where
  "error_file meta path e = \<lparr>sf_Meta = meta, sf_Source = [], sf_FilePath = path, sf_Error = e\<rparr>"

text \<open>One entry of the directory: a script (\<open>Inr\<close>) or an entry for the error list.\<close>

definition load_entry :: "yaml \<Rightarrow> string \<Rightarrow> string \<Rightarrow> fsys \<Rightarrow> (ScriptFile + ScriptFile) \<times> fsys" where
  "load_entry unmarshal dir name fs =
     (let path = path_join dir name
      in case ReadFile path fs of
           Inl e \<Rightarrow> (Inl (error_file (named_meta (filenameToName name)) path e), fs)
         | Inr source \<Rightarrow>
            (case ParseHeader unmarshal source of
               Inl e \<Rightarrow> (Inl (error_file (named_meta (filenameToName name)) path e), fs)
             | Inr (meta, body) \<Rightarrow>
                (case ensureScriptID path meta source fs of
                   (Inl e, fs1) \<Rightarrow> (Inl (error_file meta path e), fs1)
                 | (Inr meta1, fs1) \<Rightarrow>
                    (Inr \<lparr>sf_Meta = meta1, sf_Source = body, sf_FilePath = path, sf_Error = []\<rparr>, fs1))))"

fun load_entries :: "yaml \<Rightarrow> string \<Rightarrow> (string \<times> bool) list \<Rightarrow> fsys
    \<Rightarrow> ScriptFile list \<times> ScriptFile list \<times> fsys" where
  "load_entries unmarshal dir [] fs = ([], [], fs)"
| "load_entries unmarshal dir ((name, isdir) # es) fs =
     (if isdir \<or> \<not> HasSuffix name ''.js'' then load_entries unmarshal dir es fs
      else case load_entry unmarshal dir name fs of
        (Inl bad, fs1) \<Rightarrow>
          (let (ok, errs, fs2) = load_entries unmarshal dir es fs1 in (ok, bad # errs, fs2))
      | (Inr s, fs1) \<Rightarrow>
          (let (ok, errs, fs2) = load_entries unmarshal dir es fs1 in (s # ok, errs, fs2)))"

definition LoadDir :: "yaml \<Rightarrow> string \<Rightarrow> fsys \<Rightarrow> ScriptFile list \<times> ScriptFile list \<times> fsys" where
  "LoadDir unmarshal dir fs = (case ReadDir dir fs of Inl _ \<Rightarrow> ([], [], fs)
     | Inr entries \<Rightarrow> load_entries unmarshal dir entries fs)"

subsection \<open>Rewriting and creating files\<close>

definition show_bool :: "bool \<Rightarrow> string" where
  "show_bool b = (if b then ''true'' else ''false'')"

definition enabled_line :: "bool \<Rightarrow> string" where
  "enabled_line b = ''// enabled: '' @ show_bool b"

definition is_enabled_line :: "string \<Rightarrow> bool" where
  "is_enabled_line line = HasPrefix (TrimSpace line) ''// enabled:''"

text \<open>The second delimiter of the file, where a new line is inserted.\<close>

definition second_delim :: "string list \<Rightarrow> nat option" where
  "second_delim lines = (case find_line is_delim lines of None \<Rightarrow> None
     | Some i \<Rightarrow> map_option (\<lambda>k. i + 1 + k) (find_line is_delim (drop (i + 1) lines)))"

definition toggle_lines :: "bool \<Rightarrow> string list \<Rightarrow> string list" where
  "toggle_lines newEnabled lines =
     (case find_line is_enabled_line lines of
        Some i \<Rightarrow> lines[i := enabled_line newEnabled]
      | None \<Rightarrow> (case second_delim lines of None \<Rightarrow> lines
          | Some i \<Rightarrow> insert_at i (enabled_line newEnabled) lines))"

definition ToggleEnabled :: "yaml \<Rightarrow> string \<Rightarrow> fsys \<Rightarrow> string option \<times> fsys" where
  "ToggleEnabled unmarshal path fs =
     (case ReadFile path fs of Inl e \<Rightarrow> (Some (''read '' @ path @ '': '' @ e), fs)
      | Inr source \<Rightarrow>
         (case ParseHeader unmarshal source of
            Inl e \<Rightarrow> (Some (''parse '' @ path @ '': '' @ e), fs)
          | Inr (meta, _) \<Rightarrow>
             WriteFile path (Join (toggle_lines (\<not> IsEnabled meta) (Split nl source)) [nl]) fs))"

definition DeleteScript :: "string \<Rightarrow> fsys \<Rightarrow> string option \<times> fsys" where
  "DeleteScript path fs = RemoveFile path fs"

definition EnsureScriptDir :: "string \<Rightarrow> fsys \<Rightarrow> string option \<times> fsys" where
  "EnsureScriptDir dir fs = (case fs_write_fault fs dir of Some e \<Rightarrow> (Some e, fs)
     | None \<Rightarrow> (None, fs\<lparr>fs_dirs := List.insert dir (fs_dirs fs)\<rparr>))"

text \<open>\<open>strings.Replacer\<close>: at each position the first old string, in argument order.\<close>

function Replace :: "(string \<times> string) list \<Rightarrow> string \<Rightarrow> string" where
  "Replace prs s =
     (case find (\<lambda>(old, new). old \<noteq> [] \<and> HasPrefix s old) prs of
        Some (old, new) \<Rightarrow> new @ Replace prs (drop (length old) s)
      | None \<Rightarrow> (case s of [] \<Rightarrow> [] | c # t \<Rightarrow> c # Replace prs t))"
  by pat_completeness auto
termination
  by (relation "measure (\<lambda>(prs, s). length s)") (auto simp: find_Some_iff HasPrefix_iff)

declare Replace.simps [simp del]

definition TrimByte :: "char \<Rightarrow> string \<Rightarrow> string" where
  "TrimByte c s = rev (dropWhile (\<lambda>x. x = c) (rev (dropWhile (\<lambda>x. x = c) s)))"

definition slug_pairs :: "(string \<times> string) list" where
  "slug_pairs = [(''*://'', []), (''http://'', []), (''https://'', []), (''*'', []),
     (''/'', ''-''), (''.'', ''-'')]"

definition patternSlug :: "string \<Rightarrow> string" where
  "patternSlug pattern =
     (let s = TrimByte CHR ''-'' (Replace slug_pairs pattern);
          s1 = (if length s > 30 then take 30 s else s)
      in if s1 = [] then ''local'' else s1)"

definition template_lines :: "string \<Rightarrow> string list" where
  "template_lines sid = [''// ---'', ''// id: '' @ sid, ''// name: New Script'', ''// match:'',
     ''//   - '' @ [CHR 0x22] @ ''*'' @ [CHR 0x22], ''// enabled: true'', ''// ---'', [],
     ''function onRequest(ctx) {'', ''  // Modify request before it is sent.'',
     ''  // ctx.method, ctx.url, ctx.headers, ctx.body'', ''}'', [],
     ''function onResponse(ctx) {'', ''  // Modify response before it reaches the browser.'',
     ''  // ctx.status, ctx.headers, ctx.body'', ''}'', []]"

definition NewScriptTemplate :: "fsys \<Rightarrow> string \<times> fsys" where
  "NewScriptTemplate fs =
     (let (sid, fs1) = generateID fs in (Join (template_lines sid) [nl], fs1))"

text \<open>
  \<open>os.CreateTemp\<close> picks an unused name from a pattern: the parameter \<open>temp_name\<close> (directory,
  prefix, suffix, existing files).  The write that follows may fail; the file is then removed.
\<close>

type_synonym temp_name = "string \<Rightarrow> string \<Rightarrow> string \<Rightarrow> string list \<Rightarrow> string"

definition create_with :: "temp_name \<Rightarrow> string \<Rightarrow> string \<Rightarrow> (fsys \<Rightarrow> string \<times> fsys) \<Rightarrow> fsys
    \<Rightarrow> string or_err \<times> fsys" where
  "create_with temp dir pre content fs =
     (case EnsureScriptDir dir fs of (Some e, fs1) \<Rightarrow> (Inl e, fs1)
      | (None, fs1) \<Rightarrow>
         let path = temp dir pre ''.js'' (map fst (fs_files fs1));
             (text, fs2) = content fs1
         in case WriteFile path text fs2 of
              (Some e, fs3) \<Rightarrow> (Inl (''write template: '' @ e), fs3)
            | (None, fs3) \<Rightarrow> (Inr path, fs3))"

definition CreateNewScript :: "temp_name \<Rightarrow> string \<Rightarrow> fsys \<Rightarrow> string or_err \<times> fsys" where
  "CreateNewScript temp dir fs = create_with temp dir ''script-'' NewScriptTemplate fs"

definition map_local_lines :: "string \<Rightarrow> string \<Rightarrow> string \<Rightarrow> string \<Rightarrow> string list" where
  "map_local_lines sid slug pattern localPath =
     [''// ---'', ''// id: '' @ sid, ''// name: mock-'' @ slug, ''// match:'',
      ''//   - '' @ [CHR 0x22] @ pattern @ [CHR 0x22], ''// enabled: true'', ''// ---'', [],
      ''function onRequest(ctx) {'',
      ''  ctx.respondWith({file: '' @ [CHR 0x22] @ localPath @ [CHR 0x22] @ ''});'', ''}'', []]"

definition CreateMapLocalScript :: "temp_name \<Rightarrow> string \<Rightarrow> string \<Rightarrow> string \<Rightarrow> fsys
    \<Rightarrow> string or_err \<times> fsys" where
  "CreateMapLocalScript temp dir pattern localPath fs =
     create_with temp dir ''mock-''
       (\<lambda>fs1. let (sid, fs2) = generateID fs1
              in (Join (map_local_lines sid (patternSlug pattern) pattern localPath) [nl], fs2)) fs"

subsection \<open>The shape of a header\<close>

lemma find_line_None: "find_line P ls = None \<longleftrightarrow> (\<forall>l \<in> set ls. \<not> P l)"
  by (induction ls) auto

lemma find_line_Some:
  "find_line P ls = Some i \<longleftrightarrow>
   (\<exists>pre l post. ls = pre @ l # post \<and> length pre = i \<and> P l \<and> (\<forall>x \<in> set pre. \<not> P x))"
proof (induction ls arbitrary: i)
  case (Cons a ls)
  show ?case
  proof
    assume "find_line P (a # ls) = Some i"
    then show "\<exists>pre l post. a # ls = pre @ l # post \<and> length pre = i \<and> P l \<and> (\<forall>x \<in> set pre. \<not> P x)"
    proof (cases "P a")
      case True
      with \<open>find_line P (a # ls) = Some i\<close> show ?thesis
        by (intro exI [of _ "[]"] exI [of _ a] exI [of _ ls]) auto
    next
      case False
      with \<open>find_line P (a # ls) = Some i\<close> obtain j where "find_line P ls = Some j" "i = Suc j" by auto
      with Cons.IH obtain pre l post where "ls = pre @ l # post" "length pre = j" "P l" "\<forall>x \<in> set pre. \<not> P x"
        by blast
      with False \<open>i = Suc j\<close> show ?thesis
        by (intro exI [of _ "a # pre"] exI [of _ l] exI [of _ post]) auto
    qed
  next
    assume "\<exists>pre l post. a # ls = pre @ l # post \<and> length pre = i \<and> P l \<and> (\<forall>x \<in> set pre. \<not> P x)"
    then obtain pre l post where d: "a # ls = pre @ l # post" "length pre = i" "P l" "\<forall>x \<in> set pre. \<not> P x"
      by blast
    show "find_line P (a # ls) = Some i"
    proof (cases pre)
      case Nil
      with d show ?thesis by auto
    next
      case pre: (Cons b pre')
      with d have "find_line P ls = Some (length pre')" using Cons.IH [of "length pre'"] by auto
      with pre d show ?thesis by auto
    qed
  qed
qed simp

lemma find_line_append: "\<forall>x \<in> set pre. \<not> P x \<Longrightarrow>
    find_line P (pre @ ls) = map_option (\<lambda>i. length pre + i) (find_line P ls)"
  by (induction pre) (cases "find_line P ls"; auto)+

text \<open>A file whose header is \<open>mid\<close>: the delimiters \<open>a\<close> and \<open>z\<close> and the text around them.\<close>

definition file_shape :: "string list \<Rightarrow> string \<Rightarrow> string list \<Rightarrow> string \<Rightarrow> bool" where
  "file_shape pre a mid z \<longleftrightarrow> is_delim a \<and> is_delim z \<and>
     (\<forall>l \<in> set pre. \<not> is_delim l) \<and> (\<forall>l \<in> set mid. \<not> is_delim l)"

lemma header_lines_shape:
  "file_shape pre a mid z \<Longrightarrow> header_lines (pre @ a # mid @ z # rest) = Inr (map strip_line mid, rest)"
  by (auto simp: file_shape_def header_lines_def find_line_append)

lemma header_lines_Inr:
  assumes "header_lines lines = Inr (ys, rest)"
  obtains pre a mid z where "lines = pre @ a # mid @ z # rest" "file_shape pre a mid z" "ys = map strip_line mid"
proof -
  from assms obtain i where i: "find_line is_delim lines = Some i"
    by (auto simp: header_lines_def split: option.splits)
  then obtain pre a post where 1: "lines = pre @ a # post" "length pre = i" "is_delim a"
    "\<forall>l \<in> set pre. \<not> is_delim l" by (auto simp: find_line_Some)
  from assms 1 i obtain k where k: "find_line is_delim post = Some k"
    by (auto simp: header_lines_def split: option.splits)
  then obtain mid z rest' where 2: "post = mid @ z # rest'" "length mid = k" "is_delim z"
    "\<forall>l \<in> set mid. \<not> is_delim l" by (auto simp: find_line_Some)
  with 1 have sh: "file_shape pre a mid z" by (simp add: file_shape_def)
  with header_lines_shape [OF sh, of rest'] assms 1 2 that show ?thesis by auto
qed

lemma TrimSpace_prefix: "s = [] \<or> \<not> is_space (hd s) \<Longrightarrow> HasPrefix s (TrimSpace s)"
proof -
  assume "s = [] \<or> \<not> is_space (hd s)"
  then have "TrimSpace s = rev (dropWhile is_space (rev s))"
    by (cases s) (auto simp: TrimSpace_def)
  moreover have "s = rev (dropWhile is_space (rev s)) @ rev (takeWhile is_space (rev s))"
    by (metis rev_append rev_rev_ident takeWhile_dropWhile_id)
  ultimately show ?thesis by (metis HasPrefix_append)
qed

lemma not_delim_slash: "\<not> HasPrefix (CHR ''/'' # s) ''// ---'' \<Longrightarrow> \<not> is_delim (CHR ''/'' # s)"
  using TrimSpace_prefix [of "CHR ''/'' # s"] by (auto simp: is_delim_def is_space_def byte_def)

lemma not_delim_id [simp]: "\<not> is_delim (''// id: '' @ sid)"
  using not_delim_slash [of "''/ id: '' @ sid"] by simp

lemma not_delim_enabled_line [simp]: "\<not> is_delim (enabled_line b)"
  using not_delim_slash [of "''/ enabled: '' @ show_bool b"] by (simp add: enabled_line_def)

lemma enabled_not_delim: "is_enabled_line l \<Longrightarrow> \<not> is_delim l"
  by (auto simp: is_enabled_line_def is_delim_def)

lemma strip_enabled_line [simp]: "strip_line (enabled_line b) = ''enabled: '' @ show_bool b"
  by (simp add: strip_line_def enabled_line_def TrimPrefix_def)

lemma strip_id_line [simp]: "strip_line (''// id: '' @ sid) = ''id: '' @ sid"
  by (simp add: strip_line_def TrimPrefix_def)

text \<open>The effect of the toggle on the lines of a file, by where its first enabled line is.\<close>

lemma toggle_lines_header:
  assumes sh: "file_shape pre a mid z" and en: "find_line is_enabled_line mid = Some i"
    and pre: "\<forall>l \<in> set pre. \<not> is_enabled_line l"
  shows "toggle_lines b (pre @ a # mid @ z # rest) = pre @ a # mid[i := enabled_line b] @ z # rest \<and>
    file_shape pre a (mid[i := enabled_line b]) z"
proof -
  have a: "\<not> is_enabled_line a" using sh enabled_not_delim by (auto simp: file_shape_def)
  have i: "i < length mid" using en by (auto simp: find_line_Some)
  have "find_line is_enabled_line (pre @ a # mid @ z # rest) = Some (length pre + Suc i)"
  proof -
    from en obtain m1 l m2 where "mid = m1 @ l # m2" "length m1 = i" "is_enabled_line l"
      "\<forall>x \<in> set m1. \<not> is_enabled_line x" by (auto simp: find_line_Some)
    then show ?thesis using a pre by (simp add: find_line_append)
  qed
  then show ?thesis using sh i
    by (auto simp: toggle_lines_def list_update_append file_shape_def dest: set_update_subset_insert [THEN subsetD])
qed

lemma toggle_lines_insert:
  assumes sh: "file_shape pre a mid z"
    and none: "\<forall>l \<in> set (pre @ mid @ rest). \<not> is_enabled_line l"
  shows "toggle_lines b (pre @ a # mid @ z # rest) = pre @ a # (mid @ [enabled_line b]) @ z # rest \<and>
    file_shape pre a (mid @ [enabled_line b]) z"
proof -
  have "\<not> is_enabled_line a" "\<not> is_enabled_line z"
    using sh enabled_not_delim by (auto simp: file_shape_def)
  then have "find_line is_enabled_line (pre @ a # mid @ z # rest) = None"
    using none by (auto simp: find_line_None)
  moreover have "second_delim (pre @ a # mid @ z # rest) = Some (length pre + 1 + length mid)"
    using sh by (auto simp: second_delim_def find_line_append file_shape_def)
  ultimately show ?thesis
    using sh by (auto simp: toggle_lines_def insert_at_def file_shape_def)
qed

lemma toggle_lines_body:
  assumes sh: "file_shape pre a mid z" and none: "\<forall>l \<in> set (pre @ mid). \<not> is_enabled_line l"
    and body: "find_line is_enabled_line rest = Some i"
  shows "toggle_lines b (pre @ a # mid @ z # rest) = pre @ a # mid @ z # rest[i := enabled_line b]"
proof -
  have az: "\<not> is_enabled_line a" "\<not> is_enabled_line z"
    using sh enabled_not_delim by (auto simp: file_shape_def)
  have "find_line is_enabled_line ((pre @ a # mid @ [z]) @ rest) = Some (length pre + length mid + 2 + i)"
    using az none body by (subst find_line_append) auto
  then have "find_line is_enabled_line (pre @ a # mid @ z # rest) = Some (length pre + (Suc (length mid + Suc i)))"
    by simp
  then show ?thesis by (simp add: toggle_lines_def list_update_append)
qed

text \<open>C30: A header parses exactly when the file has two delimiter lines and the YAML text between
  the first two of them decodes to metadata with a name and at least one match pattern; the
  body is everything after the second delimiter.\<close>

theorem parse_header_iff:
  "ParseHeader u source = Inr (meta, body) \<longleftrightarrow>
   (\<exists>pre a mid z rest. Split nl source = pre @ a # mid @ z # rest \<and> file_shape pre a mid z \<and>
      u (Join (map strip_line mid) [nl]) = Inr meta \<and> sm_Name meta \<noteq> [] \<and> sm_Match meta \<noteq> [] \<and>
      body = Join rest [nl])"
proof
  assume "ParseHeader u source = Inr (meta, body)"
  then obtain ys rest where h: "header_lines (Split nl source) = Inr (ys, rest)"
    "u (Join ys [nl]) = Inr meta" "sm_Name meta \<noteq> []" "sm_Match meta \<noteq> []" "body = Join rest [nl]"
    by (auto simp: ParseHeader_def split: sum.splits if_splits)
  from header_lines_Inr [OF h(1)] h(2-) show "\<exists>pre a mid z rest.
      Split nl source = pre @ a # mid @ z # rest \<and> file_shape pre a mid z \<and>
      u (Join (map strip_line mid) [nl]) = Inr meta \<and> sm_Name meta \<noteq> [] \<and> sm_Match meta \<noteq> [] \<and>
      body = Join rest [nl]" by metis
qed (auto simp: ParseHeader_def header_lines_shape)

text \<open>Reading back what an operation wrote, line by line.\<close>

lemma split_join_shape: "\<forall>l \<in> set ls. nl \<notin> set l \<Longrightarrow> ls \<noteq> [] \<Longrightarrow> Split nl (Join ls [nl]) = ls"
  by (rule Split_Join)

lemma read_after_write:
  "fs_write_fault fs p = None \<Longrightarrow> fs_read_fault fs p = None \<Longrightarrow>
   WriteFile p c fs = (None, fs') \<Longrightarrow> ReadFile p fs' = Inr c"
  by (auto simp: WriteFile_def ReadFile_def update_conv')

lemma read_ok_no_fault: "ReadFile p fs = Inr c \<Longrightarrow> fs_read_fault fs p = None"
  by (auto simp: ReadFile_def split: option.splits)

lemma nl_enabled_line [simp]: "nl \<notin> set (enabled_line b)"
  by (simp add: nl_def enabled_line_def show_bool_def)

lemma ToggleEnabled_written:
  assumes "ReadFile path fs = Inr source" and "ParseHeader u source = Inr (meta, body)"
    and "fs_write_fault fs path = None"
    and "toggle_lines (\<not> IsEnabled meta) (Split nl source) = new" and "new \<noteq> []"
    and "\<forall>l \<in> set new. nl \<notin> set l"
  obtains fs' out where "ToggleEnabled u path fs = (None, fs')" "ReadFile path fs' = Inr out"
    "Split nl out = new"
proof -
  obtain fs' where w: "WriteFile path (Join new [nl]) fs = (None, fs')"
    using assms(3) by (simp add: WriteFile_def)
  from read_after_write [OF assms(3) read_ok_no_fault [OF assms(1)] w] split_join_shape [OF assms(6,5)]
    assms w that show ?thesis by (simp add: ToggleEnabled_def)
qed

lemma lines_no_nl: "Split nl source = ls \<Longrightarrow> l \<in> set ls \<Longrightarrow> nl \<notin> set l"
  using Split_no_sep by blast

text \<open>Toggling a script whose enabled line, if it has one, is in its header gives a file whose
  header says the opposite of the old state, in place of the old line or as a last line, and
  whose other header lines and body are those of the old file.\<close>

theorem toggle_flips_header:
  assumes "ReadFile path fs = Inr source" and "ParseHeader u source = Inr (meta, body)"
    and "fs_write_fault fs path = None"
    and "Split nl source = pre @ a # mid @ z # rest" and "file_shape pre a mid z"
    and "\<forall>l \<in> set pre. \<not> is_enabled_line l"
    and "find_line is_enabled_line mid = None \<longrightarrow> (\<forall>l \<in> set rest. \<not> is_enabled_line l)"
  shows "\<exists>fs' out. ToggleEnabled u path fs = (None, fs') \<and> ReadFile path fs' = Inr out \<and>
    header_lines (Split nl out) =
      Inr ((case find_line is_enabled_line mid of
              Some i \<Rightarrow> (map strip_line mid)[i := ''enabled: '' @ show_bool (\<not> IsEnabled meta)]
            | None \<Rightarrow> map strip_line mid @ [''enabled: '' @ show_bool (\<not> IsEnabled meta)]), rest)"
proof -
  let ?b = "\<not> IsEnabled meta"
  define mid' where "mid' = (case find_line is_enabled_line mid of
      Some i \<Rightarrow> mid[i := enabled_line ?b] | None \<Rightarrow> mid @ [enabled_line ?b])"
  have none: "\<forall>l \<in> set (pre @ mid @ rest). \<not> is_enabled_line l" if "find_line is_enabled_line mid = None"
    using assms(6,7) that by (auto simp: find_line_None)
  have new: "toggle_lines ?b (Split nl source) = pre @ a # mid' @ z # rest \<and> file_shape pre a mid' z"
    using toggle_lines_header [OF assms(5) _ assms(6)] toggle_lines_insert [OF assms(5) none]
    by (auto simp: mid'_def assms(4) split: option.split)
  have "set mid' \<subseteq> insert (enabled_line ?b) (set mid)"
    by (auto simp: mid'_def dest: set_update_subset_insert [THEN subsetD] split: option.splits)
  then have "\<forall>l \<in> set (pre @ a # mid' @ z # rest). nl \<notin> set l"
    using lines_no_nl [OF assms(4)] by (auto dest!: subsetD)
  from ToggleEnabled_written [OF assms(1-3) conjunct1 [OF new] _ this] obtain fs' out where
    "ToggleEnabled u path fs = (None, fs')" "ReadFile path fs' = Inr out"
    "Split nl out = pre @ a # mid' @ z # rest" by auto
  moreover have "map strip_line mid' = (case find_line is_enabled_line mid of
      Some i \<Rightarrow> (map strip_line mid)[i := ''enabled: '' @ show_bool ?b]
    | None \<Rightarrow> map strip_line mid @ [''enabled: '' @ show_bool ?b])"
    by (auto simp: mid'_def map_update split: option.split)
  ultimately show ?thesis using header_lines_shape [OF conjunct2 [OF new], of rest] by auto
qed

definition demo_lines :: "string list" where
  "demo_lines = [''// ---'', ''// name: a'', ''// match: [b]'', ''// ---'', ''f()'']"

definition demo_meta :: ScriptMeta where
  "demo_meta = \<lparr>sm_ID = [], sm_Name = ''a'', sm_Match = [''b''], sm_Enabled = None\<rparr>"

definition demo_fs :: "string list \<Rightarrow> fsys" where
  "demo_fs ls = \<lparr>fs_files = [(''d/a.js'', Join ls [nl])], fs_dirs = [''d''],
     fs_read_fault = (\<lambda>_. None), fs_write_fault = (\<lambda>_. None), fs_random = (\<lambda>_. ''01234567''), fs_drawn = 0\<rparr>"

lemma demo_delim [simp]: "is_delim ''// ---''" "\<not> is_delim ''// name: a''" "\<not> is_delim ''// match: [b]''"
  by code_simp+

lemma demo_read: "ReadFile ''d/a.js'' (demo_fs ls) = Inr (Join ls [nl])"
  by (simp add: ReadFile_def demo_fs_def)

lemma demo_split: "Split nl (Join (demo_lines @ ls) [nl]) = demo_lines @ ls" if "\<forall>l \<in> set ls. nl \<notin> set l"
  using that by (intro split_join_shape) (auto simp: demo_lines_def nl_def)

lemma demo_shape: "demo_lines @ ls = [] @ ''// ---'' # [''// name: a'', ''// match: [b]''] @ ''// ---'' # ''f()'' # ls"
  "file_shape [] ''// ---'' [''// name: a'', ''// match: [b]''] ''// ---''"
  by (simp_all add: demo_lines_def file_shape_def)

lemma demo_parse:
  assumes "\<forall>l \<in> set ls. nl \<notin> set l"
  shows "ParseHeader (\<lambda>_. Inr demo_meta) (Join (demo_lines @ ls) [nl]) = Inr (demo_meta, Join (''f()'' # ls) [nl])"
  using header_lines_shape [OF demo_shape(2), of "''f()'' # ls", folded demo_shape(1)]
  by (simp add: ParseHeader_def demo_split [OF assms] demo_meta_def)

theorem toggle_flips_header_witness:
  "\<exists>fs' out. ToggleEnabled (\<lambda>_. Inr demo_meta) ''d/a.js'' (demo_fs demo_lines) = (None, fs') \<and>
    ReadFile ''d/a.js'' fs' = Inr out \<and>
    header_lines (Split nl out) = Inr ([''name: a'', ''match: [b]'', ''enabled: false''], [''f()''])"
proof -
  have en: "\<not> is_enabled_line ''// name: a''" "\<not> is_enabled_line ''// match: [b]''" "\<not> is_enabled_line ''f()''"
    by code_simp+
  have no: "find_line is_enabled_line [''// name: a'', ''// match: [b]''] = None" by (simp add: en)
  have st: "map strip_line [''// name: a'', ''// match: [b]''] = [''name: a'', ''match: [b]'']" by code_simp
  from toggle_flips_header [OF demo_read demo_parse [of "[]", simplified] _ _ demo_shape(2), of "[''f()'']"]
    demo_split [of "[]"] demo_shape(1) [of "[]"] no en
  show ?thesis by (simp add: demo_fs_def st [simplified] IsEnabled_def demo_meta_def show_bool_def)
qed

text \<open>A script with no enabled line in its header but a comment line in its body that starts
  like one is not toggled: the operation reports success and rewrites the comment, and the
  header, and with it the enabled state, stays what it was.\<close>

theorem toggle_rewrites_body_comment:
  assumes "ReadFile path fs = Inr source" and "ParseHeader u source = Inr (meta, body)"
    and "fs_write_fault fs path = None"
    and "Split nl source = pre @ a # mid @ z # rest" and "file_shape pre a mid z"
    and "\<forall>l \<in> set (pre @ mid). \<not> is_enabled_line l" and "find_line is_enabled_line rest = Some i"
  shows "\<exists>fs' out body'. ToggleEnabled u path fs = (None, fs') \<and> ReadFile path fs' = Inr out \<and>
    ParseHeader u out = Inr (meta, body') \<and>
    body' = Join (rest[i := enabled_line (\<not> IsEnabled meta)]) [nl]"
proof -
  let ?rest = "rest[i := enabled_line (\<not> IsEnabled meta)]"
  let ?new = "pre @ a # mid @ z # ?rest"
  have new: "toggle_lines (\<not> IsEnabled meta) (Split nl source) = ?new"
    unfolding assms(4) by (rule toggle_lines_body [OF assms(5-7)])
  have "\<forall>l \<in> set ?new. nl \<notin> set l"
    using lines_no_nl [OF assms(4)] by (auto dest: set_update_subset_insert [THEN subsetD])
  from ToggleEnabled_written [OF assms(1-3) new _ this] obtain fs' out where
    t: "ToggleEnabled u path fs = (None, fs')" "ReadFile path fs' = Inr out" "Split nl out = ?new" by auto
  from assms(2) have "u (Join (map strip_line mid) [nl]) = Inr meta \<and> sm_Name meta \<noteq> [] \<and> sm_Match meta \<noteq> []"
    using header_lines_shape [OF assms(5), of rest]
    by (auto simp: ParseHeader_def assms(4) split: sum.splits if_splits)
  then have "ParseHeader u out = Inr (meta, Join ?rest [nl])"
    using header_lines_shape [OF assms(5), of ?rest] by (simp add: ParseHeader_def t(3))
  with t(1,2) show ?thesis by blast
qed

theorem toggle_rewrites_body_comment_witness:
  "\<exists>fs' out body'. ToggleEnabled (\<lambda>_. Inr demo_meta) ''d/a.js'' (demo_fs (demo_lines @ [''// enabled: why''])) = (None, fs') \<and>
    ReadFile ''d/a.js'' fs' = Inr out \<and> ParseHeader (\<lambda>_. Inr demo_meta) out = Inr (demo_meta, body')"
proof -
  have en: "\<not> is_enabled_line ''// name: a''" "\<not> is_enabled_line ''// match: [b]''" "\<not> is_enabled_line ''f()''"
    "is_enabled_line ''// enabled: why''" by code_simp+
  have nl: "\<forall>l \<in> set [''// enabled: why'']. nl \<notin> set l" by (simp add: nl_def)
  have "find_line is_enabled_line [''f()'', ''// enabled: why''] = Some 1" by (simp add: en)
  note fl = this
  have sp: "Split nl (Join (demo_lines @ [''// enabled: why'']) [nl]) = [] @ ''// ---'' #
      [''// name: a'', ''// match: [b]''] @ ''// ---'' # [''f()'', ''// enabled: why'']"
    using demo_split [OF nl] demo_shape(1) [of "[''// enabled: why'']"] by (simp only:)
  have wr: "fs_write_fault (demo_fs (demo_lines @ [''// enabled: why''])) ''d/a.js'' = None"
    by (simp add: demo_fs_def)
  have "\<forall>l \<in> set ([] @ [''// name: a'', ''// match: [b]'']). \<not> is_enabled_line l" using en by simp
  from toggle_rewrites_body_comment [OF demo_read demo_parse [OF nl] wr sp demo_shape(2) this fl]
  show ?thesis by blast
qed

text \<open>Back-filling a missing id writes a file whose header starts with the id line and is
  otherwise the old header, with the same body; metadata that has an id is left alone and the
  disk is not touched.\<close>

theorem ensure_id_backfills:
  assumes "header_lines (Split nl source) = Inr (ys, rest)" and "fs_write_fault fs path = None"
    and "fs_read_fault fs path = None" and "nl \<notin> set (fst (generateID fs))"
  shows "(sm_ID meta = [] \<longrightarrow> (\<exists>fs' out. let sid = fst (generateID fs) in
      ensureScriptID path meta source fs = (Inr (meta\<lparr>sm_ID := sid\<rparr>), fs') \<and>
      ReadFile path fs' = Inr out \<and> header_lines (Split nl out) = Inr ((''id: '' @ sid) # ys, rest))) \<and>
    (sm_ID meta \<noteq> [] \<longrightarrow> ensureScriptID path meta source fs = (Inr meta, fs))"
proof -
  from header_lines_Inr [OF assms(1)] obtain pre a mid z where
    d: "Split nl source = pre @ a # mid @ z # rest" "file_shape pre a mid z" "ys = map strip_line mid" .
  obtain sid fs1 where g: "generateID fs = (sid, fs1)" by (metis prod.exhaust)
  then have f: "fs_write_fault fs1 path = None" "fs_read_fault fs1 path = None" "nl \<notin> set sid"
    using assms by (auto simp: generateID_def)
  let ?new = "pre @ a # (''// id: '' @ sid) # mid @ z # rest"
  have sh: "file_shape pre a ((''// id: '' @ sid) # mid) z"
    using d(2) not_delim_id [of sid] unfolding file_shape_def by auto
  have "find_line is_delim (pre @ a # mid @ z # rest) = Some (length pre)"
    using d(2) by (auto simp: file_shape_def find_line_append)
  then have w: "with_id sid source = Some (Join ?new [nl])"
    by (simp add: with_id_def d(1) Let_def insert_at_def)
  have "nl \<notin> set ''// id: ''" by (simp add: nl_def)
  then have "\<forall>l \<in> set ?new. nl \<notin> set l" using lines_no_nl [OF d(1)] f(3) by auto
  then have sp: "Split nl (Join ?new [nl]) = ?new" by (rule split_join_shape) simp
  define out where "out = Join ?new [nl]"
  obtain fs2 where w2: "WriteFile path out fs1 = (None, fs2)" using f by (simp add: WriteFile_def)
  from read_after_write [OF f(1,2) w2] have rd: "ReadFile path fs2 = Inr out" .
  have "header_lines (Split nl out) = Inr ((''id: '' @ sid) # ys, rest)"
    using header_lines_shape [OF sh, of rest] unfolding sp out_def
    by (simp add: d(3) strip_line_def TrimPrefix_def)
  with rd w [folded out_def] w2 show ?thesis by (simp add: ensureScriptID_def g Let_def)
qed

theorem ensure_id_backfills_witness:
  "\<exists>fs' out. ensureScriptID ''d/a.js'' demo_meta (Join demo_lines [nl]) (demo_fs demo_lines) =
      (Inr (demo_meta\<lparr>sm_ID := ''3031323334353637''\<rparr>), fs') \<and> ReadFile ''d/a.js'' fs' = Inr out \<and>
    header_lines (Split nl out) = Inr ([''id: 3031323334353637'', ''name: a'', ''match: [b]''], [''f()''])"
proof -
  have g: "fst (generateID (demo_fs demo_lines)) = ''3031323334353637''"
    unfolding generateID_def demo_fs_def by code_simp
  have st: "map strip_line [''// name: a'', ''// match: [b]''] = [''name: a'', ''match: [b]'']" by code_simp
  have "header_lines (Split nl (Join demo_lines [nl])) = Inr ([''name: a'', ''match: [b]''], [''f()''])"
    using header_lines_shape [OF demo_shape(2), of "[''f()'']"] demo_split [of "[]"] demo_shape(1) [of "[]"] st
    by simp
  from ensure_id_backfills [OF this, of "demo_fs demo_lines" "''d/a.js''" demo_meta] g show ?thesis
    by (simp add: demo_fs_def demo_meta_def nl_def Let_def)
qed

end
