(* ===== verification/Config.thy ===== *)
theory Config
  imports Script_Header
begin

section \<open>Configuration (internal/config)\<close>

text \<open>
  The persistent settings: defaults, loading, saving, the MCP token with its migration from the
  old token file, and the override by command-line flags.  The JSON decoder and encoder are
  parameters; the file system is that of the script files, its random bytes included.  A file
  that is missing is told apart from one that cannot be read by \<open>fs_read_fault\<close>.
\<close>

record ProtoHostConfig =
  phc_Paths :: "string list"
  phc_Includes :: "string list"

record Config =
  cf_ProxyPort :: int
  cf_MCPEnabled :: bool
  cf_MCPAddr :: string
  cf_MCPToken :: string
  cf_BufferSize :: int
  cf_ThrottlePreset :: string
  cf_ListMode :: string
  cf_TreeGroupBy :: string
  cf_ProtoPaths :: "string list"
  cf_ProtoIncludes :: "string list"
  cf_ProtoHosts :: "(string \<times> ProtoHostConfig) list"

definition DefaultConfig :: Config where
  "DefaultConfig = \<lparr>cf_ProxyPort = 8080, cf_MCPEnabled = False, cf_MCPAddr = ''127.0.0.1:9551'',
     cf_MCPToken = [], cf_BufferSize = 10000, cf_ThrottlePreset = [], cf_ListMode = [],
     cf_TreeGroupBy = [], cf_ProtoPaths = [], cf_ProtoIncludes = [], cf_ProtoHosts = []\<rparr>"

definition applyDefaults :: "Config \<Rightarrow> Config" where
  "applyDefaults cfg =
     (let c1 = (if cf_ProxyPort cfg = 0 then cfg\<lparr>cf_ProxyPort := cf_ProxyPort DefaultConfig\<rparr> else cfg);
          c2 = (if cf_MCPAddr c1 = [] then c1\<lparr>cf_MCPAddr := cf_MCPAddr DefaultConfig\<rparr> else c1)
      in if cf_BufferSize c2 = 0 then c2\<lparr>cf_BufferSize := cf_BufferSize DefaultConfig\<rparr> else c2)"

definition config_path :: "string \<Rightarrow> string" where
  "config_path dataDir = path_join dataDir ''config.json''"

definition token_path :: "string \<Rightarrow> string" where
  "token_path dataDir = path_join dataDir ''mcp-token''"

definition Load :: "(string \<Rightarrow> Config or_err) \<Rightarrow> string \<Rightarrow> fsys \<Rightarrow> Config or_err" where
  "Load unmarshal dataDir fs =
     (let path = config_path dataDir
      in case ReadFile path fs of
           Inl e \<Rightarrow> if fs_read_fault fs path = None then Inr DefaultConfig else Inl (''read config: '' @ e)
         | Inr data \<Rightarrow> (case unmarshal data of Inl e \<Rightarrow> Inl (''parse config: '' @ e)
             | Inr cfg \<Rightarrow> Inr (applyDefaults cfg)))"

definition Save :: "(Config \<Rightarrow> string or_err) \<Rightarrow> Config \<Rightarrow> string \<Rightarrow> fsys \<Rightarrow> string option \<times> fsys" where
  "Save marshal c dataDir fs =
     (case EnsureScriptDir dataDir fs of (Some e, fs1) \<Rightarrow> (Some (''create data dir: '' @ e), fs1)
      | (None, fs1) \<Rightarrow>
         (case marshal c of Inl e \<Rightarrow> (Some (''marshal config: '' @ e), fs1)
          | Inr data \<Rightarrow>
             (case WriteFile (config_path dataDir) (data @ [nl]) fs1 of
                (Some e, fs2) \<Rightarrow> (Some (''write config: '' @ e), fs2) | (None, fs2) \<Rightarrow> (None, fs2))))"

definition LoadOrCreateToken :: "(Config \<Rightarrow> string or_err) \<Rightarrow> Config \<Rightarrow> string \<Rightarrow> fsys
    \<Rightarrow> string option \<times> Config \<times> fsys" where
  "LoadOrCreateToken marshal cfg dataDir fs =
     (if cf_MCPToken cfg \<noteq> [] then (None, cfg, fs)
      else let oldPath = token_path dataDir;
               tok = (case ReadFile oldPath fs of Inr data \<Rightarrow> TrimSpace data | Inl _ \<Rightarrow> [])
           in if tok \<noteq> []
              then let cfg1 = cfg\<lparr>cf_MCPToken := tok\<rparr>;
                       fs1 = snd (RemoveFile oldPath fs);
                       (err, fs2) = Save marshal cfg1 dataDir fs1
                   in (err, cfg1, fs2)
              else let cfg1 = cfg\<lparr>cf_MCPToken := hex_encode (take 32 (fs_random fs (fs_drawn fs)))\<rparr>;
                       (err, fs2) = Save marshal cfg1 dataDir (fs\<lparr>fs_drawn := fs_drawn fs + 1\<rparr>)
                   in (err, cfg1, fs2))"

definition mustInt :: "string \<Rightarrow> int" where
  "mustInt s = Atoi_value s"

text \<open>One flag that was set on the command line, with its value's text.\<close>

definition apply_flag :: "string \<times> string \<Rightarrow> Config \<Rightarrow> Config" where
  "apply_flag f cfg = (case f of (name, v) \<Rightarrow>
     if name = ''port'' then cfg\<lparr>cf_ProxyPort := mustInt v\<rparr>
     else if name = ''buffer-size'' then cfg\<lparr>cf_BufferSize := mustInt v\<rparr>
     else if name = ''mcp'' then cfg\<lparr>cf_MCPEnabled := (v = ''true'')\<rparr>
     else if name = ''mcp-addr'' then cfg\<lparr>cf_MCPAddr := v\<rparr>
     else if name = ''throttle'' then cfg\<lparr>cf_ThrottlePreset := v\<rparr>
     else cfg)"

definition ApplyFlags :: "Config \<Rightarrow> (string \<times> string) list \<Rightarrow> Config" where
  "ApplyFlags cfg visited = fold apply_flag visited cfg"

subsection \<open>Properties\<close>

lemma applyDefaults_idem: "applyDefaults (applyDefaults c) = applyDefaults c"
  by (simp add: applyDefaults_def DefaultConfig_def Let_def)

lemma applyDefaults_keeps:
  "cf_ProxyPort c \<noteq> 0 \<Longrightarrow> cf_MCPAddr c \<noteq> [] \<Longrightarrow> cf_BufferSize c \<noteq> 0 \<Longrightarrow> applyDefaults c = c"
  by (simp add: applyDefaults_def Let_def)

lemma EnsureScriptDir_faults:
  "EnsureScriptDir d fs = (r, fs') \<Longrightarrow> fs_write_fault fs' = fs_write_fault fs \<and>
   fs_read_fault fs' = fs_read_fault fs \<and> fs_files fs' = fs_files fs"
  by (auto simp: EnsureScriptDir_def split: option.splits)

lemma Save_then_read:
  assumes "Save marshal c d fs = (None, fs')" and "fs_read_fault fs (config_path d) = None"
  obtains data where "marshal c = Inr data" "ReadFile (config_path d) fs' = Inr (data @ [nl])"
proof -
  obtain fs1 data where s: "EnsureScriptDir d fs = (None, fs1)" "marshal c = Inr data"
    "WriteFile (config_path d) (data @ [nl]) fs1 = (None, fs')"
    using assms(1) by (auto simp: Save_def split: prod.splits option.splits sum.splits)
  have "fs_write_fault fs1 (config_path d) = None"
    using s(3) by (auto simp: WriteFile_def split: option.splits)
  moreover have "fs_read_fault fs1 (config_path d) = None"
    using EnsureScriptDir_faults [OF s(1)] assms(2) by simp
  ultimately show ?thesis using read_after_write s that by blast
qed

text \<open>A saved configuration loads back unchanged, except that a zero port, a zero buffer size
  and an empty MCP address become the defaults; loading and defaulting again changes nothing.\<close>

theorem config_roundtrip:
  assumes "Save marshal c d fs = (None, fs')" and "fs_read_fault fs (config_path d) = None"
    and "\<forall>t. marshal c = Inr t \<longrightarrow> unmarshal (t @ [nl]) = Inr c"
  shows "Load unmarshal d fs' = Inr (applyDefaults c) \<and> applyDefaults (applyDefaults c) = applyDefaults c \<and>
    (cf_ProxyPort c \<noteq> 0 \<and> cf_MCPAddr c \<noteq> [] \<and> cf_BufferSize c \<noteq> 0 \<longrightarrow> Load unmarshal d fs' = Inr c)"
proof -
  from Save_then_read [OF assms(1,2)] obtain data where
    "marshal c = Inr data" "ReadFile (config_path d) fs' = Inr (data @ [nl])" .
  with assms(3) have "Load unmarshal d fs' = Inr (applyDefaults c)" by (simp add: Load_def Let_def)
  then show ?thesis by (simp add: applyDefaults_idem applyDefaults_keeps)
qed

theorem config_roundtrip_witness:
  "\<exists>fs'. Save (\<lambda>_. Inr ''x'') DefaultConfig ''d'' (demo_fs []) = (None, fs') \<and>
    Load (\<lambda>_. Inr DefaultConfig) ''d'' fs' = Inr DefaultConfig"
proof -
  obtain fs' where s: "Save (\<lambda>_. Inr ''x'') DefaultConfig ''d'' (demo_fs []) = (None, fs')"
    by (simp add: Save_def EnsureScriptDir_def WriteFile_def demo_fs_def)
  have nz: "cf_ProxyPort DefaultConfig \<noteq> 0" "cf_MCPAddr DefaultConfig \<noteq> []" "cf_BufferSize DefaultConfig \<noteq> 0"
    by (simp_all add: DefaultConfig_def)
  have "fs_read_fault (demo_fs []) (config_path ''d'') = None" by (simp add: demo_fs_def)
  from config_roundtrip [OF s this, of "\<lambda>_. Inr DefaultConfig"] s nz show ?thesis by auto
qed

lemma mustInt_Itoa: "- (2 ^ 63) \<le> i \<Longrightarrow> i < 2 ^ 63 \<Longrightarrow> mustInt (Itoa i) = i"
  by (simp add: mustInt_def Atoi_value_Some [OF Atoi_Itoa])

text \<open>Only flags given on the command line override the configuration: a visited port flag
  sets the port to its number, and a flag that was not visited leaves its field alone.\<close>

theorem flags_override_only_visited:
  assumes "distinct (map fst visited)" and "- (2 ^ 63) \<le> p" and "p < 2 ^ 63"
  shows "((''port'', Itoa p) \<in> set visited \<longrightarrow> cf_ProxyPort (ApplyFlags cfg visited) = p) \<and>
    (''port'' \<notin> fst ` set visited \<longrightarrow> cf_ProxyPort (ApplyFlags cfg visited) = cf_ProxyPort cfg) \<and>
    (''buffer-size'' \<notin> fst ` set visited \<longrightarrow> cf_BufferSize (ApplyFlags cfg visited) = cf_BufferSize cfg) \<and>
    (''throttle'' \<notin> fst ` set visited \<longrightarrow> cf_ThrottlePreset (ApplyFlags cfg visited) = cf_ThrottlePreset cfg) \<and>
    cf_MCPToken (ApplyFlags cfg visited) = cf_MCPToken cfg"
proof -
  have keep: "(''port'' \<notin> fst ` set vs \<longrightarrow> cf_ProxyPort (fold apply_flag vs c) = cf_ProxyPort c) \<and>
    (''buffer-size'' \<notin> fst ` set vs \<longrightarrow> cf_BufferSize (fold apply_flag vs c) = cf_BufferSize c) \<and>
    (''throttle'' \<notin> fst ` set vs \<longrightarrow> cf_ThrottlePreset (fold apply_flag vs c) = cf_ThrottlePreset c) \<and>
    cf_MCPToken (fold apply_flag vs c) = cf_MCPToken c" for vs c
    by (induction vs arbitrary: c) (auto simp: apply_flag_def)
  have "cf_ProxyPort (ApplyFlags cfg visited) = p" if m: "(''port'', Itoa p) \<in> set visited"
  proof -
    from m obtain as bs where v: "visited = as @ (''port'', Itoa p) # bs" by (metis split_list)
    with assms(1) have "''port'' \<notin> fst ` set bs" by auto
    then show ?thesis
      using keep [of bs] mustInt_Itoa [OF assms(2,3)] by (simp add: ApplyFlags_def v apply_flag_def)
  qed
  with keep show ?thesis by (simp add: ApplyFlags_def)
qed

theorem flags_override_only_visited_witness:
  "cf_ProxyPort (ApplyFlags DefaultConfig [(''mcp'', ''true''), (''port'', Itoa 9090)]) = 9090"
  using flags_override_only_visited [of "[(''mcp'', ''true''), (''port'', Itoa 9090)]" 9090] by simp

text \<open>A token, once there, is kept; an old token file is migrated with its text trimmed and
  removed; and when the save that follows fails the file is gone all the same, so the next
  start, which reads the old configuration, makes a different token.\<close>

theorem token_migration:
  assumes "cf_MCPToken cfg = []" and "ReadFile (token_path d) fs = Inr data" and "TrimSpace data \<noteq> []"
    and "fs_write_fault fs (token_path d) = None" and "fs_write_fault fs d = None"
  shows "\<exists>err fs'. LoadOrCreateToken marshal cfg d fs = (err, cfg\<lparr>cf_MCPToken := TrimSpace data\<rparr>, fs') \<and>
    map_of (fs_files fs') (token_path d) = None \<and>
    (fs_write_fault fs (config_path d) \<noteq> None \<longrightarrow> err \<noteq> None \<and>
       map_of (fs_files fs') (config_path d) = map_of (fs_files fs) (config_path d)) \<and>
    (err = None \<longrightarrow> LoadOrCreateToken marshal (cfg\<lparr>cf_MCPToken := TrimSpace data\<rparr>) d fs' =
       (None, cfg\<lparr>cf_MCPToken := TrimSpace data\<rparr>, fs'))"
proof -
  have m: "map_of (fs_files fs) (token_path d) = Some data"
    using assms(2) by (auto simp: ReadFile_def split: option.splits)
  define fs1 where "fs1 = fs\<lparr>fs_files := AList.delete (token_path d) (fs_files fs)\<rparr>"
  have rm: "snd (RemoveFile (token_path d) fs) = fs1" using m assms(4) by (simp add: RemoveFile_def fs1_def)
  have ne: "token_path d \<noteq> config_path d" by (simp add: token_path_def config_path_def path_join_def)
  define fs2 where "fs2 = fs1\<lparr>fs_dirs := List.insert d (fs_dirs fs1)\<rparr>"
  have en: "EnsureScriptDir d fs1 = (None, fs2)" using assms(5) by (simp add: EnsureScriptDir_def fs1_def fs2_def)
  obtain err fs' where sv: "Save marshal (cfg\<lparr>cf_MCPToken := TrimSpace data\<rparr>) d fs1 = (err, fs')" by (metis prod.exhaust)
  have files: "fs_files fs' = fs_files fs1 \<or> (\<exists>t. fs_files fs' = AList.update (config_path d) t (fs_files fs1))"
    using sv by (auto simp: Save_def en WriteFile_def fs2_def split: sum.splits option.splits)
  then have "map_of (fs_files fs') (token_path d) = None"
    using ne by (auto simp: fs1_def delete_conv' update_conv')
  moreover have "err \<noteq> None \<and> map_of (fs_files fs') (config_path d) = map_of (fs_files fs) (config_path d)"
    if "fs_write_fault fs (config_path d) \<noteq> None"
  proof -
    have f2: "fs_write_fault fs2 = fs_write_fault fs" "fs_files fs2 = AList.delete (token_path d) (fs_files fs)"
      by (simp_all add: fs2_def fs1_def)
    have "err \<noteq> None \<and> fs' = fs2"
      using sv that by (auto simp: Save_def en WriteFile_def f2(1) split: sum.splits)
    with ne show ?thesis by (simp add: f2 delete_conv')
  qed
  moreover have "LoadOrCreateToken marshal cfg d fs = (err, cfg\<lparr>cf_MCPToken := TrimSpace data\<rparr>, fs')"
    using assms(1-3) by (simp add: LoadOrCreateToken_def Let_def rm sv)
  ultimately show ?thesis using assms(3) by (auto simp: LoadOrCreateToken_def)
qed

theorem token_migration_witness:
  "\<exists>err fs'. LoadOrCreateToken (\<lambda>_. Inr []) DefaultConfig ''d''
     ((demo_fs [])\<lparr>fs_files := [(''d/mcp-token'', '' tok '')]\<rparr>) = (err, DefaultConfig\<lparr>cf_MCPToken := ''tok''\<rparr>, fs')"
proof -
  have t: "TrimSpace '' tok '' = ''tok''" by code_simp
  have p: "token_path ''d'' = ''d/mcp-token''" by (simp add: token_path_def path_join_def)
  from token_migration [of DefaultConfig "''d''" "(demo_fs [])\<lparr>fs_files := [(''d/mcp-token'', '' tok '')]\<rparr>" "'' tok ''" "\<lambda>_. Inr []"]
  show ?thesis by (simp add: t p DefaultConfig_def ReadFile_def demo_fs_def) blast
qed

end
