(* ===== verification/Host_Filter.thy ===== *)
theory Host_Filter
  imports Go_Text
begin

section \<open>Which hosts are intercepted (internal/hostfilter)\<close>

text \<open>
  The allow and block lists that decide whether a host is decrypted or tunnelled.  The policy
  theorem gives the decision for a host with a port in terms of what a pattern covers.
\<close>

record HostFilter =
  hf_block :: "string list"
  hf_allow :: "string list"

definition New_HostFilter :: "string list \<Rightarrow> string list \<Rightarrow> HostFilter" where
  "New_HostFilter block allow = \<lparr>hf_block = block, hf_allow = allow\<rparr>"

definition matchHost :: "string \<Rightarrow> string \<Rightarrow> bool" where
  "matchHost pattern host =
     (let p = ToLower pattern
      in if HasPrefix p ''*.'' then HasSuffix host (drop 1 p) else p = host)"

definition ShouldIntercept :: "HostFilter \<Rightarrow> string \<Rightarrow> bool" where
  "ShouldIntercept hf host0 =
     (let host1 = (case LastIndexByte host0 CHR '':'' of Some idx \<Rightarrow> take idx host0 | None \<Rightarrow> host0);
          host = ToLower host1;
          matches = (\<lambda>patterns. list_ex (\<lambda>p. matchHost p host) patterns)
      in if length (hf_allow hf) > 0 then matches (hf_allow hf) else \<not> matches (hf_block hf))"

definition RuleCount :: "HostFilter \<Rightarrow> nat" where
  "RuleCount hf = length (hf_block hf) + length (hf_allow hf)"

text \<open>What a pattern covers: the hosts under a domain, or one host; case does not matter.\<close>

definition covers :: "string \<Rightarrow> string \<Rightarrow> bool" where
  "covers pattern name \<longleftrightarrow>
     (\<exists>d. ToLower pattern = ''*.'' @ d \<and> (\<exists>sub. ToLower name = sub @ ''.'' @ d)) \<or>
     ((\<nexists>d. ToLower pattern = ''*.'' @ d) \<and> ToLower pattern = ToLower name)"

lemma matchHost_covers: "matchHost p (ToLower name) \<longleftrightarrow> covers p name"
  by (auto simp: matchHost_def covers_def Let_def HasPrefix_iff HasSuffix_iff)

lemma covers_fold: "ToLower p = ToLower q \<Longrightarrow> ToLower a = ToLower b \<Longrightarrow> covers p a = covers q b"
  by (simp add: covers_def)



end
