(* ===== verification/Throttle.thy ===== *)
theory Throttle
  imports Go_Text
begin

section \<open>Bandwidth throttling (internal/throttle)\<close>

text \<open>
  The presets and the throttled reader.  The wrapped io.Reader is a parameter that maps its
  state and the size of the buffer to the number of bytes read, its error, its new state and
  the time it took; the clock is explicit, in nanoseconds, and a Sleep advances it.  The
  floating-point expression for the time that a number of bytes should take is the parameter
  \<open>expected_dur\<close> (bytes, then bytes per second).
\<close>

definition PresetBandwidth :: "string \<Rightarrow> int" where
  "PresetBandwidth name =
     (let n = ToLower name
      in if n = ''3g'' then 93750 else if n = ''4g'' then 500000
         else if n = ''wifi'' then 3750000 else 0)"

record 'io Reader =
  r_inner :: 'io
  r_bps :: int
  r_latency :: int
  r_started :: bool
  r_bytesRead :: int
  r_startTime :: int

definition NewReader :: "'io \<Rightarrow> int \<Rightarrow> int \<Rightarrow> 'io Reader" where
  "NewReader r bps latency = \<lparr>r_inner = r, r_bps = bps, r_latency = latency, r_started = False,
     r_bytesRead = 0, r_startTime = 0\<rparr>"

record 'io read_result =
  rr_n :: int
  rr_err :: "string option"
  rr_inner :: 'io
  rr_took :: int

type_synonym 'io read_fn = "'io \<Rightarrow> nat \<Rightarrow> 'io read_result"

text \<open>The first call of \<open>Read\<close> stamps the start and sleeps for the latency.\<close>

definition start_read :: "int \<Rightarrow> 'io Reader \<Rightarrow> 'io Reader \<times> int" where
  "start_read clock r =
     (if \<not> r_started r
      then (r\<lparr>r_started := True, r_startTime := clock\<rparr>,
            if r_latency r > 0 then clock + r_latency r else clock)
      else (r, clock))"

text \<open>\<open>Read\<close> takes the length of the caller's buffer and the clock and returns the count, the
  error, the reader and the clock at its return.\<close>

definition Read :: "(int \<Rightarrow> int \<Rightarrow> int) \<Rightarrow> 'io read_fn \<Rightarrow> nat \<Rightarrow> int \<Rightarrow> 'io Reader
    \<Rightarrow> int \<times> string option \<times> 'io Reader \<times> int" where
  "Read expected_dur inner_read len clock r =
     (case start_read clock r of (r1, t1) \<Rightarrow>
        if r_bps r1 \<le> 0
        then (let x = inner_read (r_inner r1) len
              in (rr_n x, rr_err x, r1\<lparr>r_inner := rr_inner x\<rparr>, t1 + rr_took x))
        else (let chunk = max (r_bps r1 div 10) 1;
                  len' = (if int len > chunk then nat chunk else len);
                  x = inner_read (r_inner r1) len';
                  t2 = t1 + rr_took x;
                  r2 = r1\<lparr>r_inner := rr_inner x, r_bytesRead := r_bytesRead r1 + rr_n x\<rparr>;
                  expectedDur = expected_dur (r_bytesRead r2) (r_bps r2);
                  actualDur = t2 - r_startTime r2
              in (rr_n x, rr_err x, r2,
                  if expectedDur > actualDur then t2 + (expectedDur - actualDur) else t2)))"

text \<open>A run of reads, with the pauses of the caller between them.\<close>

fun read_run :: "(int \<Rightarrow> int \<Rightarrow> int) \<Rightarrow> 'io read_fn \<Rightarrow> (nat \<times> int) list \<Rightarrow> int \<Rightarrow> 'io Reader
    \<Rightarrow> int list \<times> 'io Reader \<times> int" where
  "read_run ed f [] clock r = ([], r, clock)"
| "read_run ed f ((len, idle) # ls) clock r =
     (let (n, e, r1, t1) = Read ed f len clock r;
          (ns, r2, t2) = read_run ed f ls (t1 + idle) r1
      in (n # ns, r2, t2))"

text \<open>What io.Reader documents: at most the buffer is filled, and time does not go back.\<close>

definition io_reader :: "'io read_fn \<Rightarrow> bool" where
  "io_reader f \<longleftrightarrow> (\<forall>s len. 0 \<le> rr_n (f s len) \<and> rr_n (f s len) \<le> int len \<and> 0 \<le> rr_took (f s len))"

lemma io_readerD:
  assumes "io_reader f"
  shows "0 \<le> rr_n (f s len)" "rr_n (f s len) \<le> int len" "0 \<le> rr_took (f s len)"
  using assms by (auto simp: io_reader_def)

definition on_time :: "(int \<Rightarrow> int \<Rightarrow> int) \<Rightarrow> int \<Rightarrow> 'io Reader \<Rightarrow> int \<Rightarrow> bool" where
  "on_time ed t0 r clock \<longleftrightarrow> r_started r \<and> r_startTime r = t0 \<and> t0 + r_latency r \<le> clock \<and>
     (0 < r_bps r \<longrightarrow> r_bytesRead r = 0 \<or> t0 + ed (r_bytesRead r) (r_bps r) \<le> clock)"

lemma start_read_cases:
  assumes "start_read clock r = (r1, t1)"
  shows "r_bps r1 = r_bps r" "r_latency r1 = r_latency r" "r_bytesRead r1 = r_bytesRead r" "clock \<le> t1"
    "r_started r1" "\<not> r_started r \<Longrightarrow> r_startTime r1 = clock \<and> clock + r_latency r \<le> t1"
    "r_started r \<Longrightarrow> r1 = r \<and> t1 = clock"
  using assms by (auto simp: start_read_def split: if_splits)

lemma Read_limited:
  assumes "io_reader f" and "Read ed f len clock r = (n, e, r', t)" and "0 < r_bps r"
    and "start_read clock r = (r1, t1)"
  shows "0 \<le> n \<and> n \<le> max (r_bps r div 10) 1 \<and> r_bytesRead r' = r_bytesRead r + n \<and>
    r_bps r' = r_bps r \<and> r_latency r' = r_latency r \<and> r_started r' \<and>
    r_startTime r' = r_startTime r1 \<and> t1 \<le> t \<and> r_startTime r1 + ed (r_bytesRead r') (r_bps r) \<le> t"
proof -
  note S = start_read_cases [OF assms(4)]
  let ?chunk = "max (r_bps r div 10) 1"
  let ?len = "if int len > ?chunk then nat ?chunk else len"
  let ?x = "f (r_inner r1) ?len"
  have len: "int ?len \<le> ?chunk" by auto
  define x where "x = ?x"
  have bps: "\<not> r_bps r1 \<le> 0" using assms(3) S(1) by simp
  have "(n, e, r', t) = Read ed f len clock r" using assms(2) by simp
  also have "\<dots> = (let r2 = r1\<lparr>r_inner := rr_inner x, r_bytesRead := r_bytesRead r + rr_n x\<rparr>;
        ex = ed (r_bytesRead r + rr_n x) (r_bps r); ac = t1 + rr_took x - r_startTime r1
      in (rr_n x, rr_err x, r2, if ex > ac then t1 + rr_took x + (ex - ac) else t1 + rr_took x))"
    unfolding Read_def assms(4) prod.case Let_def x_def if_not_P [OF bps] by (simp add: S(1,3))
  finally have n: "n = rr_n x" "r' = r1\<lparr>r_inner := rr_inner x, r_bytesRead := r_bytesRead r + rr_n x\<rparr>"
    and t: "t = max (t1 + rr_took x) (r_startTime r1 + ed (r_bytesRead r + rr_n x) (r_bps r))"
    by (simp_all add: Let_def)
  have "rr_n x \<le> ?chunk"
    using io_readerD(2) [OF assms(1), of "r_inner r1" ?len] len unfolding x_def by linarith
  moreover have "0 \<le> rr_n x" "0 \<le> rr_took x" using io_readerD(1,3) [OF assms(1)] by (simp_all add: x_def)
  ultimately show ?thesis using n t S(1,2,5) by simp
qed


definition zeros :: "unit read_fn" where
  "zeros s len = \<lparr>rr_n = int len, rr_err = None, rr_inner = (), rr_took = 0\<rparr>"


end
