(* ===== verification/Script_Engine.thy ===== *)
theory Script_Engine
  imports Script_Header Breakpoint
begin

section \<open>Running scripts (internal/scripting/scripting.go, manager.go)\<close>

text \<open>
  The script engine around the JavaScript interpreter goja.  The interpreter is a parameter
  (the record \<open>goja\<close>): loading a source gives an error, a Go panic, no handler, or a handler.
  A handler applied to its context object is a tree of the calls it makes to the functions the
  engine injects (breakpoint, respondWith, readFile), which are modelled from the engine's
  code, ending in a return, a JavaScript exception or a Go panic.  An object is the list of
  its properties.
\<close>

subsection \<open>JavaScript values and the interpreter\<close>

datatype jsval = JUndef | JNull | JBool bool | JNum int | JStr string | JObj "(string \<times> jsval) list"

type_synonym jsobj = "(string \<times> jsval) list"

datatype js_run =
  JReturn jsobj
| JThrow string
| JPanic string
| JBreakpoint jsobj "jsobj \<Rightarrow> js_run"
| JRespondWith "jsval list" jsobj "jsobj \<Rightarrow> js_run"
| JReadFile "jsval list" jsobj "jsval \<Rightarrow> js_run"

datatype js_load = LoadError string | LoadPanic string | LoadNoHandler | LoadHandler "jsobj \<Rightarrow> js_run"

text \<open>
  The outside world of the engine: goja (compile check, load, and the conversions String,
  ToBoolean, ToInteger and ToObject of a value), url.Parse (host and path of a URL that
  parses), the rooted file read of os.Root, the MIME type of an extension, and the YAML decoder.
\<close>

record goja =
  gj_compile :: "string \<Rightarrow> string \<Rightarrow> string option"
  gj_load :: "string \<Rightarrow> string \<Rightarrow> js_load"
  gj_str :: "jsval \<Rightarrow> string"
  gj_bool :: "jsval \<Rightarrow> bool"
  gj_int :: "jsval \<Rightarrow> int"
  gj_obj :: "jsval \<Rightarrow> jsobj"
  gj_hostpath :: "string \<Rightarrow> string option"
  gj_root_read :: "string \<Rightarrow> string \<Rightarrow> string option"
  gj_mime :: "string \<Rightarrow> string"
  gj_yaml :: yaml

text \<open>The documented conversions of values to their own type.\<close>

definition goja_ok :: "goja \<Rightarrow> bool" where
  "goja_ok gj \<longleftrightarrow> (\<forall>s. gj_str gj (JStr s) = s) \<and> (\<forall>b. gj_bool gj (JBool b) = b) \<and>
     (\<forall>n. gj_int gj (JNum n) = n) \<and> (\<forall>ob. gj_obj gj (JObj ob) = ob)"

definition js_set :: "string \<Rightarrow> jsval \<Rightarrow> jsobj \<Rightarrow> jsobj" where
  "js_set k v ob = AList.update k v ob"

text \<open>A property that is there and not undefined.\<close>

definition js_defined :: "jsobj \<Rightarrow> string \<Rightarrow> jsval option" where
  "js_defined ob k = (case map_of ob k of None \<Rightarrow> None | Some JUndef \<Rightarrow> None | Some v \<Rightarrow> Some v)"

subsection \<open>State\<close>

record RequestContext =
  rc_Method :: string
  rc_URL :: string
  rc_Headers :: header
  rc_Body :: string
  rc_Blocked :: bool
  rc_Meta :: FlowMeta
  rc_Responded :: bool
  rc_ResponseStatus :: int
  rc_ResponseHeaders :: "(string \<times> string) list"
  rc_ResponseBody :: string

record ResponseContext =
  pc_Status :: int
  pc_Headers :: header
  pc_Body :: string
  pc_Meta :: FlowMeta
  pc_Responded :: bool
  pc_ResponseStatus :: int
  pc_ResponseHeaders :: "(string \<times> string) list"
  pc_ResponseBody :: string

record script =
  s_name :: string
  s_source :: string
  s_urlPattern :: string
  s_meta :: "ScriptMeta option"
  s_filePath :: string
  s_fromDir :: bool

text \<open>The controller is what \<open>Pause\<close> of it answers to a hit; \<open>None\<close> is a nil controller.\<close>

record Engine =
  e_scripts :: "script list"
  e_errors :: "string list"
  e_breakpointCtrl :: "(BreakpointHit \<Rightarrow> BreakpointResume) option"

definition NewEngine :: Engine where
  "NewEngine = \<lparr>e_scripts = [], e_errors = [], e_breakpointCtrl = None\<rparr>"

definition SetBreakpointController :: "(BreakpointHit \<Rightarrow> BreakpointResume) option \<Rightarrow> Engine \<Rightarrow> Engine" where
  "SetBreakpointController ctrl e = e\<lparr>e_breakpointCtrl := ctrl\<rparr>"

definition LoadScript :: "goja \<Rightarrow> string \<Rightarrow> string \<Rightarrow> string \<Rightarrow> Engine \<Rightarrow> string option \<times> Engine" where
  "LoadScript gj name source urlPattern e =
     (case gj_compile gj name source of Some err \<Rightarrow> (Some (''compile '' @ name @ '': '' @ err), e)
      | None \<Rightarrow> (None, e\<lparr>e_scripts := e_scripts e @ [\<lparr>s_name = name, s_source = source,
          s_urlPattern = urlPattern, s_meta = None, s_filePath = [], s_fromDir = False\<rparr>]\<rparr>))"

definition Errors :: "Engine \<Rightarrow> string list" where
  "Errors e = e_errors e"

definition recordError :: "string \<Rightarrow> string \<Rightarrow> Engine \<Rightarrow> Engine" where
  "recordError name msg e = e\<lparr>e_errors := e_errors e @ [''['' @ name @ ''] '' @ msg]\<rparr>"

definition matchesURL :: "goja \<Rightarrow> script \<Rightarrow> string \<Rightarrow> bool" where
  "matchesURL gj s url = (case s_meta s of Some m \<Rightarrow> GlobMatchAny (sm_Match m) url
     | None \<Rightarrow> if s_urlPattern s = [] then True else matchURL (gj_hostpath gj) (s_urlPattern s) url)"

subsection \<open>Headers to JavaScript and back\<close>

definition headersToJS :: "header \<Rightarrow> jsobj" where
  "headersToJS h = map (\<lambda>k. (k, JStr (HGet h k))) (header_keys h)"

text \<open>The headers object of a context, unless it is missing, undefined or null.\<close>

definition headers_obj :: "goja \<Rightarrow> jsobj \<Rightarrow> jsobj option" where
  "headers_obj gj ctx = (case js_defined ctx ''headers'' of None \<Rightarrow> None | Some JNull \<Rightarrow> None
     | Some v \<Rightarrow> Some (gj_obj gj v))"

definition jsHeadersToMap :: "goja \<Rightarrow> jsobj \<Rightarrow> (string \<times> string) list" where
  "jsHeadersToMap gj ctx = (case headers_obj gj ctx of None \<Rightarrow> []
     | Some ob \<Rightarrow> map (\<lambda>(k, v). (k, gj_str gj v)) ob)"

definition readBackHeaders :: "goja \<Rightarrow> jsobj \<Rightarrow> header \<Rightarrow> header" where
  "readBackHeaders gj ctx h = (case headers_obj gj ctx of None \<Rightarrow> h
     | Some ob \<Rightarrow> fold (\<lambda>(k, v) h. HSet k (gj_str gj v) h) ob h)"

subsection \<open>Files named by scripts\<close>

fun clean_comps :: "bool \<Rightarrow> string list \<Rightarrow> string list \<Rightarrow> string list" where
  "clean_comps rooted acc [] = rev acc"
| "clean_comps rooted acc (c # cs) =
     (if c = [] \<or> c = ''.'' then clean_comps rooted acc cs
      else if c = ''..'' then
        (case acc of [] \<Rightarrow> clean_comps rooted (if rooted then [] else [c]) cs
         | a # as \<Rightarrow> clean_comps rooted (if a = ''..'' then c # acc else as) cs)
      else clean_comps rooted (c # acc) cs)"

definition path_Clean :: "string \<Rightarrow> string" where
  "path_Clean p =
     (let rooted = HasPrefix p ''/'';
          r = (if rooted then ''/'' else []) @ Join (clean_comps rooted [] (Split CHR ''/'' p)) ''/''
      in if r = [] then ''.'' else r)"

definition path_Dir :: "string \<Rightarrow> string" where
  "path_Dir p = path_Clean (case LastIndexByte p CHR ''/'' of None \<Rightarrow> [] | Some i \<Rightarrow> take (i + 1) p)"

definition path_Base :: "string \<Rightarrow> string" where
  "path_Base p =
     (if p = [] then ''.''
      else let q = rev (dropWhile (\<lambda>c. c = CHR ''/'') (rev p))
           in if q = [] then ''/''
              else (case LastIndexByte q CHR ''/'' of None \<Rightarrow> q | Some i \<Rightarrow> drop (i + 1) q))"

definition path_Ext :: "string \<Rightarrow> string" where
  "path_Ext p = (let q = (case LastIndexByte p CHR ''/'' of None \<Rightarrow> p | Some i \<Rightarrow> drop (i + 1) p)
     in case LastIndexByte q CHR ''.'' of None \<Rightarrow> [] | Some i \<Rightarrow> drop i q)"

definition safeReadFile :: "goja \<Rightarrow> string \<Rightarrow> string \<Rightarrow> string option" where
  "safeReadFile gj rootDir path =
     (if HasPrefix path ''/'' then gj_root_read gj (path_Dir path) (path_Base path)
      else gj_root_read gj (if rootDir = [] then ''.'' else rootDir) path)"

definition scriptDirFromCtx :: "goja \<Rightarrow> jsobj \<Rightarrow> string" where
  "scriptDirFromCtx gj ctx = (case js_defined ctx ''_scriptDir'' of Some v \<Rightarrow> gj_str gj v | None \<Rightarrow> [])"

subsection \<open>The injected functions\<close>

definition host_readFile :: "goja \<Rightarrow> jsval list \<Rightarrow> jsobj \<Rightarrow> jsval" where
  "host_readFile gj args ctx = (case args of [] \<Rightarrow> JNull
     | a # _ \<Rightarrow> (case safeReadFile gj (scriptDirFromCtx gj ctx) (gj_str gj a) of
         None \<Rightarrow> JNull | Some d \<Rightarrow> JStr d))"

definition injectReadFile :: "string \<Rightarrow> jsobj \<Rightarrow> jsobj" where
  "injectReadFile scriptFilePath ctx =
     (if scriptFilePath \<noteq> [] then js_set ''_scriptDir'' (JStr (path_Dir scriptFilePath)) ctx else ctx)"

definition host_breakpoint :: "goja \<Rightarrow> (BreakpointHit \<Rightarrow> BreakpointResume) option \<Rightarrow> FlowMeta \<Rightarrow> Phase
    \<Rightarrow> jsobj \<Rightarrow> jsobj" where
  "host_breakpoint gj ctrl meta phase ctx =
     (case ctrl of None \<Rightarrow> ctx
      | Some pause \<Rightarrow>
         let hit = \<lparr>bh_FlowID = fm_ID meta, bh_Phase = phase, bh_Headers = jsHeadersToMap gj ctx,
               bh_Body = (case js_defined ctx ''body'' of None \<Rightarrow> [] | Some v \<Rightarrow> gj_str gj v),
               bh_Meta = meta\<rparr>;
             resp = pause hit
         in if br_Skipped resp then ctx
            else let ctx1 = (case js_defined ctx ''headers'' of None \<Rightarrow> ctx
                       | Some v \<Rightarrow> if br_Headers resp = [] then ctx
                           else js_set ''headers''
                             (JObj (fold (\<lambda>(k, x). js_set k (JStr x)) (br_Headers resp) (gj_obj gj v))) ctx)
                 in case br_Body resp of None \<Rightarrow> ctx1 | Some b \<Rightarrow> js_set ''body'' (JStr b) ctx1)"

text \<open>\<open>respondWith\<close>: the new context, and whether the response was recorded.\<close>

definition respond_options :: "goja \<Rightarrow> jsobj \<Rightarrow> jsobj \<Rightarrow> (string \<times> (string \<times> string) list option) option" where
  "respond_options gj opts ctx =
     (case js_defined opts ''file'' of
        Some f \<Rightarrow>
          (let path = gj_str gj f
           in case safeReadFile gj (scriptDirFromCtx gj ctx) path of None \<Rightarrow> None
              | Some data \<Rightarrow>
                 let ct = gj_mime gj (path_Ext path)
                 in Some (data, Some [(''Content-Type'', if ct = [] then ''application/octet-stream'' else ct)]))
      | None \<Rightarrow>
          Some (case js_defined opts ''body'' of Some b \<Rightarrow> gj_str gj b | None \<Rightarrow> [],
                case js_defined opts ''headers'' of None \<Rightarrow> None
                | Some h \<Rightarrow> Some (map (\<lambda>(k, v). (k, gj_str gj v)) (gj_obj gj h))))"

definition host_respondWith :: "goja \<Rightarrow> jsval list \<Rightarrow> jsobj \<Rightarrow> jsobj \<times> bool" where
  "host_respondWith gj args ctx =
     (case args of [] \<Rightarrow> (ctx, False)
      | a # _ \<Rightarrow>
         let opts = gj_obj gj a;
             status = (case js_defined opts ''status'' of Some v \<Rightarrow> gj_int gj v | None \<Rightarrow> 200)
         in case respond_options gj opts ctx of None \<Rightarrow> (ctx, False)
            | Some (body, headers) \<Rightarrow>
               let ctx1 = js_set ''_responseBody'' (JStr body)
                     (js_set ''_responseStatus'' (JNum status) (js_set ''_responded'' (JBool True) ctx));
                   ctx2 = (case headers of None \<Rightarrow> ctx1
                     | Some hs \<Rightarrow> js_set ''_responseHeaders'' (JObj (map (\<lambda>(k, v). (k, JStr v)) hs)) ctx1)
               in (ctx2, True))"

text \<open>
  Running a handler: its outcome is the final context (also when respondWith interrupted it), a
  JavaScript error, or a Go panic.
\<close>

datatype js_out = OutCtx jsobj | OutError string | OutPanic string

primrec run_js :: "goja \<Rightarrow> (BreakpointHit \<Rightarrow> BreakpointResume) option \<Rightarrow> FlowMeta \<Rightarrow> Phase \<Rightarrow> bool
    \<Rightarrow> js_run \<Rightarrow> js_out" where
  "run_js gj ctrl meta phase intr (JReturn ctx) = OutCtx ctx"
| "run_js gj ctrl meta phase intr (JThrow e) = OutError e"
| "run_js gj ctrl meta phase intr (JPanic e) = OutPanic e"
| "run_js gj ctrl meta phase intr (JBreakpoint ctx k) =
     run_js gj ctrl meta phase intr (k (host_breakpoint gj ctrl meta phase ctx))"
| "run_js gj ctrl meta phase intr (JRespondWith args ctx k) =
     (case host_respondWith gj args ctx of (ctx1, done) \<Rightarrow>
        if done \<and> intr then OutCtx ctx1 else run_js gj ctrl meta phase intr (k ctx1))"
| "run_js gj ctrl meta phase intr (JReadFile args ctx k) =
     run_js gj ctrl meta phase intr (k (host_readFile gj args ctx))"

subsection \<open>One script on one message\<close>

text \<open>The response a script asked for: status, headers and body where they are set.\<close>

definition readBackRespondWith :: "goja \<Rightarrow> jsobj \<Rightarrow> bool \<times> int \<times> (string \<times> string) list \<times> string
    \<Rightarrow> bool \<times> int \<times> (string \<times> string) list \<times> string" where
  "readBackRespondWith gj ctx old =
     (case old of (responded, status, headers, body) \<Rightarrow>
        (case js_defined ctx ''_responded'' of None \<Rightarrow> old
         | Some v \<Rightarrow> if \<not> gj_bool gj v then old
             else (True,
               case js_defined ctx ''_responseStatus'' of Some s \<Rightarrow> gj_int gj s | None \<Rightarrow> status,
               case js_defined ctx ''_responseHeaders'' of
                 Some (JObj ob) \<Rightarrow> map (\<lambda>(k, v). (k, gj_str gj v)) ob | _ \<Rightarrow> headers,
               case js_defined ctx ''_responseBody'' of Some b \<Rightarrow> gj_str gj b | None \<Rightarrow> body)))"

definition request_js :: "script \<Rightarrow> RequestContext \<Rightarrow> jsobj" where
  "request_js s ctx = injectReadFile (s_filePath s)
     ([(''method'', JStr (rc_Method ctx)), (''url'', JStr (rc_URL ctx)), (''blocked'', JBool False),
       (''headers'', JObj (headersToJS (rc_Headers ctx)))] @
      (if length (rc_Body ctx) > 0 then [(''body'', JStr (rc_Body ctx))] else []))"

definition read_back_request :: "goja \<Rightarrow> jsobj \<Rightarrow> RequestContext \<Rightarrow> RequestContext" where
  "read_back_request gj js ctx0 =
     (let (r, st, hs, b) = readBackRespondWith gj js
            (rc_Responded ctx0, rc_ResponseStatus ctx0, rc_ResponseHeaders ctx0, rc_ResponseBody ctx0);
          ctx = ctx0\<lparr>rc_Responded := r, rc_ResponseStatus := st, rc_ResponseHeaders := hs,
                     rc_ResponseBody := b\<rparr>
      in if r then ctx
         else ctx\<lparr>rc_Blocked := (case map_of js ''blocked'' of Some v \<Rightarrow> gj_bool gj v | None \<Rightarrow> rc_Blocked ctx),
               rc_Method := (case map_of js ''method'' of Some v \<Rightarrow> gj_str gj v | None \<Rightarrow> rc_Method ctx),
               rc_URL := (case map_of js ''url'' of Some v \<Rightarrow> gj_str gj v | None \<Rightarrow> rc_URL ctx),
               rc_Body := (case js_defined js ''body'' of Some v \<Rightarrow> gj_str gj v | None \<Rightarrow> rc_Body ctx),
               rc_Headers := readBackHeaders gj js (rc_Headers ctx)\<rparr>)"

definition runOnRequest :: "goja \<Rightarrow> script \<Rightarrow> RequestContext \<Rightarrow> Engine \<Rightarrow> Engine \<times> RequestContext" where
  "runOnRequest gj s ctx e =
     (case gj_load gj (s_source s) ''onRequest'' of
        LoadError err \<Rightarrow> (recordError (s_name s) err e, ctx)
      | LoadPanic p \<Rightarrow> (recordError (s_name s) (''panic: '' @ p) e, ctx)
      | LoadNoHandler \<Rightarrow> (e, ctx)
      | LoadHandler fn \<Rightarrow>
         (case run_js gj (e_breakpointCtrl e) (rc_Meta ctx) PhaseRequest True (fn (request_js s ctx)) of
            OutError err \<Rightarrow> (recordError (s_name s) err e, ctx)
          | OutPanic p \<Rightarrow> (recordError (s_name s) (''panic: '' @ p) e, ctx)
          | OutCtx js \<Rightarrow> (e, read_back_request gj js ctx)))"

definition response_js :: "script \<Rightarrow> ResponseContext \<Rightarrow> jsobj" where
  "response_js s ctx = injectReadFile (s_filePath s)
     [(''status'', JNum (pc_Status ctx)), (''body'', JStr (pc_Body ctx)),
      (''headers'', JObj (headersToJS (pc_Headers ctx)))]"

definition read_back_response :: "goja \<Rightarrow> jsobj \<Rightarrow> ResponseContext \<Rightarrow> ResponseContext" where
  "read_back_response gj js ctx0 =
     (let (r, st, hs, b) = readBackRespondWith gj js
            (pc_Responded ctx0, pc_ResponseStatus ctx0, pc_ResponseHeaders ctx0, pc_ResponseBody ctx0);
          ctx = ctx0\<lparr>pc_Responded := r, pc_ResponseStatus := st, pc_ResponseHeaders := hs,
                     pc_ResponseBody := b\<rparr>
      in if r then ctx
         else ctx\<lparr>pc_Status := (case map_of js ''status'' of Some v \<Rightarrow> gj_int gj v | None \<Rightarrow> pc_Status ctx),
               pc_Body := (case js_defined js ''body'' of Some v \<Rightarrow> gj_str gj v | None \<Rightarrow> pc_Body ctx),
               pc_Headers := readBackHeaders gj js (pc_Headers ctx)\<rparr>)"

definition runOnResponse :: "goja \<Rightarrow> script \<Rightarrow> ResponseContext \<Rightarrow> Engine \<Rightarrow> Engine \<times> ResponseContext" where
  "runOnResponse gj s ctx e =
     (case gj_load gj (s_source s) ''onResponse'' of
        LoadError err \<Rightarrow> (recordError (s_name s) err e, ctx)
      | LoadPanic p \<Rightarrow> (recordError (s_name s) (''panic: '' @ p) e, ctx)
      | LoadNoHandler \<Rightarrow> (e, ctx)
      | LoadHandler fn \<Rightarrow>
         (case run_js gj (e_breakpointCtrl e) (pc_Meta ctx) PhaseResponse False (fn (response_js s ctx)) of
            OutError err \<Rightarrow> (recordError (s_name s) err e, ctx)
          | OutPanic p \<Rightarrow> (recordError (s_name s) (''panic: '' @ p) e, ctx)
          | OutCtx js \<Rightarrow> (e, read_back_response gj js ctx)))"

subsection \<open>All scripts\<close>

fun run_requests :: "goja \<Rightarrow> script list \<Rightarrow> RequestContext \<Rightarrow> Engine \<Rightarrow> Engine \<times> RequestContext" where
  "run_requests gj [] ctx e = (e, ctx)"
| "run_requests gj (s # ss) ctx e =
     (if \<not> matchesURL gj s (rc_URL ctx) then run_requests gj ss ctx e
      else case runOnRequest gj s ctx e of (e1, ctx1) \<Rightarrow> run_requests gj ss ctx1 e1)"

definition RunOnRequest :: "goja \<Rightarrow> RequestContext \<Rightarrow> Engine \<Rightarrow> Engine \<times> RequestContext" where
  "RunOnRequest gj ctx e = run_requests gj (e_scripts e) ctx e"

fun run_responses :: "goja \<Rightarrow> script list \<Rightarrow> string \<Rightarrow> ResponseContext \<Rightarrow> Engine \<Rightarrow> Engine \<times> ResponseContext" where
  "run_responses gj [] hostPath ctx e = (e, ctx)"
| "run_responses gj (s # ss) hostPath ctx e =
     (if \<not> matchesURL gj s hostPath then run_responses gj ss hostPath ctx e
      else case runOnResponse gj s ctx e of (e1, ctx1) \<Rightarrow> run_responses gj ss hostPath ctx1 e1)"

definition RunOnResponse :: "goja \<Rightarrow> ResponseContext \<Rightarrow> string \<Rightarrow> Engine \<Rightarrow> Engine \<times> ResponseContext" where
  "RunOnResponse gj ctx hostPath e = run_responses gj (e_scripts e) hostPath ctx e"

subsection \<open>Loading from a directory, listing, the manager\<close>

datatype ScriptCategory = CategoryScript | CategoryMapLocal | CategoryBreakpoint

definition DetectCategories :: "string \<Rightarrow> ScriptCategory list" where
  "DetectCategories source =
     (let c1 = (if Contains source ''ctx.breakpoint('' then [CategoryBreakpoint] else []);
          c2 = c1 @ (if Contains source ''ctx.respondWith('' then [CategoryMapLocal] else [])
      in if length c2 = 0 then c2 @ [CategoryScript] else c2)"

record ScriptInfo =
  si_ID :: string
  si_Name :: string
  si_Matches :: "string list"
  si_Enabled :: bool
  si_FilePath :: string
  si_Error :: string
  si_Categories :: "ScriptCategory list"

definition script_info :: "script \<Rightarrow> ScriptInfo" where
  "script_info s = \<lparr>si_ID = [], si_Name = s_name s,
     si_Matches = (case s_meta s of Some m \<Rightarrow> sm_Match m | None \<Rightarrow> []),
     si_Enabled = (case s_meta s of Some m \<Rightarrow> IsEnabled m | None \<Rightarrow> True),
     si_FilePath = s_filePath s, si_Error = [], si_Categories = DetectCategories (s_source s)\<rparr>"

definition ScriptInfos :: "Engine \<Rightarrow> ScriptInfo list" where
  "ScriptInfos e = map script_info (filter s_fromDir (e_scripts e))"

definition dir_script :: "ScriptFile \<Rightarrow> script" where
  "dir_script sf = \<lparr>s_name = sm_Name (sf_Meta sf), s_source = sf_Source sf, s_urlPattern = [],
     s_meta = Some (sf_Meta sf), s_filePath = sf_FilePath sf, s_fromDir = True\<rparr>"

definition LoadFromDir :: "goja \<Rightarrow> string \<Rightarrow> fsys \<Rightarrow> Engine \<Rightarrow> Engine \<times> fsys" where
  "LoadFromDir gj dir fs e =
     (case LoadDir (gj_yaml gj) dir fs of (scripts, errs, fs1) \<Rightarrow>
        (e\<lparr>e_scripts := e_scripts e @ map dir_script (filter (\<lambda>sf. IsEnabled (sf_Meta sf)) scripts),
           e_errors := e_errors e @
             map (\<lambda>sf. ''['' @ sm_Name (sf_Meta sf) @ ''] '' @ sf_Error sf) errs\<rparr>, fs1))"

definition ReloadEngine :: "goja \<Rightarrow> string \<Rightarrow> fsys \<Rightarrow> Engine \<Rightarrow> Engine \<times> fsys" where
  "ReloadEngine gj dir fs e =
     LoadFromDir gj dir fs (e\<lparr>e_scripts := filter (\<lambda>s. \<not> s_fromDir s) (e_scripts e)\<rparr>)"

text \<open>The manager: an engine, its directory, and the disk both work on.\<close>

record Manager =
  m_engine :: Engine
  m_dir :: string
  m_fs :: fsys

definition valid_info :: "ScriptFile \<Rightarrow> ScriptInfo" where
  "valid_info sf = \<lparr>si_ID = sm_ID (sf_Meta sf), si_Name = sm_Name (sf_Meta sf),
     si_Matches = sm_Match (sf_Meta sf), si_Enabled = IsEnabled (sf_Meta sf),
     si_FilePath = sf_FilePath sf, si_Error = [], si_Categories = DetectCategories (sf_Source sf)\<rparr>"

definition errored_info :: "ScriptFile \<Rightarrow> ScriptInfo" where
  "errored_info sf = \<lparr>si_ID = [], si_Name = sm_Name (sf_Meta sf), si_Matches = [], si_Enabled = False,
     si_FilePath = sf_FilePath sf, si_Error = sf_Error sf, si_Categories = []\<rparr>"

definition m_Scripts :: "goja \<Rightarrow> Manager \<Rightarrow> ScriptInfo list \<times> Manager" where
  "m_Scripts gj m = (case LoadDir (gj_yaml gj) (m_dir m) (m_fs m) of (valid, errored, fs1) \<Rightarrow>
     (map valid_info valid @ map errored_info errored, m\<lparr>m_fs := fs1\<rparr>))"

definition m_ScriptByID :: "goja \<Rightarrow> string \<Rightarrow> Manager \<Rightarrow> ScriptInfo option \<times> Manager" where
  "m_ScriptByID gj sid m = (case m_Scripts gj m of (infos, m1) \<Rightarrow>
     (find (\<lambda>info. si_ID info = sid) infos, m1))"

definition m_Reload :: "goja \<Rightarrow> Manager \<Rightarrow> Manager" where
  "m_Reload gj m = (case ReloadEngine gj (m_dir m) (m_fs m) (m_engine m) of (e, fs) \<Rightarrow>
     m\<lparr>m_engine := e, m_fs := fs\<rparr>)"

definition m_Toggle :: "goja \<Rightarrow> string \<Rightarrow> Manager \<Rightarrow> string option \<times> Manager" where
  "m_Toggle gj filePath m = (case ToggleEnabled (gj_yaml gj) filePath (m_fs m) of
     (Some e, fs) \<Rightarrow> (Some e, m\<lparr>m_fs := fs\<rparr>) | (None, fs) \<Rightarrow> (None, m_Reload gj (m\<lparr>m_fs := fs\<rparr>)))"

definition m_Delete :: "goja \<Rightarrow> string \<Rightarrow> Manager \<Rightarrow> string option \<times> Manager" where
  "m_Delete gj filePath m = (case DeleteScript filePath (m_fs m) of
     (Some e, fs) \<Rightarrow> (Some e, m\<lparr>m_fs := fs\<rparr>) | (None, fs) \<Rightarrow> (None, m_Reload gj (m\<lparr>m_fs := fs\<rparr>)))"

definition m_CreateNew :: "temp_name \<Rightarrow> Manager \<Rightarrow> string or_err \<times> Manager" where
  "m_CreateNew temp m = (case CreateNewScript temp (m_dir m) (m_fs m) of (r, fs) \<Rightarrow> (r, m\<lparr>m_fs := fs\<rparr>))"

definition m_QuickAddMapLocal :: "goja \<Rightarrow> temp_name \<Rightarrow> string \<Rightarrow> string \<Rightarrow> Manager \<Rightarrow> string or_err \<times> Manager" where
  "m_QuickAddMapLocal gj temp pattern localPath m =
     (case CreateMapLocalScript temp (m_dir m) pattern localPath (m_fs m) of
        (Inl e, fs) \<Rightarrow> (Inl (''quick add map-local: '' @ e), m\<lparr>m_fs := fs\<rparr>)
      | (Inr path, fs) \<Rightarrow> (Inr path, m_Reload gj (m\<lparr>m_fs := fs\<rparr>)))"

subsection \<open>Facts about runs\<close>

definition same_request :: "RequestContext \<Rightarrow> RequestContext \<Rightarrow> bool" where
  "same_request a b \<longleftrightarrow> rc_Method a = rc_Method b \<and> rc_URL a = rc_URL b \<and> rc_Headers a = rc_Headers b \<and>
     rc_Body a = rc_Body b \<and> rc_Blocked a = rc_Blocked b \<and> rc_Meta a = rc_Meta b"

lemma readBackRespondWith_responded:
  "fst old \<Longrightarrow> fst (readBackRespondWith gj js old)"
  by (cases old) (auto simp: readBackRespondWith_def split: option.split)

lemma read_back_responded:
  "rc_Responded ctx \<Longrightarrow> rc_Responded (read_back_request gj js ctx) \<and> same_request ctx (read_back_request gj js ctx)"
  using readBackRespondWith_responded [of "(rc_Responded ctx, rc_ResponseStatus ctx, rc_ResponseHeaders ctx, rc_ResponseBody ctx)" gj js]
  by (auto simp: read_back_request_def same_request_def split: prod.splits)

lemma runOnRequest_responded:
  "rc_Responded ctx \<Longrightarrow> runOnRequest gj s ctx e = (e', ctx') \<Longrightarrow> rc_Responded ctx' \<and> same_request ctx ctx'"
  using read_back_responded [of ctx gj]
  by (auto simp: runOnRequest_def same_request_def split: js_load.splits js_out.splits)

lemma run_requests_append:
  "run_requests gj (ss @ ts) ctx e =
   (case run_requests gj ss ctx e of (e1, ctx1) \<Rightarrow> run_requests gj ts ctx1 e1)"
  by (induction ss arbitrary: ctx e) (auto split: prod.split)

lemma map_of_injectReadFile [simp]:
  "k \<noteq> ''_scriptDir'' \<Longrightarrow> map_of (injectReadFile p ob) k = map_of ob k"
  by (simp add: injectReadFile_def js_set_def update_conv')

lemma map_of_request_js:
  "map_of (request_js s ctx) ''blocked'' = Some (JBool False)"
  "map_of (request_js s ctx) ''_responded'' = None"
  "map_of (request_js s ctx) ''headers'' = Some (JObj (headersToJS (rc_Headers ctx)))"
  by (simp_all add: request_js_def)

lemma js_defined_value: "map_of ob k = Some v \<Longrightarrow> v \<noteq> JUndef \<Longrightarrow> js_defined ob k = Some v"
  by (cases v) (simp_all add: js_defined_def)

lemma js_defined_none: "map_of ob k = None \<Longrightarrow> js_defined ob k = None"
  by (simp add: js_defined_def)

text \<open>A handler that returns its context as it got it.\<close>

definition idle_script :: "goja \<Rightarrow> script \<Rightarrow> bool" where
  "idle_script gj s \<longleftrightarrow> gj_load gj (s_source s) ''onRequest'' = LoadHandler JReturn"

lemma runOnRequest_idle:
  assumes "idle_script gj s"
  shows "runOnRequest gj s ctx e = (e, read_back_request gj (request_js s ctx) ctx)"
  using assms by (simp add: idle_script_def runOnRequest_def)

lemma read_back_idle:
  assumes "goja_ok gj" and "\<not> rc_Responded ctx"
  shows "rc_Blocked (read_back_request gj (request_js s ctx) ctx) = False"
    and "rc_Headers (read_back_request gj (request_js s ctx) ctx) =
      fold (\<lambda>(k, v) h. HSet k (gj_str gj v) h) (headersToJS (rc_Headers ctx)) (rc_Headers ctx)"
proof -
  have nr: "js_defined (request_js s ctx) ''_responded'' = None"
    by (simp add: js_defined_none map_of_request_js)
  have hd: "js_defined (request_js s ctx) ''headers'' = Some (JObj (headersToJS (rc_Headers ctx)))"
    by (simp add: js_defined_value map_of_request_js)
  show "rc_Blocked (read_back_request gj (request_js s ctx) ctx) = False"
    using assms by (simp add: read_back_request_def readBackRespondWith_def nr map_of_request_js goja_ok_def Let_def)
  show "rc_Headers (read_back_request gj (request_js s ctx) ctx) =
      fold (\<lambda>(k, v) h. HSet k (gj_str gj v) h) (headersToJS (rc_Headers ctx)) (rc_Headers ctx)"
    using assms by (simp add: read_back_request_def readBackRespondWith_def nr readBackHeaders_def
        headers_obj_def hd goja_ok_def Let_def)
qed

lemma fold_HSet:
  assumes "\<forall>k \<in> set ks. CanonicalKey k = k"
  shows "map_of (fold (\<lambda>(k, v) h. HSet k (f v) h) (map (\<lambda>k. (k, g k)) ks) h) k =
    (if k \<in> set ks then Some [f (g k)] else map_of h k)"
  using assms
proof (induction ks arbitrary: h)
  case (Cons a ks)
  then show ?case by (auto simp: HSet_def update_conv')
qed simp


text \<open>A concrete interpreter: each source is a fixed handler.\<close>

definition demo_goja :: "(string \<Rightarrow> js_load) \<Rightarrow> goja" where
  "demo_goja load = \<lparr>gj_compile = (\<lambda>_ _. None), gj_load = (\<lambda>src fn. load src),
     gj_str = (\<lambda>v. case v of JStr s \<Rightarrow> s | _ \<Rightarrow> []), gj_bool = (\<lambda>v. case v of JBool b \<Rightarrow> b | _ \<Rightarrow> False),
     gj_int = (\<lambda>v. case v of JNum n \<Rightarrow> n | _ \<Rightarrow> 0), gj_obj = (\<lambda>v. case v of JObj ob \<Rightarrow> ob | _ \<Rightarrow> []),
     gj_hostpath = (\<lambda>_. None), gj_root_read = (\<lambda>_ _. None), gj_mime = (\<lambda>_. []),
     gj_yaml = (\<lambda>_. Inl [])\<rparr>"

lemma demo_goja_ok [simp]: "goja_ok (demo_goja load)"
  by (simp add: goja_ok_def demo_goja_def)

definition demo_script :: "string \<Rightarrow> script" where
  "demo_script src = \<lparr>s_name = src, s_source = src, s_urlPattern = [], s_meta = None, s_filePath = [],
     s_fromDir = False\<rparr>"

lemma demo_script_sel [simp]:
  "s_name (demo_script src) = src" "s_source (demo_script src) = src" "s_filePath (demo_script src) = []"
  "s_fromDir (demo_script src) = False" "s_meta (demo_script src) = None" "s_urlPattern (demo_script src) = []"
  by (simp_all add: demo_script_def)

definition demo_request :: RequestContext where
  "demo_request = \<lparr>rc_Method = ''GET'', rc_URL = ''http://h/'', rc_Headers = [(''Accept'', [''a'', ''b''])],
     rc_Body = [], rc_Blocked = False, rc_Meta = zero_meta, rc_Responded = False, rc_ResponseStatus = 0,
     rc_ResponseHeaders = [], rc_ResponseBody = []\<rparr>"

definition idle_goja :: goja where
  "idle_goja = demo_goja (\<lambda>src. if src = ''block''
     then LoadHandler (\<lambda>ob. JReturn (js_set ''blocked'' (JBool True) ob)) else LoadHandler JReturn)"

lemma idle_goja_ok [simp]: "goja_ok idle_goja"
  by (simp add: idle_goja_def)

lemma demo_matches [simp]: "matchesURL gj (demo_script src) url"
  by (simp add: matchesURL_def)

lemma demo_idle: "idle_script idle_goja (demo_script ''idle'')"
  by (simp add: idle_script_def idle_goja_def demo_goja_def)


text \<open>A block is lost when another script follows: if the last script that matches is one that
  leaves its context as it got it, the request ends up not blocked, whatever the scripts before
  it decided.\<close>

theorem block_lost_to_later_script:
  assumes "goja_ok gj" and "e_scripts e = ss @ [s]" and "run_requests gj ss ctx e = (e1, ctx1)"
    and "\<not> rc_Responded ctx1" and "matchesURL gj s (rc_URL ctx1)" and "idle_script gj s"
  shows "\<exists>ctx'. RunOnRequest gj ctx e = (e1, ctx') \<and> \<not> rc_Blocked ctx'"
  using read_back_idle(1) [OF assms(1,4), of s] assms
  by (simp add: RunOnRequest_def run_requests_append runOnRequest_idle)

lemma demo_block:
  "run_requests idle_goja [demo_script ''block''] demo_request e = (e, ctx1) \<Longrightarrow>
   rc_Blocked ctx1 \<and> \<not> rc_Responded ctx1"
  by (auto simp: runOnRequest_def idle_goja_def demo_goja_def request_js_def
      injectReadFile_def js_set_def read_back_request_def readBackRespondWith_def js_defined_def
      demo_request_def Let_def)

theorem block_lost_to_later_script_witness:
  "\<exists>e1 ctx1 ctx'. run_requests idle_goja [demo_script ''block''] demo_request
      (NewEngine\<lparr>e_scripts := [demo_script ''block'', demo_script ''idle'']\<rparr>) = (e1, ctx1) \<and> rc_Blocked ctx1 \<and>
    RunOnRequest idle_goja demo_request
      (NewEngine\<lparr>e_scripts := [demo_script ''block'', demo_script ''idle'']\<rparr>) = (e1, ctx') \<and> \<not> rc_Blocked ctx'"
proof -
  let ?e = "NewEngine\<lparr>e_scripts := [demo_script ''block'', demo_script ''idle'']\<rparr>"
  obtain ctx1 where r: "run_requests idle_goja [demo_script ''block''] demo_request ?e = (?e, ctx1)"
    by (auto simp: runOnRequest_def idle_goja_def demo_goja_def)
  have sc: "e_scripts ?e = [demo_script ''block''] @ [demo_script ''idle'']" by simp
  from block_lost_to_later_script [OF idle_goja_ok sc r _ _ demo_idle] demo_block [OF r] r
  show ?thesis by auto
qed

text \<open>Running a script that does nothing still changes a request with repeated headers: of
  every header only its first value is left, so a Cookie or Accept header sent twice loses the
  rest.\<close>

theorem idle_script_drops_header_values:
  assumes "goja_ok gj" and "e_scripts e = [s]" and "idle_script gj s" and "matchesURL gj s (rc_URL ctx)"
    and "\<not> rc_Responded ctx" and "\<forall>k \<in> fst ` set (rc_Headers ctx). CanonicalKey k = k"
  shows "\<exists>ctx'. RunOnRequest gj ctx e = (e, ctx') \<and>
    (\<forall>k. map_of (rc_Headers ctx') k =
       (if k \<in> fst ` set (rc_Headers ctx) then Some [HGet (rc_Headers ctx) k] else None))"
proof -
  let ?ctx = "read_back_request gj (request_js s ctx) ctx"
  have "RunOnRequest gj ctx e = (e, ?ctx)"
    using assms by (simp add: RunOnRequest_def runOnRequest_idle)
  moreover have "map_of (rc_Headers ?ctx) k =
      (if k \<in> fst ` set (rc_Headers ctx) then Some [HGet (rc_Headers ctx) k] else None)" for k
    using assms(1,6) unfolding read_back_idle(2) [OF assms(1,5)] headersToJS_def
    by (subst fold_HSet) (auto simp: goja_ok_def map_of_eq_None_iff)
  ultimately show ?thesis by blast
qed

theorem idle_script_drops_header_values_witness:
  "\<exists>ctx'. RunOnRequest idle_goja demo_request (NewEngine\<lparr>e_scripts := [demo_script ''idle'']\<rparr>) =
      (NewEngine\<lparr>e_scripts := [demo_script ''idle'']\<rparr>, ctx') \<and>
    map_of (rc_Headers ctx') ''Accept'' = Some [''a'']"
proof -
  let ?e = "NewEngine\<lparr>e_scripts := [demo_script ''idle'']\<rparr>"
  have can: "CanonicalKey ''Accept'' = ''Accept''" by code_simp
  have "HGet (rc_Headers demo_request) ''Accept'' = ''a''" by (simp add: demo_request_def HGet_def can)
  with idle_script_drops_header_values [OF idle_goja_ok _ demo_idle, of ?e demo_request] can show ?thesis
    by (fastforce simp: demo_request_def)
qed

definition script_fails :: "goja \<Rightarrow> script \<Rightarrow> RequestContext \<Rightarrow> Engine \<Rightarrow> string \<Rightarrow> bool" where
  "script_fails gj s ctx e msg =
     (case gj_load gj (s_source s) ''onRequest'' of
        LoadError err \<Rightarrow> msg = err | LoadPanic p \<Rightarrow> msg = ''panic: '' @ p | LoadNoHandler \<Rightarrow> False
      | LoadHandler fn \<Rightarrow>
         (case run_js gj (e_breakpointCtrl e) (rc_Meta ctx) PhaseRequest True (fn (request_js s ctx)) of
            OutError err \<Rightarrow> msg = err | OutPanic p \<Rightarrow> msg = ''panic: '' @ p | OutCtx _ \<Rightarrow> False))"

lemma no_new_errors [simp]: "\<exists>new. \<forall>xs. e\<lparr>e_errors := xs\<rparr> = e\<lparr>e_errors := xs @ new\<rparr>"
  by (rule exI [of _ "[]"]) simp

lemma runOnRequest_errors:
  "\<exists>new C. \<forall>xs. runOnRequest gj s ctx (e\<lparr>e_errors := xs\<rparr>) = (e\<lparr>e_errors := xs @ new\<rparr>, C)"
proof (cases "gj_load gj (s_source s) ''onRequest''")
  case (LoadHandler fn)
  then show ?thesis
    by (cases "run_js gj (e_breakpointCtrl e) (rc_Meta ctx) PhaseRequest True (fn (request_js s ctx))")
      (auto simp: runOnRequest_def recordError_def)
qed (auto simp: runOnRequest_def recordError_def)

lemma runOnResponse_errors:
  "\<exists>new C. \<forall>xs. runOnResponse gj s ctx (e\<lparr>e_errors := xs\<rparr>) = (e\<lparr>e_errors := xs @ new\<rparr>, C)"
proof (cases "gj_load gj (s_source s) ''onResponse''")
  case (LoadHandler fn)
  then show ?thesis
    by (cases "run_js gj (e_breakpointCtrl e) (pc_Meta ctx) PhaseResponse False (fn (response_js s ctx))")
      (auto simp: runOnResponse_def recordError_def)
qed (auto simp: runOnResponse_def recordError_def)

text \<open>The errors recorded so far never influence a run: it only adds to them.\<close>

lemma run_requests_errors:
  "\<exists>new C. \<forall>xs. run_requests gj ss ctx (e\<lparr>e_errors := xs\<rparr>) = (e\<lparr>e_errors := xs @ new\<rparr>, C)"
proof (induction ss arbitrary: ctx)
  case (Cons s ss)
  obtain n1 c1 where 1: "\<And>xs. runOnRequest gj s ctx (e\<lparr>e_errors := xs\<rparr>) = (e\<lparr>e_errors := xs @ n1\<rparr>, c1)"
    using runOnRequest_errors by blast
  obtain n2 c2 where 2: "\<And>xs. run_requests gj ss c1 (e\<lparr>e_errors := xs\<rparr>) = (e\<lparr>e_errors := xs @ n2\<rparr>, c2)"
    using Cons.IH by blast
  obtain n3 c3 where 3: "\<And>xs. run_requests gj ss ctx (e\<lparr>e_errors := xs\<rparr>) = (e\<lparr>e_errors := xs @ n3\<rparr>, c3)"
    using Cons.IH by blast
  show ?case
    by (cases "matchesURL gj s (rc_URL ctx)")
      (simp_all add: 1 2 3 exI [of _ "n1 @ n2"] exI [of _ n3])
qed simp

lemma run_responses_errors:
  "\<exists>new C. \<forall>xs. run_responses gj ss url ctx (e\<lparr>e_errors := xs\<rparr>) = (e\<lparr>e_errors := xs @ new\<rparr>, C)"
proof (induction ss arbitrary: ctx)
  case (Cons s ss)
  obtain n1 c1 where 1: "\<And>xs. runOnResponse gj s ctx (e\<lparr>e_errors := xs\<rparr>) = (e\<lparr>e_errors := xs @ n1\<rparr>, c1)"
    using runOnResponse_errors by blast
  obtain n2 c2 where 2: "\<And>xs. run_responses gj ss url c1 (e\<lparr>e_errors := xs\<rparr>) = (e\<lparr>e_errors := xs @ n2\<rparr>, c2)"
    using Cons.IH by blast
  obtain n3 c3 where 3: "\<And>xs. run_responses gj ss url ctx (e\<lparr>e_errors := xs\<rparr>) = (e\<lparr>e_errors := xs @ n3\<rparr>, c3)"
    using Cons.IH by blast
  show ?case
    by (cases "matchesURL gj s url") (simp_all add: 1 2 3 exI [of _ "n1 @ n2"] exI [of _ n3])
qed simp

lemma run_requests_failed:
  assumes "script_fails gj s ctx e msg" and "matchesURL gj s (rc_URL ctx)"
  shows "run_requests gj (s # ss) ctx e = run_requests gj ss ctx (recordError (s_name s) msg e)"
  using assms
  by (auto simp: script_fails_def runOnRequest_def split: js_load.splits js_out.splits)



text \<open>The same for responses.\<close>

theorem failing_response_script_is_isolated:
  assumes "run_responses gj as url ctx e = (e1, ctx1)" and "matchesURL gj s url"
    and "runOnResponse gj s ctx1 e1 = (recordError (s_name s) msg e1, ctx1)"
  shows "\<exists>later C.
    run_responses gj (as @ bs) url ctx e = (e1\<lparr>e_errors := e_errors e1 @ later\<rparr>, C) \<and>
    run_responses gj (as @ s # bs) url ctx e =
      (e1\<lparr>e_errors := e_errors e1 @ [''['' @ s_name s @ ''] '' @ msg] @ later\<rparr>, C)"
proof -
  obtain later C where r: "\<And>xs. run_responses gj bs url ctx1 (e1\<lparr>e_errors := xs\<rparr>) = (e1\<lparr>e_errors := xs @ later\<rparr>, C)"
    using run_responses_errors by blast
  have app: "run_responses gj (as @ cs) url ctx e = run_responses gj cs url ctx1 e1" for cs
    using assms(1) by (induction as arbitrary: ctx e) (auto split: if_splits prod.splits)
  from r [of "e_errors e1"] r assms(2,3) show ?thesis by (auto simp: app recordError_def)
qed

subsection \<open>The directory and the engine\<close>

lemma child_name_join: "child_name dir p = Some n \<Longrightarrow> path_join dir n = p"
  by (auto simp: child_name_def path_join_def HasPrefix_iff Let_def split: if_splits)

lemma ReadDir_file:
  assumes "ReadDir dir fs = Inr es" and "(n, False) \<in> set es"
  shows "path_join dir n \<in> fst ` set (fs_files fs)"
proof -
  have "n \<in> set (List.map_filter (child_name dir) (map fst (fs_files fs)))"
    using assms by (auto simp: ReadDir_def split: if_splits)
  then obtain p where "p \<in> fst ` set (fs_files fs)" "child_name dir p = Some n"
    by (force simp: map_filter_def)
  then show ?thesis using child_name_join by blast
qed

lemma load_entry_path:
  "load_entry y dir n fs = (r, fs') \<Longrightarrow> sf_FilePath (case r of Inl f \<Rightarrow> f | Inr f \<Rightarrow> f) = path_join dir n"
  by (auto simp: load_entry_def error_file_def Let_def split: sum.splits prod.splits)

lemma load_entries_paths:
  "load_entries y dir es fs = (ok, errs, fs') \<Longrightarrow> sf \<in> set ok \<union> set errs \<Longrightarrow>
   \<exists>n. (n, False) \<in> set es \<and> sf_FilePath sf = path_join dir n"
proof (induction y dir es fs arbitrary: ok errs fs' rule: load_entries.induct)
  case (2 y dir name isdir es fs)
  obtain r fs1 where r: "load_entry y dir name fs = (r, fs1)" by (metis prod.exhaust)
  obtain o1 e1 f1 where k: "load_entries y dir es fs1 = (o1, e1, f1)" by (metis prod_cases3)
  from load_entry_path [OF r] have p: "sf_FilePath (case r of Inl f \<Rightarrow> f | Inr f \<Rightarrow> f) = path_join dir name" .
  show ?case
  proof (cases "isdir \<or> \<not> HasSuffix name ''.js''")
    case True
    with 2 show ?thesis by auto
  next
    case False
    with "2.prems" r k p have "sf_FilePath sf = path_join dir name \<or> sf \<in> set o1 \<union> set e1"
      by (cases r) auto
    moreover have "sf \<in> set o1 \<union> set e1 \<Longrightarrow> \<exists>n. (n, False) \<in> set es \<and> sf_FilePath sf = path_join dir n"
      using "2.IH"(2,3) False r k by (cases r) auto
    ultimately show ?thesis using False by auto
  qed
qed simp

lemma LoadDir_paths:
  "LoadDir y dir fs = (ok, errs, fs') \<Longrightarrow> sf \<in> set ok \<union> set errs \<Longrightarrow>
   sf_FilePath sf \<in> fst ` set (fs_files fs)"
proof -
  assume l: "LoadDir y dir fs = (ok, errs, fs')" and sf: "sf \<in> set ok \<union> set errs"
  then obtain es where es: "ReadDir dir fs = Inr es" "load_entries y dir es fs = (ok, errs, fs')"
    by (auto simp: LoadDir_def split: sum.splits)
  from load_entries_paths [OF es(2) sf] ReadDir_file [OF es(1)] show ?thesis by auto
qed



text \<open>After a script file is deleted through the manager no directory script of the engine
  and no entry of the list refers to that file.\<close>

theorem deleted_script_is_gone:
  assumes "m_Delete gj path m = (None, m')" and "\<forall>s \<in> set (e_scripts (m_engine m)). s_filePath s = path \<longrightarrow> s_fromDir s"
  shows "path \<notin> s_filePath ` set (e_scripts (m_engine m'))"
proof -
  obtain fs where d: "DeleteScript path (m_fs m) = (None, fs)" "m' = m_Reload gj (m\<lparr>m_fs := fs\<rparr>)"
    using assms(1) by (auto simp: m_Delete_def split: prod.splits option.splits)
  have gone: "path \<notin> fst ` set (fs_files fs)"
    using d(1) by (auto simp: DeleteScript_def RemoveFile_def split: if_splits option.splits)
      (force simp: AList.delete_eq)
  obtain ok errs fs1 where l: "LoadDir (gj_yaml gj) (m_dir m) fs = (ok, errs, fs1)" by (metis prod_cases3)
  have "s_filePath s \<noteq> path" if "s \<in> set (e_scripts (m_engine m'))" for s
  proof -
    from that l consider "s \<in> set (e_scripts (m_engine m))" "\<not> s_fromDir s"
      | sf where "sf \<in> set ok" "s = dir_script sf"
      by (auto simp: d(2) m_Reload_def ReloadEngine_def LoadFromDir_def)
    then show ?thesis
    proof cases
      case 1
      with assms(2) show ?thesis by blast
    next
      case 2
      with LoadDir_paths [OF l, of sf] gone show ?thesis by (auto simp: dir_script_def)
    qed
  qed
  then show ?thesis by blast
qed

theorem deleted_script_is_gone_witness:
  "\<exists>m'. m_Delete idle_goja ''d/a.js'' \<lparr>m_engine = NewEngine, m_dir = ''d'', m_fs = demo_fs demo_lines\<rparr> = (None, m') \<and>
    ''d/a.js'' \<notin> s_filePath ` set (e_scripts (m_engine m'))"
proof -
  let ?m = "\<lparr>m_engine = NewEngine, m_dir = ''d'', m_fs = demo_fs demo_lines\<rparr>"
  obtain m' where r: "m_Delete idle_goja ''d/a.js'' ?m = (None, m')"
    by (auto simp: m_Delete_def DeleteScript_def RemoveFile_def demo_fs_def)
  from deleted_script_is_gone [OF r] r show ?thesis by (simp add: NewEngine_def)
qed

end
