(* ===== verification/Protobuf_Raw.thy ===== *)
theory Protobuf_Raw
  imports Go_Text "HOL-Library.Word"
begin

section \<open>Raw protobuf bodies (internal/bodydecoder/protobuf.go)\<close>

text \<open>
  The wire-format decoder that shows field numbers as keys.  The protowire package is a
  parameter (the record \<open>protowire\<close>); \<open>pw_ok\<close> states what it documents: a negative length is
  an error, any other is the number of bytes consumed, and the payload of a length-prefixed
  value or a group is shorter than what was consumed.  The decoder calls itself on payloads, so
  its model takes fuel; the length of the input plus one is always enough.  Floating-point
  values are kept as their bits, and the bounds on them are compared exactly.
\<close>

record protowire =
  pw_tag :: "string \<Rightarrow> int \<times> nat \<times> int"
  pw_varint :: "string \<Rightarrow> nat \<times> int"
  pw_fixed32 :: "string \<Rightarrow> 32 word \<times> int"
  pw_fixed64 :: "string \<Rightarrow> 64 word \<times> int"
  pw_bytes :: "string \<Rightarrow> string \<times> int"
  pw_group :: "int \<Rightarrow> string \<Rightarrow> string \<times> int"

definition pw_ok :: "protowire \<Rightarrow> bool" where
  "pw_ok pw \<longleftrightarrow>
     (\<forall>b num t n. pw_tag pw b = (num, t, n) \<longrightarrow> 0 \<le> n \<longrightarrow> 0 < n \<and> n \<le> int (length b)) \<and>
     (\<forall>b v n. pw_varint pw b = (v, n) \<longrightarrow> n \<le> int (length b)) \<and>
     (\<forall>b v n. pw_fixed32 pw b = (v, n) \<longrightarrow> n \<le> int (length b)) \<and>
     (\<forall>b v n. pw_fixed64 pw b = (v, n) \<longrightarrow> n \<le> int (length b)) \<and>
     (\<forall>b v n. pw_bytes pw b = (v, n) \<longrightarrow> 0 \<le> n \<longrightarrow> n \<le> int (length b) \<and> int (length v) < n) \<and>
     (\<forall>b num v n. pw_group pw num b = (v, n) \<longrightarrow> 0 \<le> n \<longrightarrow> n \<le> int (length b) \<and> int (length v) < n)"

subsection \<open>Values\<close>

datatype wval =
  WUint nat | WFloat32 "32 word" | WFloat64 "64 word" | WText string
| WMsg "(string \<times> wval) list" | WList "wval list"

type_synonym orderedFields = "(string \<times> wval) list"

text \<open>Appending to the ordered fields: a repeated key collects its values in an array.\<close>

definition join_val :: "wval \<Rightarrow> wval \<Rightarrow> wval" where
  "join_val old val = (case old of WList vs \<Rightarrow> WList (vs @ [val]) | _ \<Rightarrow> WList [old, val])"

fun fields_put :: "string \<Rightarrow> wval \<Rightarrow> orderedFields \<Rightarrow> orderedFields" where
  "fields_put key val [] = [(key, val)]"
| "fields_put key val ((k, v) # fs) =
     (if k = key then (k, join_val v val) # fs else (k, v) # fields_put key val fs)"

definition fields_append :: "int \<Rightarrow> wval \<Rightarrow> orderedFields \<Rightarrow> orderedFields" where
  "fields_append num val fs = fields_put (Itoa num) val fs"

text \<open>
  The magnitude of a finite float64 in units of \<open>2 ^ -1074\<close>, and of a float32 in the same
  units; \<open>None\<close> for an infinity or a NaN.  1e-10 is the nearest float64, 1e15 is exact.
\<close>

definition mag64 :: "64 word \<Rightarrow> nat option" where
  "mag64 w = (let e = (unat w div 2 ^ 52) mod 2 ^ 11; m = unat w mod 2 ^ 52
     in if e = 2047 then None else Some (if e = 0 then m else (2 ^ 52 + m) * 2 ^ (e - 1)))"

definition mag32 :: "32 word \<Rightarrow> nat option" where
  "mag32 w = (let e = (unat w div 2 ^ 23) mod 2 ^ 8; m = unat w mod 2 ^ 23
     in if e = 255 then None
        else Some ((if e = 0 then m else (2 ^ 23 + m) * 2 ^ (e - 1)) * 2 ^ 925))"

definition isReasonableFloat :: "nat option \<Rightarrow> bool" where
  "isReasonableFloat mag = (case mag of None \<Rightarrow> False
     | Some a \<Rightarrow> a > 0x1b7cdfd9d7bdbb * 2 ^ 988 \<and> a < 10 ^ 15 * 2 ^ 1074)"

text \<open>\<open>isReadableString\<close>: no control characters but tab, newline and return, and as many bytes
  as runes.\<close>

definition isReadableString :: "string \<Rightarrow> bool" where
  "isReadableString b =
     (if length b = 0 then False
      else if list_ex (\<lambda>c. byte c < 32 \<and> byte c \<noteq> 9 \<and> byte c \<noteq> 10 \<and> byte c \<noteq> 13) b then False
      else length b = length (Runes b))"

text \<open>Standard base64 with padding.\<close>

definition b64_char :: "nat \<Rightarrow> char" where
  "b64_char n = (if n < 26 then char_of (65 + n) else if n < 52 then char_of (71 + n)
     else if n < 62 then char_of (n - 4) else if n = 62 then CHR ''+'' else CHR ''/'')"

fun base64 :: "string \<Rightarrow> string" where
  "base64 [] = []"
| "base64 [a] = [b64_char (byte a div 4), b64_char ((byte a mod 4) * 16), CHR ''='', CHR ''='']"
| "base64 [a, b] = [b64_char (byte a div 4), b64_char ((byte a mod 4) * 16 + byte b div 16),
     b64_char ((byte b mod 16) * 4), CHR ''='']"
| "base64 (a # b # c # s) =
     [b64_char (byte a div 4), b64_char ((byte a mod 4) * 16 + byte b div 16),
      b64_char ((byte b mod 16) * 4 + byte c div 64), b64_char (byte c mod 64)] @ base64 s"

subsection \<open>The decoder\<close>

text \<open>
  \<open>interpretBytes\<close> and the switch over the wire type, given the decoder for payloads: \<open>None\<close>
  when that runs out of fuel, otherwise an error or the value and the bytes consumed.
\<close>

definition interpretBytes :: "(string \<Rightarrow> orderedFields or_err option) \<Rightarrow> string \<Rightarrow> wval option" where
  "interpretBytes rec b = (case rec b of None \<Rightarrow> None
     | Some r \<Rightarrow> Some (case r of
         Inr nested \<Rightarrow> if length nested > 0 then WMsg nested
           else if isReadableString b then WText b else WText (base64 b)
       | Inl _ \<Rightarrow> if isReadableString b then WText b else WText (base64 b)))"

definition wire_value :: "protowire \<Rightarrow> (string \<Rightarrow> orderedFields or_err option) \<Rightarrow> int \<Rightarrow> nat \<Rightarrow> string
    \<Rightarrow> (wval \<times> nat) or_err option" where
  "wire_value pw rec num wtype b =
     (if wtype = 0 then
        (case pw_varint pw b of (v, n) \<Rightarrow>
           if n < 0 then Some (Inl (''invalid varint for field '' @ Itoa num))
           else Some (Inr (WUint v, nat n)))
      else if wtype = 5 then
        (case pw_fixed32 pw b of (v, n) \<Rightarrow>
           if n < 0 then Some (Inl (''invalid fixed32 for field '' @ Itoa num))
           else Some (Inr (if isReasonableFloat (mag32 v) then WFloat32 v else WUint (unat v), nat n)))
      else if wtype = 1 then
        (case pw_fixed64 pw b of (v, n) \<Rightarrow>
           if n < 0 then Some (Inl (''invalid fixed64 for field '' @ Itoa num))
           else Some (Inr (if isReasonableFloat (mag64 v) then WFloat64 v else WUint (unat v), nat n)))
      else if wtype = 2 then
        (case pw_bytes pw b of (v, n) \<Rightarrow>
           if n < 0 then Some (Inl (''invalid bytes for field '' @ Itoa num))
           else (case interpretBytes rec v of None \<Rightarrow> None | Some val \<Rightarrow> Some (Inr (val, nat n))))
      else if wtype = 3 then
        (case pw_group pw num b of (v, n) \<Rightarrow>
           if n < 0 then Some (Inl (''invalid group for field '' @ Itoa num))
           else (case rec v of None \<Rightarrow> None
             | Some (Inl e) \<Rightarrow> Some (Inl (''group field '' @ Itoa num @ '': '' @ e))
             | Some (Inr nested) \<Rightarrow> Some (Inr (WMsg nested, nat n))))
      else Some (Inl (''unknown wire type '' @ show_nat wtype @ '' for field '' @ Itoa num)))"

text \<open>The loop of \<open>decodeWireFields\<close> from the fields read so far.\<close>

primrec wire_loop :: "nat \<Rightarrow> protowire \<Rightarrow> orderedFields \<Rightarrow> string \<Rightarrow> orderedFields or_err option" where
  "wire_loop 0 pw flds b = None"
| "wire_loop (Suc fuel) pw flds b =
     (if length b = 0 then Some (Inr flds)
      else case pw_tag pw b of (num, wtype, n) \<Rightarrow>
        if n < 0 then Some (Inl (''invalid tag at offset '' @ show_nat (length b)))
        else (let b1 = drop (nat n) b
              in case wire_value pw (wire_loop fuel pw []) num wtype b1 of
                   None \<Rightarrow> None
                 | Some (Inl e) \<Rightarrow> Some (Inl e)
                 | Some (Inr (val, consumed)) \<Rightarrow>
                     wire_loop fuel pw (fields_append num val flds) (drop consumed b1)))"

definition decodeWireFields :: "protowire \<Rightarrow> string \<Rightarrow> orderedFields or_err option" where
  "decodeWireFields pw b = wire_loop (length b + 1) pw [] b"

subsection \<open>Content types and JSON\<close>

definition stripParams :: "string \<Rightarrow> string" where
  "stripParams ct = TrimSpace (ToLower (takeWhile (\<lambda>c. c \<noteq> CHR '';'') ct))"

definition matchesContentType :: "string \<Rightarrow> string list \<Rightarrow> bool" where
  "matchesContentType contentType types = (stripParams contentType \<in> set types)"

definition protobufContentTypes :: "string list" where
  "protobufContentTypes = [''application/protobuf'', ''application/x-protobuf'',
     ''application/x-google-protobuf'', ''application/grpc'', ''application/grpc+proto'']"

text \<open>\<open>MarshalJSON\<close> of the fields, given the JSON of a value.\<close>

fun marshal_entries :: "(wval \<Rightarrow> string or_err) \<Rightarrow> orderedFields \<Rightarrow> string list or_err" where
  "marshal_entries js [] = Inr []"
| "marshal_entries js ((k, v) # fs) = (case js v of Inl e \<Rightarrow> Inl e
     | Inr t \<Rightarrow> (case marshal_entries js fs of Inl e \<Rightarrow> Inl e
         | Inr ts \<Rightarrow> Inr (([CHR 0x22] @ k @ [CHR 0x22] @ '':'' @ t) # ts)))"

definition MarshalJSON :: "(wval \<Rightarrow> string or_err) \<Rightarrow> orderedFields \<Rightarrow> string or_err" where
  "MarshalJSON js o' = (case marshal_entries js o' of Inl e \<Rightarrow> Inl e
     | Inr ts \<Rightarrow> Inr (''{'' @ Join ts '','' @ ''}''))"

text \<open>\<open>decodeRaw\<close>, with json.MarshalIndent as a parameter.\<close>

definition decodeRaw :: "protowire \<Rightarrow> (orderedFields \<Rightarrow> string or_err) \<Rightarrow> string \<Rightarrow> (string \<times> string) or_err" where
  "decodeRaw pw marshal_indent body = (case decodeWireFields pw body of
     None \<Rightarrow> Inl ''out of fuel''
   | Some (Inl e) \<Rightarrow> Inl (''protobuf wire decode: '' @ e)
   | Some (Inr flds) \<Rightarrow> (case marshal_indent flds of
       Inl e \<Rightarrow> Inl (''protobuf json marshal: '' @ e)
     | Inr out \<Rightarrow> Inr (out, ''application/json'')))"

subsection \<open>Enough fuel\<close>

lemma pw_okD:
  assumes "pw_ok pw"
  shows "pw_tag pw b = (num, t, n) \<Longrightarrow> 0 \<le> n \<Longrightarrow> 0 < n \<and> n \<le> int (length b)"
    and "pw_bytes pw b = (v, n) \<Longrightarrow> 0 \<le> n \<Longrightarrow> n \<le> int (length b) \<and> int (length v) < n"
    and "pw_group pw num b = (v, n) \<Longrightarrow> 0 \<le> n \<Longrightarrow> n \<le> int (length b) \<and> int (length v) < n"
  using assms unfolding pw_ok_def by blast+

text \<open>The value switch only asks for payloads shorter than its input, so two payload decoders that
  agree on those give the same value.\<close>

lemma wire_value_cong:
  assumes "pw_ok pw" and "\<And>v. length v < length b \<Longrightarrow> r1 v = r2 v"
  shows "wire_value pw r1 num t b = wire_value pw r2 num t b"
proof -
  have bb: "r1 v = r2 v" if "pw_bytes pw b = (v, n)" "0 \<le> n" for v n
    using pw_okD(2) [OF assms(1) that] assms(2) by simp
  have gr: "r1 v = r2 v" if "pw_group pw num b = (v, n)" "0 \<le> n" for v n
    using pw_okD(3) [OF assms(1) that] assms(2) by simp
  obtain bv bn gv gn where o: "pw_bytes pw b = (bv, bn)" "pw_group pw num b = (gv, gn)"
    by (metis prod.exhaust)
  with bb gr have "bn < 0 \<or> r1 bv = r2 bv" "gn < 0 \<or> r1 gv = r2 gv" by force+
  with o show ?thesis by (auto simp: wire_value_def interpretBytes_def)
qed

lemma wire_value_some:
  assumes "pw_ok pw" and "\<And>v. length v < length b \<Longrightarrow> rec v \<noteq> None"
  shows "wire_value pw rec num t b \<noteq> None"
proof -
  obtain bv bn gv gn where o: "pw_bytes pw b = (bv, bn)" "pw_group pw num b = (gv, gn)"
    by (metis prod.exhaust)
  have "bn < 0 \<or> rec bv \<noteq> None" "gn < 0 \<or> rec gv \<noteq> None"
    using pw_okD(2) [OF assms(1) o(1)] pw_okD(3) [OF assms(1) o(2)] assms(2) by force+
  with o show ?thesis
    by (auto simp: wire_value_def interpretBytes_def split: prod.split sum.split)
qed

lemma wire_loop_fuel:
  assumes "pw_ok pw"
  shows "length b < fuel \<Longrightarrow> wire_loop fuel pw fs b \<noteq> None \<and>
    (\<forall>more. length b < more \<longrightarrow> wire_loop more pw fs b = wire_loop fuel pw fs b)"
proof (induction "length b" arbitrary: b fs fuel rule: less_induct)
  case less
  obtain k where k: "fuel = Suc k" using less.prems by (cases fuel) auto
  obtain num t n where tag: "pw_tag pw b = (num, t, n)" by (metis prod_cases3)
  show ?case
  proof (cases "b = [] \<or> n < 0")
    case True
    then have "wire_loop (Suc m) pw fs b = wire_loop fuel pw fs b \<and> wire_loop fuel pw fs b \<noteq> None" for m
      using tag k by auto
    then show ?thesis by (metis gr0_implies_Suc less_nat_zero_code not_gr_zero)
  next
    case False
    define b1 where "b1 = drop (nat n) b"
    have n: "0 < n" "n \<le> int (length b)" using pw_okD(1) [OF assms tag] False by auto
    then have b1: "length b1 < length b" using False by (auto simp: b1_def)
    have rec: "wire_loop m pw [] v = wire_loop k pw [] v \<and> wire_loop k pw [] v \<noteq> None"
      if "length v < length b1" "length b \<le> m" for m v
    proof -
      have "length v < length b" "length v < k" using that b1 less.prems k by auto
      from less.hyps [OF this, of "[]"] that b1 show ?thesis by auto
    qed
    have val: "wire_value pw (wire_loop m pw []) num t b1 = wire_value pw (wire_loop k pw []) num t b1"
      if "length b \<le> m" for m
      by (rule wire_value_cong [OF assms]) (use rec that in blast)
    have "wire_value pw (wire_loop k pw []) num t b1 \<noteq> None"
      by (rule wire_value_some [OF assms]) (use rec [of _ "length b"] in blast)
    then obtain r where r: "wire_value pw (wire_loop k pw []) num t b1 = Some r" by blast
    have rest: "wire_loop m pw fs' (drop c b1) = wire_loop k pw fs' (drop c b1) \<and>
        wire_loop k pw fs' (drop c b1) \<noteq> None" if "length b \<le> m" for m fs' c
    proof -
      have lt: "length (drop c b1) < length b"
        using le_less_trans [OF diff_le_self b1] by (simp only: length_drop)
      have "length b \<le> k" using less.prems k by linarith
      with lt that have "length (drop c b1) < k" "length (drop c b1) < m" by linarith+
      with less.hyps [OF lt, of k fs'] show ?thesis by metis
    qed
    have step: "wire_loop (Suc m) pw fs b = wire_loop (Suc k) pw fs b \<and> wire_loop (Suc k) pw fs b \<noteq> None"
      if "length b \<le> m" for m
    proof -
      have nb: "b \<noteq> []" and nn: "\<not> n < 0" using False by auto
      have "wire_loop (Suc m') pw fs b = (case r of Inl e \<Rightarrow> Some (Inl e)
          | Inr (val, consumed) \<Rightarrow> wire_loop m' pw (fields_append num val fs) (drop consumed b1))"
        if "length b \<le> m'" for m'
        using val [OF that] r by (simp add: nb nn tag b1_def [symmetric] Let_def)
      from this [OF that] this [of k] rest [OF that] k less.prems show ?thesis
        by (cases r) auto
    qed
    show ?thesis
    proof (intro conjI allI impI)
      show "wire_loop fuel pw fs b \<noteq> None" using step [of "length b"] k by simp
      fix more assume "length b < more"
      then obtain m where "more = Suc m" "length b \<le> m" by (cases more) auto
      with step k show "wire_loop more pw fs b = wire_loop fuel pw fs b" by simp
    qed
  qed
qed

text \<open>C29: Decoding always ends: on every input the decoder returns fields or an error, and a larger
  bound on its steps never changes the answer.\<close>

theorem decode_terminates:
  assumes "pw_ok pw"
  shows "(\<exists>r. decodeWireFields pw b = Some r) \<and>
    (\<forall>fuel. length b < fuel \<longrightarrow> wire_loop fuel pw [] b = decodeWireFields pw b)"
  using wire_loop_fuel [OF assms, of b "length b + 1" "[]"] by (auto simp: decodeWireFields_def)

text \<open>A toy wire format: one-byte tags 0 (varint of one byte) and 2 (length-prefixed bytes).\<close>

definition demo_pw :: protowire where
  "demo_pw = \<lparr>pw_tag = (\<lambda>b. case b of [] \<Rightarrow> (0, 0, -1) | c # _ \<Rightarrow> (int (byte c div 8), byte c mod 8, 1)),
     pw_varint = (\<lambda>b. case b of [] \<Rightarrow> (0, -1) | c # _ \<Rightarrow> (byte c, 1)),
     pw_fixed32 = (\<lambda>b. (0, -1)), pw_fixed64 = (\<lambda>b. (0, -1)),
     pw_bytes = (\<lambda>b. case b of [] \<Rightarrow> ([], -1)
       | c # t \<Rightarrow> if byte c \<le> length t then (take (byte c) t, int (byte c) + 1) else ([], -1)),
     pw_group = (\<lambda>num b. ([], -1))\<rparr>"

lemma demo_pw_ok: "pw_ok demo_pw"
  by (auto simp: pw_ok_def demo_pw_def split: list.splits if_splits)

theorem decode_terminates_witness:
  "\<exists>r. decodeWireFields demo_pw ''abc'' = Some r"
  using decode_terminates [OF demo_pw_ok] by blast



subsection \<open>Ordered fields\<close>

text \<open>What the collected fields must be: each key once, in order of first appearance, with its
  single value or the array of its values in order.\<close>

definition vals_of :: "string \<Rightarrow> (string \<times> wval) list \<Rightarrow> wval list" where
  "vals_of k ps = map snd (filter (\<lambda>p. fst p = k) ps)"

definition pack :: "wval list \<Rightarrow> wval" where
  "pack vs = (case vs of [v] \<Rightarrow> v | _ \<Rightarrow> WList vs)"

definition is_array :: "wval \<Rightarrow> bool" where
  "is_array v = (case v of WList _ \<Rightarrow> True | _ \<Rightarrow> False)"

lemma fields_put_new: "k \<notin> fst ` set fs \<Longrightarrow> fields_put k v fs = fs @ [(k, v)]"
  by (induction k v fs rule: fields_put.induct) auto

lemma fields_put_map:
  "distinct ks \<Longrightarrow> k \<in> set ks \<Longrightarrow>
   fields_put k v (map (\<lambda>x. (x, f x)) ks) = map (\<lambda>x. (x, if x = k then join_val (f x) v else f x)) ks"
  by (induction ks) auto

lemma join_pack: "vs \<noteq> [] \<Longrightarrow> \<forall>v \<in> set vs. \<not> is_array v \<Longrightarrow> join_val (pack vs) v = pack (vs @ [v])"
  by (cases vs rule: remdups_adj.cases)
    (auto simp: join_val_def pack_def is_array_def split: wval.splits)

lemma fields_collect:
  assumes "\<forall>p \<in> set ps. \<not> is_array (snd p)"
  shows "fold (\<lambda>(k, v). fields_put k v) ps [] =
    map (\<lambda>k. (k, pack (vals_of k ps))) (rev (remdups (rev (map fst ps))))"
  using assms
proof (induction ps rule: rev_induct)
  case (snoc p ps)
  obtain k v where p: "p = (k, v)" by (cases p)
  let ?ks = "rev (remdups (rev (map fst ps)))"
  have IH: "fold (\<lambda>(k, v). fields_put k v) ps [] = map (\<lambda>k. (k, pack (vals_of k ps))) ?ks"
    using snoc by simp
  have vals: "vals_of x (ps @ [p]) = (if x = k then vals_of x ps @ [v] else vals_of x ps)" for x
    by (simp add: vals_of_def p)
  show ?case
  proof (cases "k \<in> fst ` set ps")
    case False
    then have "vals_of k ps = []" by (force simp: vals_of_def filter_empty_conv)
    then show ?thesis using False
      by (simp add: p [symmetric] IH) (auto simp add: p fields_put_new vals [unfolded p] image_iff pack_def)
  next
    case True
    then have ne: "vals_of k ps \<noteq> []" by (force simp: vals_of_def filter_empty_conv)
    have na: "\<forall>x \<in> set (vals_of k ps). \<not> is_array x" using snoc.prems by (auto simp: vals_of_def)
    have k: "distinct ?ks" "k \<in> set ?ks" using True by auto
    show ?thesis using True
      by (simp add: p [symmetric] IH) (simp add: p vals [unfolded p] fields_put_map [OF k] join_pack [OF ne na] image_iff)
  qed
qed (simp)

text \<open>The fields of a message come out once per field number, in order of first appearance,
  each with its value or, when the number repeats, with the array of its values in wire order.\<close>

theorem ordered_fields_collect:
  assumes "\<forall>p \<in> set nvs. \<not> is_array (snd p)"
  shows "fold (\<lambda>(num, v). fields_append num v) nvs [] =
    map (\<lambda>k. (k, pack (vals_of k (map (\<lambda>(num, v). (Itoa num, v)) nvs))))
      (rev (remdups (rev (map (Itoa \<circ> fst) nvs))))"
proof -
  have "fold (\<lambda>(num, v). fields_append num v) nvs fs =
      fold (\<lambda>(k, v). fields_put k v) (map (\<lambda>(num, v). (Itoa num, v)) nvs) fs" for fs
    by (induction nvs arbitrary: fs) (auto simp: fields_append_def)
  moreover have m: "map fst (map (\<lambda>(num, v). (Itoa num, v)) nvs) = map (Itoa \<circ> fst) nvs" by auto
  moreover have "\<forall>p \<in> set (map (\<lambda>(num, v). (Itoa num, v)) nvs). \<not> is_array (snd p)"
    using assms by auto
  ultimately show ?thesis
    using fields_collect [of "map (\<lambda>(num, v). (Itoa num, v)) nvs"] by (simp only: m)
qed

theorem ordered_fields_collect_witness:
  "fold (\<lambda>(num, v). fields_append num v) [(1, WUint 7), (2, WText ''a''), (1, WUint 8)] [] =
    [(''1'', WList [WUint 7, WUint 8]), (''2'', WText ''a'')]"
proof -
  have i: "Itoa 1 = ''1''" "Itoa 2 = ''2''" by code_simp+
  show ?thesis
    using ordered_fields_collect [of "[(1, WUint 7), (2, WText ''a''), (1, WUint 8)]"]
    by (simp add: i vals_of_def pack_def is_array_def)
qed

subsection \<open>Readable strings\<close>

lemma multibyte_fewer_runes:
  "Utf8Valid b \<Longrightarrow> c \<in> set b \<Longrightarrow> 128 \<le> byte c \<Longrightarrow> length (Runes b) < length b"
proof (induction b arbitrary: c rule: Runes.induct)
  case (1 s)
  let ?n = "utf8_len s"
  have s: "s \<noteq> []" "?n \<noteq> 0" "Utf8Valid (drop ?n s)"
    using "1.prems" by (auto simp: Utf8Valid.simps [of s] split: if_splits)
  then have len: "length (Runes s) = Suc (length (Runes (drop ?n s)))" by (subst Runes.simps) simp
  have le: "length (Runes (drop ?n s)) \<le> length s - ?n" using length_Runes_le [of "drop ?n s"] by simp
  show ?case
  proof (cases "?n = 1")
    case False
    with s(2) have "2 \<le> ?n" by simp
    with len le utf8_len_le [of s] show ?thesis by linarith
  next
    case True
    obtain d t where st: "s = d # t" using s(1) by (cases s) auto
    have "byte d < 128"
      using True st by (auto simp: utf8_len_def Let_def split: if_splits)
    with "1.prems"(2,3) st True have "c \<in> set (drop ?n s)" by auto
    with "1.IH"(2) [OF s(1,2) s(3) _ "1.prems"(3)] len True st show ?thesis by simp
  qed
qed

text \<open>The test for readable text compares bytes with runes, so it rejects every valid UTF-8
  text that has a non-ASCII character, which is then shown as base64, and accepts bytes that
  are not UTF-8 at all.\<close>

theorem readable_string_rejects_utf8:
  assumes "Utf8Valid b" and "c \<in> set b" and "128 \<le> byte c"
  shows "\<not> isReadableString b \<and> (isReadableString [CHR 0xFF] \<and> \<not> Utf8Valid [CHR 0xFF])"
proof -
  have "utf8_len [CHR 0xFF] = 0" by (simp add: utf8_len_def byte_def)
  then have "isReadableString [CHR 0xFF] \<and> \<not> Utf8Valid [CHR 0xFF]"
    by (simp add: isReadableString_def Runes.simps [of "[CHR 0xFF]"] Utf8Valid.simps [of "[CHR 0xFF]"] byte_def)
  moreover have "\<not> isReadableString b"
    using multibyte_fewer_runes [OF assms] by (simp add: isReadableString_def)
  ultimately show ?thesis by blast
qed

theorem readable_string_rejects_utf8_witness:
  "\<not> isReadableString [CHR ''c'', CHR 0xC3, CHR 0xA9]"
proof -
  have "Utf8Valid [CHR ''c'', CHR 0xC3, CHR 0xA9]" by code_simp
  from readable_string_rejects_utf8 [OF this, of "CHR 0xC3"] show ?thesis by (simp add: byte_def)
qed

end
