(* ===== verification/Body_Decoder.thy ===== *)
theory Body_Decoder
  imports Protobuf_Raw
begin

section \<open>Decoders, gRPC-Web frames and proto registries (internal/bodydecoder)\<close>

text \<open>
  The proto registry with its method lookup (protoregistry.go), the registry chosen by host
  (host_registry.go), the raw protobuf decoder over it, the gRPC-Web framing (grpcweb.go) and
  the ordered list of decoders (decoder.go, encoder.go).  A method descriptor is a value of
  type \<open>'m\<close>; the protobuf libraries that work on one are the fields of \<open>protolib\<close>.
\<close>

record DecoderMetadata =
  dm_RequestPath :: string
  dm_Host :: string
  dm_IsRequest :: bool
  dm_OriginalBody :: string

definition ErrNoDecoder :: string where
  "ErrNoDecoder = ''no decoder matched content type''"

definition ErrNoEncoder :: string where
  "ErrNoEncoder = ''no encoder matched content type''"

subsection \<open>Proto registry\<close>

type_synonym 'm ProtoRegistry = "(string \<times> 'm) list"

text \<open>The libraries: decode wire bytes to JSON and encode JSON to wire bytes for the input
  (\<open>True\<close>) or output message of a method; the raw decoder's parts.\<close>

record 'm protolib =
  pl_decode :: "'m \<Rightarrow> bool \<Rightarrow> string \<Rightarrow> string or_err"
  pl_encode :: "'m \<Rightarrow> bool \<Rightarrow> string \<Rightarrow> string or_err"
  pl_wire :: protowire
  pl_marshal :: "orderedFields \<Rightarrow> string or_err"

definition extractGRPCPath :: "string \<Rightarrow> string \<times> string" where
  "extractGRPCPath path0 =
     (let parts = Split CHR ''/'' (TrimPrefix path0 ''/'')
      in if length parts < 2 then ([], [])
         else let mth = parts ! (length parts - 1); svc = parts ! (length parts - 2)
              in if svc = [] \<or> mth = [] then ([], []) else (svc, mth))"

definition HasMethods :: "'m ProtoRegistry option \<Rightarrow> bool" where
  "HasMethods r = (case r of None \<Rightarrow> False | Some ms \<Rightarrow> length ms > 0)"

definition LookupMethod :: "'m ProtoRegistry option \<Rightarrow> string \<Rightarrow> 'm option" where
  "LookupMethod r requestPath =
     (if \<not> HasMethods r then None
      else let (svc, mth) = extractGRPCPath requestPath
           in if svc = [] \<or> mth = [] then None else map_of (the r) (svc @ ''/'' @ mth))"

definition newMessage :: "'m ProtoRegistry option \<Rightarrow> string \<Rightarrow> 'm or_err" where
  "newMessage r requestPath = (case LookupMethod r requestPath of
     None \<Rightarrow> Inl (''no method descriptor for path '' @ [CHR 0x22] @ requestPath @ [CHR 0x22])
   | Some m \<Rightarrow> Inr m)"

definition DecodeNamed :: "'m protolib \<Rightarrow> 'm ProtoRegistry option \<Rightarrow> string \<Rightarrow> string \<Rightarrow> bool \<Rightarrow> string or_err" where
  "DecodeNamed pl r body requestPath isRequest = (case newMessage r requestPath of
     Inl e \<Rightarrow> Inl e | Inr m \<Rightarrow> pl_decode pl m isRequest body)"

definition EncodeNamed :: "'m protolib \<Rightarrow> 'm ProtoRegistry option \<Rightarrow> string \<Rightarrow> string \<Rightarrow> bool \<Rightarrow> string or_err" where
  "EncodeNamed pl r jsonBody requestPath isRequest = (case newMessage r requestPath of
     Inl e \<Rightarrow> Inl e | Inr m \<Rightarrow> pl_encode pl m isRequest jsonBody)"

subsection \<open>Registry by host\<close>

text \<open>The hosts map in the order in which the wildcard loop visits it (Go's map order is
  arbitrary, so the list is any permutation of the map).\<close>

record 'm HostAwareRegistry =
  har_fallback :: "'m ProtoRegistry option"
  har_hosts :: "(string \<times> 'm ProtoRegistry) list"

definition matchHostPattern :: "string \<Rightarrow> string \<Rightarrow> bool" where
  "matchHostPattern pattern host =
     (if \<not> HasPrefix pattern ''*.'' then pattern = host
      else let suff = drop 1 pattern in HasSuffix host suff \<and> length host > length suff)"

definition Resolve :: "'m HostAwareRegistry option \<Rightarrow> string \<Rightarrow> 'm ProtoRegistry option" where
  "Resolve r host0 = (case r of None \<Rightarrow> None
     | Some hr \<Rightarrow>
        let host1 = (case LastIndexByte host0 CHR '':'' of Some i \<Rightarrow> take i host0 | None \<Rightarrow> host0);
            host = ToLower host1
        in case map_of (har_hosts hr) host of Some reg \<Rightarrow> Some reg
           | None \<Rightarrow> (case find (\<lambda>(p, _). HasPrefix p ''*.'' \<and> matchHostPattern p host) (har_hosts hr) of
               Some (_, reg) \<Rightarrow> Some reg
             | None \<Rightarrow> har_fallback hr))"

definition StaticResolver :: "'m ProtoRegistry option \<Rightarrow> string \<Rightarrow> 'm ProtoRegistry option" where
  "StaticResolver reg = (\<lambda>_. reg)"

subsection \<open>The protobuf decoder\<close>

text \<open>A resolver that is nil gives a nil registry.\<close>

type_synonym 'm resolver = "(string \<Rightarrow> 'm ProtoRegistry option) option"

definition resolveReg :: "'m resolver \<Rightarrow> string \<Rightarrow> 'm ProtoRegistry option" where
  "resolveReg d host = (case d of None \<Rightarrow> None | Some f \<Rightarrow> f host)"

definition ProtoEncode :: "'m protolib \<Rightarrow> 'm resolver \<Rightarrow> string \<Rightarrow> DecoderMetadata \<Rightarrow> string or_err" where
  "ProtoEncode pl d jsonBody meta =
     (let reg = resolveReg d (dm_Host meta)
      in if reg = None \<or> \<not> HasMethods reg then Inl (''proto registry has no methods: '' @ ErrNoEncoder)
         else EncodeNamed pl reg jsonBody (dm_RequestPath meta) (dm_IsRequest meta))"

definition ProtoDecode :: "'m protolib \<Rightarrow> 'm resolver \<Rightarrow> string \<Rightarrow> DecoderMetadata \<Rightarrow> (string \<times> string) or_err" where
  "ProtoDecode pl d body meta =
     (let reg = resolveReg d (dm_Host meta);
          named = (if reg \<noteq> None \<and> HasMethods reg \<and> dm_RequestPath meta \<noteq> []
                   then DecodeNamed pl reg body (dm_RequestPath meta) (dm_IsRequest meta) else Inl [])
      in case named of Inr decoded \<Rightarrow> Inr (decoded, ''application/json'')
         | Inl _ \<Rightarrow> decodeRaw (pl_wire pl) (pl_marshal pl) body)"

subsection \<open>gRPC-Web frames\<close>

definition grpcWebContentTypes :: "string list" where
  "grpcWebContentTypes = [''application/grpc-web'', ''application/grpc-web+proto'']"

text \<open>The big-endian 32-bit length of a frame header.\<close>

definition be32 :: "string \<Rightarrow> nat" where
  "be32 b = byte (b ! 0) * 2 ^ 24 + byte (b ! 1) * 2 ^ 16 + byte (b ! 2) * 2 ^ 8 + byte (b ! 3)"

definition put_be32 :: "nat \<Rightarrow> string" where
  "put_be32 n = [char_of (n div 2 ^ 24), char_of (n div 2 ^ 16), char_of (n div 2 ^ 8), char_of n]"

function extractNonDataFrames :: "string \<Rightarrow> string" where
  "extractNonDataFrames remaining =
     (if length remaining \<ge> 5
      then let flag = byte (remaining ! 0);
               end' = min (5 + be32 (drop 1 remaining)) (length remaining)
           in (if flag \<noteq> 0 then take end' remaining else []) @ extractNonDataFrames (drop end' remaining)
      else [])"
  by pat_completeness auto
termination
  by (relation "measure length") auto

declare extractNonDataFrames.simps [simp del]

definition hex2 :: "nat \<Rightarrow> string" where
  "hex2 n = (let d = (\<lambda>k. if k < 10 then char_of (48 + k) else char_of (87 + k :: nat))
     in [d (n div 16), d (n mod 16)])"

function data_frames :: "string \<Rightarrow> string \<Rightarrow> string list \<Rightarrow> (string \<times> string list) or_err" where
  "data_frames remaining payload notes =
     (if length remaining = 0 then Inr (payload, notes)
      else if length remaining < 5
      then Inl (''truncated frame header: '' @ show_nat (length remaining) @ '' bytes remaining'')
      else
        (let flag = byte (remaining ! 0);
             len = be32 (drop 1 remaining);
             rest = drop 5 remaining;
             truncated = (length rest < len);
             notes1 = (if truncated
               then notes @ [''truncated frame: expected '' @ show_nat len @ '' bytes, got '' @ show_nat (length rest)]
               else notes);
             frameData = (if truncated then rest else take len rest);
             payload1 = (if flag = 0 then payload @ frameData else payload);
             notes2 = (if flag = 0 then notes1
               else if flag = 1 then notes1 @ [''[compressed gRPC payload, '' @ show_nat len @ '' bytes]'']
               else if flag \<ge> 128 then notes1
               else notes1 @ [''[unknown frame flag 0x'' @ hex2 flag @ '', '' @ show_nat len @ '' bytes]''])
         in if truncated then Inr (payload1, notes2)
            else data_frames (drop len rest) payload1 notes2))"
  by pat_completeness auto
termination
  by (relation "measure (\<lambda>(r, p, n). length r)") auto

declare data_frames.simps [simp del]

definition extractDataFrames :: "string \<Rightarrow> (string \<times> string list) or_err" where
  "extractDataFrames body = data_frames body [] []"

definition GrpcWebEncode :: "'m protolib \<Rightarrow> 'm resolver \<Rightarrow> string \<Rightarrow> DecoderMetadata \<Rightarrow> string or_err" where
  "GrpcWebEncode pl d jsonBody meta = (case ProtoEncode pl d jsonBody meta of Inl e \<Rightarrow> Inl e
     | Inr payload \<Rightarrow>
        if length payload > 4294967295
        then Inl (''payload too large for gRPC-Web frame: '' @ show_nat (length payload) @ '' bytes'')
        else Inr (char_of (0 :: nat) # put_be32 (length payload) @ payload @
               extractNonDataFrames (dm_OriginalBody meta)))"

definition GrpcWebDecode :: "'m protolib \<Rightarrow> 'm resolver \<Rightarrow> string \<Rightarrow> DecoderMetadata \<Rightarrow> (string \<times> string) or_err" where
  "GrpcWebDecode pl d body meta = (case extractDataFrames body of
     Inl e \<Rightarrow> Inl (''grpc-web frame: '' @ e)
   | Inr (payload, notes) \<Rightarrow>
      (case (if length payload > 0 then ProtoDecode pl d payload meta else Inr (''{}'', ''application/json'')) of
         Inl e \<Rightarrow> Inl (''grpc-web payload decode: '' @ e)
       | Inr (res, ct) \<Rightarrow>
           Inr (if length notes > 0
                then res @ [CHR 0x0A, CHR 0x0A] @ ''// '' @ Join notes (CHR 0x0A # ''// '')
                else res, ct)))"

subsection \<open>The list of decoders\<close>

text \<open>A Decoder, with its Encoder half when it has one.\<close>

record decoder =
  d_CanDecode :: "string \<Rightarrow> bool"
  d_Decode :: "string \<Rightarrow> DecoderMetadata \<Rightarrow> (string \<times> string) or_err"
  d_Encoder :: "((string \<Rightarrow> bool) \<times> (string \<Rightarrow> string \<Rightarrow> DecoderMetadata \<Rightarrow> string or_err)) option"

type_synonym Registry = "decoder list"

fun RegistryDecode :: "Registry \<Rightarrow> string \<Rightarrow> string \<Rightarrow> DecoderMetadata \<Rightarrow> (string \<times> string) or_err" where
  "RegistryDecode [] body contentType meta = Inl ErrNoDecoder"
| "RegistryDecode (d # ds) body contentType meta =
     (if d_CanDecode d contentType then d_Decode d body meta else RegistryDecode ds body contentType meta)"

fun RegistryEncode :: "Registry \<Rightarrow> string \<Rightarrow> string \<Rightarrow> DecoderMetadata \<Rightarrow> string or_err" where
  "RegistryEncode [] jsonBody contentType meta = Inl ErrNoEncoder"
| "RegistryEncode (d # ds) jsonBody contentType meta =
     (case d_Encoder d of
        Some (can, enc) \<Rightarrow> if can contentType then enc jsonBody contentType meta
          else RegistryEncode ds jsonBody contentType meta
      | None \<Rightarrow> RegistryEncode ds jsonBody contentType meta)"

definition RawProtobufDecoder :: "'m protolib \<Rightarrow> 'm resolver \<Rightarrow> decoder" where
  "RawProtobufDecoder pl d = \<lparr>d_CanDecode = (\<lambda>ct. matchesContentType ct protobufContentTypes),
     d_Decode = ProtoDecode pl d,
     d_Encoder = Some (\<lambda>ct. matchesContentType ct protobufContentTypes, \<lambda>js _ meta. ProtoEncode pl d js meta)\<rparr>"

definition GRPCWebDecoder :: "'m protolib \<Rightarrow> 'm resolver \<Rightarrow> decoder" where
  "GRPCWebDecoder pl d = \<lparr>d_CanDecode = (\<lambda>ct. matchesContentType ct grpcWebContentTypes),
     d_Decode = GrpcWebDecode pl d,
     d_Encoder = Some (\<lambda>ct. matchesContentType ct grpcWebContentTypes, \<lambda>js _ meta. GrpcWebEncode pl d js meta)\<rparr>"

subsection \<open>Frames\<close>

text \<open>A frame is a flag byte and a payload; a well-formed body is a sequence of them.\<close>

definition enc_frame :: "nat \<times> string \<Rightarrow> string" where
  "enc_frame f = char_of (fst f) # put_be32 (length (snd f)) @ snd f"

definition enc_frames :: "(nat \<times> string) list \<Rightarrow> string" where
  "enc_frames fs = concat (map enc_frame fs)"

definition frame_ok :: "nat \<times> string \<Rightarrow> bool" where
  "frame_ok f \<longleftrightarrow> fst f < 256 \<and> length (snd f) < 2 ^ 32"

definition frame_notes :: "nat \<times> string \<Rightarrow> string list" where
  "frame_notes f = (if fst f = 0 \<or> fst f \<ge> 128 then []
     else if fst f = 1 then [''[compressed gRPC payload, '' @ show_nat (length (snd f)) @ '' bytes]'']
     else [''[unknown frame flag 0x'' @ hex2 (fst f) @ '', '' @ show_nat (length (snd f)) @ '' bytes]''])"

lemma be32_put: "n < 2 ^ 32 \<Longrightarrow> be32 (put_be32 n @ t) = n"
proof -
  assume n: "n < 2 ^ 32"
  define m1 m2 m3 where "m1 = n div 256" and "m2 = m1 div 256" and "m3 = m2 div 256"
  have d: "n div 16777216 = m3" "n div 65536 = m2" "n div 256 = m1"
    by (simp_all add: m1_def m2_def m3_def div_mult2_eq [symmetric])
  have "m3 < 256" using n unfolding m1_def m2_def m3_def by (simp add: div_mult2_eq [symmetric] less_mult_imp_div_less)
  moreover have "n = 256 * m1 + n mod 256" by (simp add: m1_def)
  moreover have "m1 = 256 * m2 + m1 mod 256" by (simp add: m2_def)
  moreover have "m2 = 256 * m3 + m2 mod 256" by (simp add: m3_def)
  ultimately have "m3 mod 256 * 16777216 + m2 mod 256 * 65536 + m1 mod 256 * 256 + n mod 256 = n"
    by simp
  then show ?thesis by (simp add: be32_def put_be32_def d nth_Cons')
qed

lemma length_put_be32 [simp]: "length (put_be32 n) = 4"
  by (simp add: put_be32_def)

lemma length_enc_frame: "length (enc_frame f) = 5 + length (snd f)"
  by (simp add: enc_frame_def)

lemma enc_frame_parts:
  assumes "frame_ok f"
  shows "length (enc_frame f @ t) \<ge> 5" "byte ((enc_frame f @ t) ! 0) = fst f"
    "be32 (drop 1 (enc_frame f @ t)) = length (snd f)" "drop 5 (enc_frame f @ t) = snd f @ t"
proof -
  show "length (enc_frame f @ t) \<ge> 5" by (simp add: length_enc_frame)
  show "byte ((enc_frame f @ t) ! 0) = fst f" using assms by (simp add: enc_frame_def frame_ok_def)
  show "be32 (drop 1 (enc_frame f @ t)) = length (snd f)"
    using assms be32_put [of "length (snd f)" "snd f @ t"] by (simp add: enc_frame_def frame_ok_def)
  have "drop 5 (enc_frame f @ t) = drop (length (put_be32 (length (snd f)))) (put_be32 (length (snd f)) @ snd f @ t)"
    unfolding length_put_be32 by (simp add: enc_frame_def numeral_eq_Suc)
  then show "drop 5 (enc_frame f @ t) = snd f @ t" by simp
qed

lemma data_frames_enc:
  assumes "frame_ok f"
  shows "data_frames (enc_frame f @ t) p ns =
    data_frames t (if fst f = 0 then p @ snd f else p) (ns @ frame_notes f)"
proof -
  note P = enc_frame_parts [OF assms, of t]
  have "length (enc_frame f @ t) \<noteq> 0" "\<not> length (enc_frame f @ t) < 5" using P(1) by linarith+
  moreover have "enc_frame f \<noteq> []" by (simp add: enc_frame_def)
  ultimately show ?thesis
    unfolding data_frames.simps [of "enc_frame f @ t"] P(2-4) frame_notes_def by (simp add: Let_def)
qed

lemma data_frames_all:
  "\<forall>f \<in> set fs. frame_ok f \<Longrightarrow> data_frames (enc_frames fs) p ns =
   Inr (p @ concat (map snd (filter (\<lambda>f. fst f = 0) fs)), ns @ concat (map frame_notes fs))"
proof (induction fs arbitrary: p ns)
  case Nil
  then show ?case by (simp add: enc_frames_def data_frames.simps)
next
  case (Cons f fs)
  then show ?case using data_frames_enc [of f "enc_frames fs"] by (simp add: enc_frames_def)
qed

lemma non_data_enc:
  assumes "frame_ok f"
  shows "extractNonDataFrames (enc_frame f @ t) =
    (if fst f \<noteq> 0 then enc_frame f else []) @ extractNonDataFrames t"
proof -
  note P = enc_frame_parts [OF assms, of t]
  have m: "min (5 + length (snd f)) (length (enc_frame f @ t)) = length (enc_frame f)"
    by (simp add: length_enc_frame)
  show ?thesis
    unfolding extractNonDataFrames.simps [of "enc_frame f @ t"] P(2,3) Let_def m using P(1) by simp
qed

lemma non_data_all:
  "\<forall>f \<in> set fs. frame_ok f \<Longrightarrow>
   extractNonDataFrames (enc_frames fs) = enc_frames (filter (\<lambda>f. fst f \<noteq> 0) fs)"
proof (induction fs)
  case Nil
  then show ?case by (simp add: enc_frames_def extractNonDataFrames.simps)
next
  case (Cons f fs)
  then show ?case using non_data_enc [of f "enc_frames fs"] by (simp add: enc_frames_def)
qed


definition demo_pl :: "nat protolib" where
  "demo_pl = \<lparr>pl_decode = (\<lambda>m i b. Inr b), pl_encode = (\<lambda>m i j. Inr j), pl_wire = demo_pw,
     pl_marshal = (\<lambda>f. Inr [])\<rparr>"

definition demo_meta_rpc :: DecoderMetadata where
  "demo_meta_rpc = \<lparr>dm_RequestPath = ''/x/p.S/M'', dm_Host = ''h'', dm_IsRequest = True,
     dm_OriginalBody = enc_frames [(0, ''old''), (128, ''ok'')]\<rparr>"


subsection \<open>Lookup\<close>

text \<open>A method is found by the last two segments of the request path, whatever prefix a
  gateway put in front of them.\<close>

theorem lookup_ignores_prefix:
  assumes "CHR ''/'' \<notin> set svc" and "CHR ''/'' \<notin> set mth" and "svc \<noteq> []" and "mth \<noteq> []" and "reg \<noteq> []"
  shows "LookupMethod (Some reg) (pre @ ''/'' @ svc @ ''/'' @ mth) = map_of reg (svc @ ''/'' @ mth)"
proof -
  have app: "Split CHR ''/'' (q @ CHR ''/'' # t) = Split CHR ''/'' q @ Split CHR ''/'' t" for q t
  proof (induction q)
    case (Cons c q)
    then show ?case by (cases "Split CHR ''/'' q") auto
  qed simp
  have sm: "Split CHR ''/'' (svc @ ''/'' @ mth) = [svc, mth]"
    using assms(1,2) by (simp add: Split_append Split_id)
  obtain ws where ws: "Split CHR ''/'' (TrimPrefix (pre @ ''/'' @ svc @ ''/'' @ mth) ''/'') = ws @ [svc, mth]"
  proof (cases pre)
    case Nil
    with sm that [of "[]"] show ?thesis by (simp add: TrimPrefix_def)
  next
    case (Cons c q)
    show ?thesis
    proof (cases "c = CHR ''/''")
      case True
      with Cons sm app [of q] that [of "Split CHR ''/'' q"] show ?thesis by (simp add: TrimPrefix_def)
    next
      case False
      with Cons sm app [of "c # q"] that [of "Split CHR ''/'' (c # q)"] show ?thesis by (simp add: TrimPrefix_def)
    qed
  qed
  have "extractGRPCPath (pre @ ''/'' @ svc @ ''/'' @ mth) = (svc, mth)"
    using assms(3,4) unfolding extractGRPCPath_def ws Let_def by (simp add: nth_append)
  with assms show ?thesis by (simp add: LookupMethod_def HasMethods_def)
qed

theorem lookup_ignores_prefix_witness:
  "LookupMethod (Some [(''p.S/M'', 7 :: nat)]) ''/gw/v1/p.S/M'' = Some 7"
  using lookup_ignores_prefix [of "''p.S''" "''M''" "[(''p.S/M'', 7 :: nat)]" "''/gw/v1''"] by simp

text \<open>The registry of a host does not depend on the order of the hosts map as long as at most
  one wildcard pattern covers the host; an exact entry always wins and the fallback is used
  only when nothing matches.\<close>

theorem resolve_deterministic:
  assumes "distinct (map fst hs)" and "mset hs' = mset hs" and "CHR '':'' \<notin> set port"
    and "\<forall>p \<in> fst ` set hs. \<forall>q \<in> fst ` set hs. HasPrefix p ''*.'' \<and> matchHostPattern p (ToLower h) \<and>
      HasPrefix q ''*.'' \<and> matchHostPattern q (ToLower h) \<longrightarrow> p = q"
  shows "Resolve (Some \<lparr>har_fallback = fb, har_hosts = hs'\<rparr>) (h @ '':'' @ port) =
      Resolve (Some \<lparr>har_fallback = fb, har_hosts = hs\<rparr>) (h @ '':'' @ port) \<and>
    (map_of hs (ToLower h) = Some reg \<longrightarrow>
       Resolve (Some \<lparr>har_fallback = fb, har_hosts = hs\<rparr>) (h @ '':'' @ port) = Some reg)"
proof -
  let ?P = "\<lambda>(p, _). HasPrefix p ''*.'' \<and> matchHostPattern p (ToLower h)"
  have set: "set hs' = set hs" using assms(2) by (rule mset_eq_setD)
  have dist: "distinct (map fst hs')"
    using assms(1,2) by (metis mset_eq_imp_distinct_iff mset_map)
  have mo: "map_of hs' = map_of hs" using map_of_inject_set [OF dist assms(1)] set by simp
  have eq: "e = e'" if "e \<in> set hs" "e' \<in> set hs" "?P e" "?P e'" for e e'
  proof -
    have "fst e = fst e'" using that assms(4) [rule_format, OF imageI imageI, OF that(1,2)] by (simp add: case_prod_beta)
    moreover have "(fst e, snd e) \<in> set hs" "(fst e', snd e') \<in> set hs" using that(1,2) by simp_all
    ultimately have "snd e = snd e'" using eq_key_imp_eq_value [OF assms(1)] by metis
    with \<open>fst e = fst e'\<close> show ?thesis by (simp add: prod_eq_iff)
  qed
  have "find ?P hs' = find ?P hs"
  proof (cases "find ?P hs")
    case None
    then have "find ?P hs' = None" unfolding find_None_iff set .
    with None show ?thesis by simp
  next
    case (Some e)
    then have e: "e \<in> set hs" "?P e" by (blast dest: find_SomeD)+
    then have "find ?P hs' \<noteq> None" unfolding find_None_iff set by blast
    then obtain e' where e': "find ?P hs' = Some e'" by blast
    from find_SomeD [OF e'] have "e' \<in> set hs" "?P e'" by (simp_all add: set)
    from eq [OF e(1) this(1) e(2) this(2)] e' Some show ?thesis by simp
  qed
  then show ?thesis using assms(3) mo by (auto simp: Resolve_def LastIndexByte_append Let_def split: option.split)
qed

theorem resolve_deterministic_witness:
  "Resolve (Some \<lparr>har_fallback = None, har_hosts = [(''b'', [(''y'', 2)]), (''a'', [(''x'', 1 :: nat)])]\<rparr>) ''A:80'' =
   Some [(''x'', 1)]"
proof -
  have "ToLower ''A'' = ''a''" by code_simp
  then show ?thesis
    using resolve_deterministic [of "[(''a'', [(''x'', 1 :: nat)]), (''b'', [(''y'', 2)])]"
      "[(''b'', [(''y'', 2)]), (''a'', [(''x'', 1 :: nat)])]" "''80''" "''A''" None "[(''x'', 1)]"]
    by auto
qed

text \<open>With two wildcard patterns that cover the same host the registry depends on the order in
  which Go happens to visit the map, so the answer can differ from one call to the next.\<close>

theorem resolve_depends_on_map_order:
  "Resolve (Some \<lparr>har_fallback = None, har_hosts = [(''*.com'', [(''x'', 1 :: nat)]), (''*.a.com'', [(''y'', 2)])]\<rparr>) ''b.a.com'' \<noteq>
   Resolve (Some \<lparr>har_fallback = None, har_hosts = [(''*.a.com'', [(''y'', 2)]), (''*.com'', [(''x'', 1 :: nat)])]\<rparr>) ''b.a.com''"
  by code_simp

end
