(* ===== verification/Proc_Info.thy ===== *)
theory Proc_Info
  imports Flow_Store
begin

section \<open>Which process owns a connection (internal/procinfo)\<close>

text \<open>
  The resolver is a client of the store through the \<open>flow_updater\<close> interface: it looks up the
  process of a client port and writes name, PID and command line into the flow.  The operating
  system's answers (PID of a port, name and command line of a PID) are the record \<open>osinfo\<close>;
  they may differ from call to call, so a resolution takes the answers current at its time.
  At most ten resolutions run at once: \<open>acquire\<close> and \<open>release\<close> model the semaphore.
\<close>

record osinfo =
  os_findPID :: "nat \<Rightarrow> int or_err"
  os_processName :: "int \<Rightarrow> string or_err"
  os_processCmdline :: "int \<Rightarrow> string or_err"

record Resolver =
  pr_pidCache :: "(int \<times> string) list"
  pr_failCount :: int
  pr_warned :: bool
  pr_log :: "int list"
  pr_running :: nat

definition NewResolver :: Resolver where
  "NewResolver = \<lparr>pr_pidCache = [], pr_failCount = 0, pr_warned = False, pr_log = [], pr_running = 0\<rparr>"

definition maxConcurrent :: nat where
  "maxConcurrent = 10"

definition failThreshold :: int where
  "failThreshold = 5"

text \<open>The em dash in UTF-8.\<close>

definition fallbackName :: string where
  "fallbackName = [CHR 0xE2, CHR 0x80, CHR 0x94]"

definition acquire :: "Resolver \<Rightarrow> Resolver option" where
  "acquire r = (if pr_running r < maxConcurrent then Some (r\<lparr>pr_running := pr_running r + 1\<rparr>) else None)"

definition release :: "Resolver \<Rightarrow> Resolver" where
  "release r = r\<lparr>pr_running := pr_running r - 1\<rparr>"

text \<open>The warning is logged once, with the count at that time.\<close>

definition recordFailure :: "Resolver \<Rightarrow> Resolver" where
  "recordFailure r =
     (let n = pr_failCount r + 1; r1 = r\<lparr>pr_failCount := n\<rparr>
      in if n \<ge> failThreshold \<and> \<not> pr_warned r1
         then r1\<lparr>pr_warned := True, pr_log := pr_log r1 @ [n]\<rparr> else r1)"

definition cachedProcessName :: "osinfo \<Rightarrow> int \<Rightarrow> Resolver \<Rightarrow> string or_err \<times> Resolver" where
  "cachedProcessName os pid r = (case map_of (pr_pidCache r) pid of Some name \<Rightarrow> (Inr name, r)
     | None \<Rightarrow> (case os_processName os pid of Inl e \<Rightarrow> (Inl e, r)
         | Inr name \<Rightarrow> (Inr name, r\<lparr>pr_pidCache := AList.update pid name (pr_pidCache r)\<rparr>)))"

text \<open>\<open>resolve\<close>, with the two store operations it calls as arguments.\<close>

definition resolve :: "osinfo \<Rightarrow> (FlowID \<Rightarrow> (FlowMeta \<Rightarrow> FlowMeta) \<Rightarrow> 's \<Rightarrow> 's)
    \<Rightarrow> (FlowID \<Rightarrow> (FlowData \<Rightarrow> FlowData) \<Rightarrow> 's \<Rightarrow> 's) \<Rightarrow> FlowID \<Rightarrow> nat \<Rightarrow> Resolver \<times> 's \<Rightarrow> Resolver \<times> 's" where
  "resolve os upd upd_data flowID clientPort st = (case st of (r, s) \<Rightarrow>
     (case os_findPID os clientPort of
        Inl _ \<Rightarrow> (recordFailure r, upd flowID (fm_Process_update (\<lambda>_. fallbackName)) s)
      | Inr pid \<Rightarrow>
         (let (nm, r1) = cachedProcessName os pid r;
              (name, r2) = (case nm of Inl _ \<Rightarrow> (fallbackName, recordFailure r1)
                | Inr n \<Rightarrow> (n, r1\<lparr>pr_failCount := 0\<rparr>));
              cmdline = (case os_processCmdline os pid of Inr c \<Rightarrow> c | Inl _ \<Rightarrow> []);
              s1 = upd flowID (\<lambda>m. m\<lparr>fm_Process := name, fm_ProcessPID := pid\<rparr>) s;
              s2 = upd_data flowID (\<lambda>d. d\<lparr>fd_ProcessPID := pid, fd_ProcessCmdline := cmdline\<rparr>) s1
          in (r2, s2))))"

text \<open>\<open>defaultFindPID\<close> over the list of connections of the system: local port and PID.\<close>

definition defaultFindPID :: "(nat \<times> int) list or_err \<Rightarrow> nat \<Rightarrow> int or_err" where
  "defaultFindPID conns port = (case conns of Inl e \<Rightarrow> Inl e
     | Inr cs \<Rightarrow> (case find (\<lambda>(p, _). p = port) cs of Some (_, pid) \<Rightarrow> Inr pid
         | None \<Rightarrow> Inl (''no connection found for port '' @ show_nat port)))"

subsection \<open>The resolver over any store\<close>

definition proc_meta :: "string \<Rightarrow> int \<Rightarrow> FlowMeta \<Rightarrow> FlowMeta" where
  "proc_meta name pid m = m\<lparr>fm_Process := name, fm_ProcessPID := pid\<rparr>"

definition proc_data :: "int \<Rightarrow> string \<Rightarrow> FlowData \<Rightarrow> FlowData" where
  "proc_data pid cmd d = d\<lparr>fd_ProcessPID := pid, fd_ProcessCmdline := cmd\<rparr>"

lemma keeps_id_proc [simp]:
  "keeps_id (\<lambda>m. m\<lparr>fm_Process := name, fm_ProcessPID := pid\<rparr>)"
  "keeps_id (fm_Process_update f)"
  by (simp_all add: keeps_id_def)

context flow_updater
begin

lemma resolve_found:
  assumes "invar s" and "os_findPID os port = Inr pid" and "cachedProcessName os pid r = (Inr name, r1)"
    and "os_processCmdline os pid = Inr cmd"
  shows "\<exists>s'. resolve os upd upd_data i port (r, s) = (r1\<lparr>pr_failCount := 0\<rparr>, s') \<and> invar s' \<and>
    get j s' = (if j = i then map_sum (\<lambda>e. e)
        (\<lambda>(m, d). (proc_meta name pid m, Some (proc_data pid cmd (data_or_empty d)))) (get j s)
      else get j s)"
proof -
  have v: "invar (upd i (\<lambda>m. m\<lparr>fm_Process := name, fm_ProcessPID := pid\<rparr>) s)"
    using assms(1) by (simp add: get_laws)
  show ?thesis
    using assms v by (cases "get i s")
      (auto simp: resolve_def Let_def get_laws proc_meta_def proc_data_def)
qed

lemma resolve_lost:
  assumes "invar s" and "os_findPID os port = Inl e"
  shows "\<exists>s'. resolve os upd upd_data i port (r, s) = (recordFailure r, s') \<and> invar s' \<and>
    get j s' = (if j = i then map_sum (\<lambda>e. e) (\<lambda>(m, d). (m\<lparr>fm_Process := fallbackName\<rparr>, d)) (get j s)
      else get j s)"
  using assms by (auto simp: resolve_def get_laws)

end

text \<open>Resolving a flow whose port has a process writes its name, PID and command line into that
  flow's summary and data, creating the data when there is none, touches no other flow, and
  resets the failure count; a flow that the store has dropped in the meantime stays dropped.\<close>

theorem resolve_annotates_flow:
  assumes "rb_inv s" and "os_findPID os port = Inr pid" and "cachedProcessName os pid r = (Inr name, r1)"
    and "os_processCmdline os pid = Inr cmd"
  shows "\<exists>s'. resolve os Update UpdateData i port (r, s) = (r1\<lparr>pr_failCount := 0\<rparr>, s') \<and> rb_inv s' \<and>
    Get j s' = (if j = i then map_sum (\<lambda>e. e)
        (\<lambda>(m, d). (proc_meta name pid m, Some (proc_data pid cmd (data_or_empty d)))) (Get j s)
      else Get j s)"
  using assms by (rule rb.resolve_found)

definition demo_os :: osinfo where
  "demo_os = \<lparr>os_findPID = (\<lambda>p. if p = 5000 then Inr 42 else Inl ''none''), os_processName = (\<lambda>_. Inr ''curl''),
     os_processCmdline = (\<lambda>_. Inr ''curl -v'')\<rparr>"

theorem resolve_annotates_flow_witness:
  "\<exists>r' s'. resolve demo_os Update UpdateData [] 5000 (NewResolver, buf1) = (r', s') \<and>
    Get [] s' = Inr (proc_meta ''curl'' 42 zero_meta, Some (proc_data 42 ''curl -v'' empty_data))"
proof -
  have c: "cachedProcessName demo_os 42 NewResolver = (Inr ''curl'', NewResolver\<lparr>pr_pidCache := [(42, ''curl'')]\<rparr>)"
    by (simp add: cachedProcessName_def NewResolver_def demo_os_def)
  have g: "Get [] buf1 = Inr (zero_meta, None)" by (simp add: Get_def buf1_def)
  from resolve_annotates_flow [OF buf1_inv _ c, of 5000 "''curl -v''" "[]" "[]"] show ?thesis
    by (simp add: demo_os_def g data_or_empty_def) blast
qed

subsection \<open>The warning\<close>

text \<open>The events the counter sees.\<close>

fun run_events :: "bool list \<Rightarrow> Resolver \<Rightarrow> Resolver" where
  "run_events [] r = r"
| "run_events (ok # es) r = run_events es (if ok then r\<lparr>pr_failCount := 0\<rparr> else recordFailure r)"

fun streak :: "int \<Rightarrow> bool list \<Rightarrow> bool" where
  "streak n [] = False"
| "streak n (ok # es) = (if ok then streak 0 es else n + 1 \<ge> failThreshold \<or> streak (n + 1) es)"

lemma recordFailure_warned:
  "pr_warned r \<Longrightarrow> pr_warned (recordFailure r) \<and> pr_log (recordFailure r) = pr_log r"
  by (simp add: recordFailure_def Let_def)

lemma warned_log: "pr_warned r \<Longrightarrow> pr_log (run_events es r) = pr_log r"
  by (induction es arbitrary: r) (simp_all add: recordFailure_warned)

lemma recordFailure_first:
  "\<not> pr_warned r \<Longrightarrow> pr_failCount r + 1 \<ge> failThreshold \<Longrightarrow>
   pr_warned (recordFailure r) \<and> pr_log (recordFailure r) = pr_log r @ [pr_failCount r + 1]"
  by (simp add: recordFailure_def Let_def)

lemma recordFailure_below:
  "\<not> pr_failCount r + 1 \<ge> failThreshold \<Longrightarrow> recordFailure r = r\<lparr>pr_failCount := pr_failCount r + 1\<rparr>"
  by (simp add: recordFailure_def Let_def)

text \<open>The permission warning is logged once at most, and exactly when five resolutions have
  failed in a row.\<close>

theorem warn_once:
  "pr_log (run_events es NewResolver) = (if streak 0 es then [failThreshold] else [])"
proof -
  have "pr_log (run_events es r) = (if streak (pr_failCount r) es then [failThreshold] else [])"
    if "\<not> pr_warned r" "pr_log r = []" "pr_failCount r < failThreshold" for r
    using that
  proof (induction es arbitrary: r)
    case (Cons ok es)
    show ?case
    proof (cases "\<not> ok \<and> pr_failCount r + 1 \<ge> failThreshold")
      case True
      then have "pr_failCount r + 1 = failThreshold" using Cons.prems(3) by simp
      with True Cons.prems recordFailure_first [of r] warned_log [of "recordFailure r" es]
      show ?thesis by simp
    next
      case False
      with Cons recordFailure_below [of r] show ?thesis by (auto simp: failThreshold_def)
    qed
  qed simp
  then show ?thesis by (simp add: NewResolver_def failThreshold_def)
qed

end
