(* ===== verification/Interceptor.thy ===== *)
theory Interceptor
  imports Host_Filter Throttle Script_Engine Body_Decoder Proc_Info
begin

section \<open>The interceptor (internal/proxy/interceptor.go, proxy.go)\<close>

text \<open>
  The addon that go-mitmproxy calls for each flow: it captures the flow into the store, runs
  the scripts over (decoded) bodies, and builds synthetic and blocked responses.  A flow of
  go-mitmproxy is the record \<open>mp_flow\<close> with what the code reads and writes of it.  What is
  outside the repository is the record \<open>px\<close>: the decoding of a response body, the compressors,
  url.Parse, and the interpreter of the scripts.  The clock is an argument.  \<open>Resolve\<close> of the
  process resolver starts a goroutine; its job is queued in \<open>ic_jobs\<close> and \<open>run_job\<close> runs one,
  at any later time.
\<close>

subsection \<open>Flows\<close>

record URL =
  u_String :: string
  u_Host :: string
  u_Hostname :: string
  u_Path :: string
  u_RequestURI :: string

record mp_request =
  q_Method :: string
  q_URL :: URL
  q_Header :: header
  q_Body :: string

record mp_response =
  p_StatusCode :: int
  p_Header :: header
  p_Body :: string

record mp_conn =
  cn_Tls :: bool
  cn_RemoteAddr :: "string option"

record mp_flow =
  f_Id :: FlowID
  f_Request :: mp_request
  f_Response :: "mp_response option"
  f_ConnContext :: "mp_conn option"

record px =
  px_goja :: goja
  px_decoded_body :: "mp_response \<Rightarrow> string or_err"
  px_compress :: "string \<Rightarrow> string \<Rightarrow> string option"
  px_parse_url :: "string \<Rightarrow> URL option"

record interceptor =
  ic_store :: RingBuffer
  ic_engine :: "Engine option"
  ic_resolver :: "Resolver option"
  ic_decoderReg :: "Registry option"
  ic_hostFilter :: "HostFilter option"
  ic_throttleBPS :: int
  ic_throttleLatency :: int
  ic_jobs :: "(FlowID \<times> nat) list"

definition maxBodySize :: nat where
  "maxBodySize = 5 * 1024 * 1024"

definition truncate_body :: "string \<Rightarrow> string" where
  "truncate_body b = (if length b > maxBodySize then take maxBodySize b else b)"

definition newInterceptor :: "RingBuffer \<Rightarrow> Engine option \<Rightarrow> Resolver option \<Rightarrow> Registry option
    \<Rightarrow> HostFilter option \<Rightarrow> int \<Rightarrow> int \<Rightarrow> interceptor" where
  "newInterceptor st en rs dr hf bps lat = \<lparr>ic_store = st, ic_engine = en, ic_resolver = rs,
     ic_decoderReg = dr, ic_hostFilter = hf, ic_throttleBPS = bps, ic_throttleLatency = lat, ic_jobs = []\<rparr>"

subsection \<open>Scripts over decoded bodies\<close>

text \<open>\<open>runScriptsWithCodec\<close>; \<open>run\<close> gives the new body, whether it changed, and its state.\<close>

definition runScriptsWithCodec :: "Registry option \<Rightarrow> string \<Rightarrow> string \<Rightarrow> DecoderMetadata
    \<Rightarrow> (string \<Rightarrow> 's \<Rightarrow> string \<times> bool \<times> 's) \<Rightarrow> 's \<Rightarrow> string \<times> 's" where
  "runScriptsWithCodec reg body contentType meta run s =
     (let runRaw = (case run body s of (res, _, s1) \<Rightarrow> (res, s1))
      in case reg of None \<Rightarrow> runRaw
         | Some r \<Rightarrow> (case RegistryDecode r body contentType meta of
             Inl _ \<Rightarrow> runRaw
           | Inr (decoded, _) \<Rightarrow>
              (case run decoded s of (res, changed, s1) \<Rightarrow>
                 if \<not> changed then (body, s1)
                 else (case RegistryEncode r res contentType (meta\<lparr>dm_OriginalBody := body\<rparr>) of
                     Inl _ \<Rightarrow> (body, s1) | Inr encoded \<Rightarrow> (encoded, s1)))))"

definition set_all :: "(string \<times> string) list \<Rightarrow> header" where
  "set_all hs = fold (\<lambda>(k, v) h. HSet k v h) hs []"

subsection \<open>Request side\<close>

text \<open>\<open>net.SplitHostPort\<close> and \<open>strconv.ParseUint(s, 10, 16)\<close>, as \<open>clientPort\<close> uses them.\<close>

definition split_port :: "string \<Rightarrow> string option" where
  "split_port a = (case LastIndexByte a CHR '':'' of None \<Rightarrow> None
     | Some i \<Rightarrow>
        let host = take i a; port = drop (i + 1) a;
            inner = (if HasPrefix host ''['' then butlast (drop 1 host) else host)
        in if CHR ''['' \<in> set port \<or> CHR '']'' \<in> set port then None
           else if HasPrefix host ''['' then
             (if host = ''['' \<or> last host \<noteq> CHR '']'' \<or> CHR ''['' \<in> set inner \<or> CHR '']'' \<in> set inner
              then None else Some port)
           else if CHR '':'' \<in> set inner \<or> CHR ''['' \<in> set inner \<or> CHR '']'' \<in> set inner then None
           else Some port)"

definition clientPort :: "string option \<Rightarrow> nat" where
  "clientPort c = (case c of None \<Rightarrow> 0
     | Some a \<Rightarrow> (case split_port a of None \<Rightarrow> 0
         | Some p \<Rightarrow> if p \<noteq> [] \<and> list_all is_digit p \<and> read_nat p < 65536 then read_nat p else 0))"

definition skips :: "interceptor \<Rightarrow> mp_flow \<Rightarrow> bool" where
  "skips ic f = (case ic_hostFilter ic of None \<Rightarrow> False
     | Some hf \<Rightarrow> \<not> ShouldIntercept hf (u_Host (q_URL (f_Request f))))"

definition Requestheaders :: "int \<Rightarrow> mp_flow \<Rightarrow> interceptor \<Rightarrow> interceptor" where
  "Requestheaders now f ic =
     (if skips ic f then ic
      else
        let u = q_URL (f_Request f);
            meta = zero_meta\<lparr>fm_ID := f_Id f, fm_Method := q_Method (f_Request f),
              fm_Host := u_Hostname u, fm_Path := u_RequestURI u,
              fm_Scheme := (case f_ConnContext f of Some c \<Rightarrow> if cn_Tls c then ''https'' else ''http''
                | None \<Rightarrow> ''http''),
              fm_StartedAt := now, fm_State := StateInProgress\<rparr>
        in case Add meta (ic_store ic) of Inl _ \<Rightarrow> ic
           | Inr st \<Rightarrow>
              let ic1 = ic\<lparr>ic_store := st\<rparr>
              in case (ic_resolver ic1, f_ConnContext f) of
                   (Some _, Some c) \<Rightarrow>
                     (let port = clientPort (cn_RemoteAddr c)
                      in if port > 0 then ic1\<lparr>ic_jobs := ic_jobs ic1 @ [(f_Id f, port)]\<rparr> else ic1)
                 | _ \<Rightarrow> ic1)"

definition run_job :: "osinfo \<Rightarrow> FlowID \<times> nat \<Rightarrow> interceptor \<Rightarrow> interceptor" where
  "run_job os job ic = (case ic_resolver ic of None \<Rightarrow> ic
     | Some r \<Rightarrow> (case resolve os Update UpdateData (fst job) (snd job) (r, ic_store ic) of
         (r1, st) \<Rightarrow> ic\<lparr>ic_resolver := Some r1, ic_store := st, ic_jobs := remove1 job (ic_jobs ic)\<rparr>))"

definition buildSyntheticResponse :: "int \<Rightarrow> mp_flow \<Rightarrow> string \<Rightarrow> int \<Rightarrow> (string \<times> string) list \<Rightarrow> string
    \<Rightarrow> interceptor \<Rightarrow> interceptor \<times> mp_flow" where
  "buildSyntheticResponse now f reqBody status headers body ic =
     (let h = set_all headers;
          f1 = f\<lparr>f_Response := Some \<lparr>p_StatusCode = status, p_Header = h, p_Body = body\<rparr>\<rparr>;
          st1 = SetData (f_Id f) (empty_data\<lparr>fd_RequestHeaders := q_Header (f_Request f),
                  fd_RequestBody := reqBody, fd_ResponseHeaders := h, fd_ResponseBody := body\<rparr>) (ic_store ic);
          st2 = Update (f_Id f) (\<lambda>m. m\<lparr>fm_StatusCode := status, fm_ContentType := HGet h ''Content-Type'',
                  fm_SizeBytes := int (length body), fm_Duration := now - fm_StartedAt m,
                  fm_State := StateCompleted\<rparr>) st1
      in (ic\<lparr>ic_store := st2\<rparr>, f1))"

definition script_meta :: "mp_flow \<Rightarrow> FlowMeta" where
  "script_meta f = zero_meta\<lparr>fm_ID := f_Id f, fm_Method := q_Method (f_Request f),
     fm_Host := u_Hostname (q_URL (f_Request f))\<rparr>"

definition codec_meta :: "mp_flow \<Rightarrow> bool \<Rightarrow> DecoderMetadata" where
  "codec_meta f isReq = \<lparr>dm_RequestPath = u_Path (q_URL (f_Request f)),
     dm_Host = u_Hostname (q_URL (f_Request f)), dm_IsRequest = isReq, dm_OriginalBody = []\<rparr>"

definition request_context :: "mp_flow \<Rightarrow> RequestContext" where
  "request_context f = \<lparr>rc_Method = q_Method (f_Request f), rc_URL = u_String (q_URL (f_Request f)),
     rc_Headers = q_Header (f_Request f), rc_Body = [], rc_Blocked = False, rc_Meta = script_meta f,
     rc_Responded = False, rc_ResponseStatus = 0, rc_ResponseHeaders = [], rc_ResponseBody = []\<rparr>"

definition run_request_body :: "px \<Rightarrow> string \<Rightarrow> Engine \<times> RequestContext \<Rightarrow> string \<times> bool \<times> Engine \<times> RequestContext" where
  "run_request_body P scriptBody s = (case s of (e, ctx) \<Rightarrow>
     (case RunOnRequest (px_goja P) (ctx\<lparr>rc_Body := scriptBody\<rparr>) e of (e1, ctx1) \<Rightarrow>
        (rc_Body ctx1, scriptBody \<noteq> rc_Body ctx1, e1, ctx1)))"

definition blocked_response :: mp_response where
  "blocked_response = \<lparr>p_StatusCode = 403, p_Header = [(''Content-Type'', [''text/plain''])],
     p_Body = ''Blocked by httpmon script''\<rparr>"

definition applyRequestScripts :: "px \<Rightarrow> int \<Rightarrow> Engine \<Rightarrow> mp_flow \<Rightarrow> string \<Rightarrow> interceptor
    \<Rightarrow> bool \<times> interceptor \<times> mp_flow" where
  "applyRequestScripts P now e f reqBody ic =
     (let reqURL = u_String (q_URL (f_Request f));
          (body, e1, ctx0) = runScriptsWithCodec (ic_decoderReg ic) (q_Body (f_Request f))
             (HGet (q_Header (f_Request f)) ''Content-Type'') (codec_meta f True)
             (run_request_body P) (e, request_context f);
          ctx = ctx0\<lparr>rc_Body := body\<rparr>;
          ic1 = ic\<lparr>ic_engine := Some e1\<rparr>
      in if rc_Responded ctx
         then (case buildSyntheticResponse now f reqBody (rc_ResponseStatus ctx) (rc_ResponseHeaders ctx)
                      (rc_ResponseBody ctx) ic1 of (ic2, f1) \<Rightarrow> (True, ic2, f1))
         else if rc_Blocked ctx then (True, ic1, f\<lparr>f_Response := Some blocked_response\<rparr>)
         else
           let q = f_Request f;
               url = (if rc_URL ctx \<noteq> reqURL
                 then (case px_parse_url P (rc_URL ctx) of Some u \<Rightarrow> u | None \<Rightarrow> q_URL q) else q_URL q)
           in (False, ic1, f\<lparr>f_Request := \<lparr>q_Method = rc_Method ctx, q_URL = url,
                 q_Header = rc_Headers ctx, q_Body = rc_Body ctx\<rparr>\<rparr>))"

definition RequestHook :: "px \<Rightarrow> int \<Rightarrow> mp_flow \<Rightarrow> interceptor \<Rightarrow> interceptor \<times> mp_flow" where
  "RequestHook P now f ic =
     (let reqBody = truncate_body (q_Body (f_Request f));
          ic1 = ic\<lparr>ic_store := SetData (f_Id f) (empty_data\<lparr>fd_RequestHeaders := q_Header (f_Request f),
                  fd_RequestBody := reqBody\<rparr>) (ic_store ic)\<rparr>
      in case ic_engine ic1 of None \<Rightarrow> (ic1, f)
         | Some e \<Rightarrow> snd (applyRequestScripts P now e f reqBody ic1))"

subsection \<open>Response side\<close>

definition Responseheaders :: "mp_flow \<Rightarrow> interceptor \<Rightarrow> interceptor" where
  "Responseheaders f ic = (case f_Response f of None \<Rightarrow> ic
     | Some p \<Rightarrow> ic\<lparr>ic_store := Update (f_Id f) (\<lambda>m. m\<lparr>fm_StatusCode := p_StatusCode p,
         fm_ContentType := HGet (p_Header p) ''Content-Type''\<rparr>) (ic_store ic)\<rparr>)"

definition markFailed :: "int \<Rightarrow> mp_flow \<Rightarrow> interceptor \<Rightarrow> interceptor" where
  "markFailed now f ic = ic\<lparr>ic_store := Update (f_Id f) (\<lambda>m. m\<lparr>fm_State := StateFailed,
     fm_Duration := now - fm_StartedAt m\<rparr>) (ic_store ic)\<rparr>"

definition recompress :: "px \<Rightarrow> string \<Rightarrow> string \<Rightarrow> string option" where
  "recompress P data encoding =
     (if encoding = ''gzip'' \<or> encoding = ''br'' \<or> encoding = ''deflate'' \<or> encoding = ''zstd''
      then px_compress P encoding data else None)"

definition response_context :: "mp_flow \<Rightarrow> mp_response \<Rightarrow> ResponseContext" where
  "response_context f p = \<lparr>pc_Status = p_StatusCode p, pc_Headers = p_Header p, pc_Body = [],
     pc_Meta = script_meta f, pc_Responded = False, pc_ResponseStatus = 0, pc_ResponseHeaders = [],
     pc_ResponseBody = []\<rparr>"

definition run_response_body :: "px \<Rightarrow> string \<Rightarrow> string \<Rightarrow> Engine \<times> ResponseContext
    \<Rightarrow> string \<times> bool \<times> Engine \<times> ResponseContext" where
  "run_response_body P url scriptBody s = (case s of (e, ctx) \<Rightarrow>
     (case RunOnResponse (px_goja P) (ctx\<lparr>pc_Body := scriptBody\<rparr>) url e of (e1, ctx1) \<Rightarrow>
        (pc_Body ctx1, scriptBody \<noteq> pc_Body ctx1, e1, ctx1)))"

text \<open>The headers of a body that is sent as it is.\<close>

definition plain_headers :: "string \<Rightarrow> header \<Rightarrow> header" where
  "plain_headers body h = HSet ''Content-Length'' (Itoa (int (length body)))
     (HDel ''Transfer-Encoding'' (HDel ''Content-Encoding'' h))"

definition applyResponseScripts :: "px \<Rightarrow> Engine \<Rightarrow> mp_flow \<Rightarrow> mp_response \<Rightarrow> string \<Rightarrow> interceptor
    \<Rightarrow> string \<times> interceptor \<times> mp_response" where
  "applyResponseScripts P e f p decoded ic =
     (let origEncoding = HGet (p_Header p) ''Content-Encoding'';
          (body, e1, ctx0) = runScriptsWithCodec (ic_decoderReg ic) decoded
             (HGet (p_Header p) ''Content-Type'') (codec_meta f False)
             (run_response_body P (u_String (q_URL (f_Request f)))) (e, response_context f p);
          ctx = ctx0\<lparr>pc_Body := body\<rparr>;
          ic1 = ic\<lparr>ic_engine := Some e1\<rparr>
      in if pc_Responded ctx
         then (pc_ResponseBody ctx, ic1,
               \<lparr>p_StatusCode = pc_ResponseStatus ctx,
                p_Header = plain_headers (pc_ResponseBody ctx) (set_all (pc_ResponseHeaders ctx)),
                p_Body = pc_ResponseBody ctx\<rparr>)
         else
           let final = pc_Body ctx
           in case (if origEncoding \<noteq> [] then recompress P final origEncoding else None) of
                Some packed \<Rightarrow>
                  (final, ic1,
                   \<lparr>p_StatusCode = pc_Status ctx,
                    p_Header = HDel ''Transfer-Encoding'' (HSet ''Content-Length'' (Itoa (int (length packed)))
                       (HSet ''Content-Encoding'' origEncoding (pc_Headers ctx))),
                    p_Body = packed\<rparr>)
              | None \<Rightarrow>
                  (final, ic1,
                   \<lparr>p_StatusCode = pc_Status ctx, p_Header = plain_headers final (pc_Headers ctx),
                    p_Body = final\<rparr>))"

definition ResponseHook :: "px \<Rightarrow> int \<Rightarrow> mp_flow \<Rightarrow> interceptor \<Rightarrow> interceptor \<times> mp_flow" where
  "ResponseHook P now f ic = (case f_Response f of None \<Rightarrow> (markFailed now f ic, f)
     | Some p \<Rightarrow>
        let decoded = (case px_decoded_body P p of Inr b \<Rightarrow> b | Inl _ \<Rightarrow> p_Body p);
            (respBody, ic1, p1) = (case ic_engine ic of None \<Rightarrow> (decoded, ic, p)
              | Some e \<Rightarrow> applyResponseScripts P e f p decoded ic);
            storedBody = truncate_body respBody;
            st1 = UpdateData (f_Id f) (\<lambda>d. d\<lparr>fd_ResponseHeaders := p_Header p1,
                    fd_ResponseBody := storedBody\<rparr>) (ic_store ic1);
            st2 = Update (f_Id f) (\<lambda>m. m\<lparr>fm_StatusCode := p_StatusCode p1,
                    fm_ContentType := HGet (p_Header p1) ''Content-Type'',
                    fm_SizeBytes := int (length respBody), fm_Duration := now - fm_StartedAt m,
                    fm_State := StateCompleted\<rparr>) st1
        in (ic1\<lparr>ic_store := st2\<rparr>, f\<lparr>f_Response := Some p1\<rparr>))"

subsection \<open>Throttle\<close>

definition SetThrottle :: "int \<Rightarrow> int \<Rightarrow> interceptor \<Rightarrow> interceptor" where
  "SetThrottle bps latency ic = ic\<lparr>ic_throttleBPS := bps, ic_throttleLatency := latency\<rparr>"

definition ThrottleBPS :: "interceptor \<Rightarrow> int" where
  "ThrottleBPS ic = ic_throttleBPS ic"

definition ThrottleLatency :: "interceptor \<Rightarrow> int" where
  "ThrottleLatency ic = ic_throttleLatency ic"

definition StreamResponseModifier :: "interceptor \<Rightarrow> 'io \<Rightarrow> 'io + 'io Reader" where
  "StreamResponseModifier ic inp =
     (let bps = ic_throttleBPS ic; lat = ic_throttleLatency ic
      in if bps \<le> 0 \<and> lat \<le> 0 then Inl inp else Inr (NewReader inp bps lat))"

text \<open>
  The proxy's handle on the interceptor: before \<open>Init\<close> there is none and the throttle calls do
  nothing.  \<open>Stop\<close> releases every flow paused at a breakpoint before it shuts the listener.
\<close>

record proxy =
  px_intc :: "interceptor option"
  px_bpCtrl :: "controller option"

definition p_SetThrottle :: "int \<Rightarrow> int \<Rightarrow> proxy \<Rightarrow> proxy" where
  "p_SetThrottle bps latency p = p\<lparr>px_intc := map_option (SetThrottle bps latency) (px_intc p)\<rparr>"

definition GetThrottleBPS :: "proxy \<Rightarrow> int" where
  "GetThrottleBPS p = (case px_intc p of Some i \<Rightarrow> ThrottleBPS i | None \<Rightarrow> 0)"

definition GetThrottleLatency :: "proxy \<Rightarrow> int" where
  "GetThrottleLatency p = (case px_intc p of Some i \<Rightarrow> ThrottleLatency i | None \<Rightarrow> 0)"

definition StopProxy :: "proxy \<Rightarrow> proxy option" where
  "StopProxy p = (case px_bpCtrl p of None \<Rightarrow> Some p
     | Some c \<Rightarrow> map_option (\<lambda>c1. p\<lparr>px_bpCtrl := Some c1\<rparr>) (ResumeAll c))"

text \<open>The interface of the throttle settings that the TUI uses, and its law.\<close>

locale throttle_port =
  fixes set_throttle :: "int \<Rightarrow> int \<Rightarrow> 's \<Rightarrow> 's"
    and get_bps :: "'s \<Rightarrow> int"
    and get_latency :: "'s \<Rightarrow> int"
    and live :: "'s \<Rightarrow> bool"
  assumes set_live: "live s \<Longrightarrow> live (set_throttle b l s)"
    and get_set: "live s \<Longrightarrow> get_bps (set_throttle b l s) = b \<and> get_latency (set_throttle b l s) = l"
begin

lemma last_set_wins:
  "live s \<Longrightarrow> sets \<noteq> [] \<Longrightarrow>
   get_bps (fold (\<lambda>(b, l). set_throttle b l) sets s) = fst (last sets) \<and>
   get_latency (fold (\<lambda>(b, l). set_throttle b l) sets s) = snd (last sets)"
proof (induction sets arbitrary: s)
  case (Cons a sets)
  obtain b l where a: "a = (b, l)" by (cases a)
  have l: "live (set_throttle b l s)" using Cons.prems(1) by (rule set_live)
  show ?case
  proof (cases "sets = []")
    case True
    with a Cons.prems(1) show ?thesis by (simp add: get_set)
  next
    case False
    with Cons.IH [OF l] a show ?thesis by simp
  qed
qed simp

end

interpretation ic: throttle_port SetThrottle ThrottleBPS ThrottleLatency "\<lambda>_. True"
  by unfold_locales (simp_all add: SetThrottle_def ThrottleBPS_def ThrottleLatency_def)

interpretation px: throttle_port p_SetThrottle GetThrottleBPS GetThrottleLatency "\<lambda>p. px_intc p \<noteq> None"
  by unfold_locales
    (auto simp: p_SetThrottle_def GetThrottleBPS_def GetThrottleLatency_def SetThrottle_def
      ThrottleBPS_def ThrottleLatency_def split: option.split)

subsection \<open>Properties\<close>

lemma keeps_id_updates [simp]:
  "keeps_id (\<lambda>m. m\<lparr>fm_StatusCode := a m, fm_ContentType := b m, fm_SizeBytes := c m, fm_Duration := d m, fm_State := e m\<rparr>)"
  "keeps_id (\<lambda>m. m\<lparr>fm_StatusCode := a m, fm_ContentType := b m\<rparr>)"
  "keeps_id (\<lambda>m. m\<lparr>fm_State := e m, fm_Duration := d m\<rparr>)"
  by (simp_all add: keeps_id_def)

lemma truncate_body_le: "length (truncate_body b) \<le> maxBodySize"
  by (simp add: truncate_body_def)

lemma truncate_body_prefix: "\<exists>t. b = truncate_body b @ t"
  by (simp add: truncate_body_def) (metis append_take_drop_id append_Nil2)

text \<open>The codec is transparent: without a decoder, or when decoding fails, the script works on
  the raw bytes; when the script leaves the decoded text alone, or its text cannot be encoded,
  the original bytes go out; otherwise the encoding of its text, made from the original body.\<close>

theorem codec_transparent:
  assumes "runScriptsWithCodec reg body ct meta run s = (out, s')"
  shows "(case reg of None \<Rightarrow> out = fst (run body s)
    | Some r \<Rightarrow> (case RegistryDecode r body ct meta of
        Inl _ \<Rightarrow> out = fst (run body s)
      | Inr (text, _) \<Rightarrow>
         (if \<not> fst (snd (run text s)) then out = body
          else (case RegistryEncode r (fst (run text s)) ct (meta\<lparr>dm_OriginalBody := body\<rparr>) of
            Inl _ \<Rightarrow> out = body | Inr enc \<Rightarrow> out = enc))))"
  using assms by (auto simp: runScriptsWithCodec_def Let_def split: option.splits sum.splits prod.splits if_splits)

theorem codec_transparent_witness:
  "fst (runScriptsWithCodec None ''a'' [] demo_meta_rpc (\<lambda>b s. (b @ ''!'', True, s)) ()) = ''a!''"
proof -
  obtain out s' where r: "runScriptsWithCodec None ''a'' [] demo_meta_rpc (\<lambda>b s. (b @ ''!'', True, s)) () = (out, s')"
    by (metis prod.exhaust)
  from codec_transparent [OF r] r show ?thesis by simp
qed

lemma not_indexed:
  assumes "rb_index st fid = None"
  shows "Update fid fn st = st" "UpdateData fid fd st = st" "SetData fid d st = st"
  using assms by (simp_all add: Update_def UpdateData_def SetData_def)

end
