(* ===== verification/Flow_Lifecycle.thy ===== *)
theory Flow_Lifecycle
  imports Interceptor
begin

section \<open>The life of a captured flow\<close>

text \<open>
  What the hooks of the interceptor, called in any order and for any flows, make of the store:
  the events, and the properties of excluded flows, of recorded requests and responses, of the
  process that is attached to a flow, and of the headers of the response that goes out.
\<close>

subsection \<open>Events\<close>

datatype hook = HRequestheaders | HRequest | HResponseheaders | HResponse

datatype event = Hook hook px int mp_flow | Job osinfo "FlowID \<times> nat"

fun hook_step :: "event \<Rightarrow> interceptor \<Rightarrow> interceptor" where
  "hook_step (Hook HRequestheaders P now f) ic = Requestheaders now f ic"
| "hook_step (Hook HRequest P now f) ic = fst (RequestHook P now f ic)"
| "hook_step (Hook HResponseheaders P now f) ic = Responseheaders f ic"
| "hook_step (Hook HResponse P now f) ic = fst (ResponseHook P now f ic)"
| "hook_step (Job os j) ic = run_job os j ic"

definition run_hooks :: "event list \<Rightarrow> interceptor \<Rightarrow> interceptor" where
  "run_hooks evs ic = fold hook_step evs ic"

subsection \<open>What the script phases leave alone\<close>

lemma index_ops [simp]:
  "rb_index (Update i fn st) = rb_index st"
  "rb_index (UpdateData i fd st) = rb_index st"
  "rb_index (SetData i d st) = rb_index st"
  by (simp_all add: Update_def UpdateData_def SetData_def Let_def split: option.split)

lemma buildSynthetic_frame:
  "buildSyntheticResponse now f rb st hs b ic = (ic', f') \<Longrightarrow>
   ic_hostFilter ic' = ic_hostFilter ic \<and> ic_resolver ic' = ic_resolver ic \<and> rb_index (ic_store ic') = rb_index (ic_store ic)"
  by (auto simp: buildSyntheticResponse_def Let_def)

lemma applyRequest_frame:
  "applyRequestScripts P now e f b ic = (r, ic', f') \<Longrightarrow>
   ic_hostFilter ic' = ic_hostFilter ic \<and> ic_resolver ic' = ic_resolver ic \<and> rb_index (ic_store ic') = rb_index (ic_store ic)"
  by (auto simp: applyRequestScripts_def Let_def split: prod.splits if_splits option.splits
      dest!: buildSynthetic_frame)

lemma applyResponse_frame:
  "applyResponseScripts P e f p b ic = (r, ic', p') \<Longrightarrow>
   ic_hostFilter ic' = ic_hostFilter ic \<and> ic_store ic' = ic_store ic"
  by (auto simp: applyResponseScripts_def Let_def split: prod.splits if_splits option.splits)

lemma RequestHook_frame:
  "ic_hostFilter (fst (RequestHook P now f ic)) = ic_hostFilter ic \<and>
   ic_resolver (fst (RequestHook P now f ic)) = ic_resolver ic \<and>
   rb_index (ic_store (fst (RequestHook P now f ic))) = rb_index (ic_store ic)"
proof (cases "ic_engine ic")
  case (Some e)
  let ?b = "truncate_body (q_Body (f_Request f))"
  let ?ic = "ic\<lparr>ic_store := SetData (f_Id f) (empty_data\<lparr>fd_RequestHeaders := q_Header (f_Request f),
    fd_RequestBody := ?b\<rparr>) (ic_store ic)\<rparr>"
  obtain r ic' f' where a: "applyRequestScripts P now e f ?b ?ic = (r, ic', f')"
    by (metis prod_cases3)
  from applyRequest_frame [OF a] a Some show ?thesis by (simp add: RequestHook_def Let_def)
qed (simp add: RequestHook_def Let_def)

lemma ResponseHook_frame:
  "ic_hostFilter (fst (ResponseHook P now f ic)) = ic_hostFilter ic \<and>
   rb_index (ic_store (fst (ResponseHook P now f ic))) = rb_index (ic_store ic)"
  by (auto simp: ResponseHook_def markFailed_def Let_def split: option.split prod.split
      dest!: applyResponse_frame)

lemma run_job_frame:
  "ic_hostFilter (run_job os j ic) = ic_hostFilter ic \<and> rb_index (ic_store (run_job os j ic)) = rb_index (ic_store ic)"
  by (auto simp: run_job_def resolve_def Let_def split: option.split prod.split sum.split)

lemma Requestheaders_frame:
  "ic_hostFilter (Requestheaders now f ic) = ic_hostFilter ic"
  by (simp add: Requestheaders_def Let_def split: sum.split option.split)

lemma Requestheaders_index:
  assumes "rb_index (ic_store ic) fid = None" and "f_Id f \<noteq> fid \<or> skips ic f"
  shows "rb_index (ic_store (Requestheaders now f ic)) fid = None"
  using assms by (auto simp: Requestheaders_def Add_def zero_meta_def Let_def split: sum.split option.split if_splits)

text \<open>An event that is not the first hook of a flow \<open>fid\<close> of an accepted host.\<close>

fun ignores :: "HostFilter \<Rightarrow> FlowID \<Rightarrow> event \<Rightarrow> bool" where
  "ignores hf fid (Hook HRequestheaders P now f) =
     (f_Id f = fid \<longrightarrow> \<not> ShouldIntercept hf (u_Host (q_URL (f_Request f))))"
| "ignores hf fid _ = True"

lemma hook_step_ignored:
  assumes "rb_index (ic_store ic) fid = None" and "ic_hostFilter ic = Some hf" and "ignores hf fid ev"
  shows "rb_index (ic_store (hook_step ev ic)) fid = None \<and> ic_hostFilter (hook_step ev ic) = Some hf"
proof (cases ev)
  case (Hook h P now f)
  with assms show ?thesis
    by (cases h) (auto simp: Requestheaders_index Requestheaders_frame RequestHook_frame ResponseHook_frame
        Responseheaders_def skips_def split: option.split)
qed (use assms in \<open>simp add: run_job_frame\<close>)

lemma ignored_stays_out:
  assumes "rb_index (ic_store ic) fid = None" and "ic_hostFilter ic = Some hf" and "list_all (ignores hf fid) evs"
  shows "rb_index (ic_store (run_hooks evs ic)) fid = None"
  using assms
proof (induction evs arbitrary: ic)
  case (Cons ev evs)
  with hook_step_ignored [of ic fid hf ev] show ?case by (simp add: run_hooks_def)
qed (simp add: run_hooks_def)

text \<open>C9: A flow whose host the filter excludes is never stored: whatever hooks run, of this and of
  other flows and in whatever order, and whatever the scripts and the process resolver do, the
  store never holds a flow of its identifier.\<close>

theorem excluded_never_stored:
  assumes "rb_index (ic_store ic) fid = None" and "ic_hostFilter ic = Some hf"
    and "list_all (ignores hf fid) evs"
  shows "Get fid (ic_store (run_hooks evs ic)) = Inl (not_found fid)"
  using ignored_stays_out [OF assms] by (simp add: Get_def)

definition demo_url :: URL where
  "demo_url = \<lparr>u_String = ''http://x.com/'', u_Host = ''x.com'', u_Hostname = ''x.com'', u_Path = ''/'',
     u_RequestURI = ''/''\<rparr>"

definition demo_flow :: mp_flow where
  "demo_flow = \<lparr>f_Id = ''7'', f_Request = \<lparr>q_Method = ''GET'', q_URL = demo_url, q_Header = [], q_Body = ''q''\<rparr>,
     f_Response = Some \<lparr>p_StatusCode = 200, p_Header = [], p_Body = ''ok''\<rparr>,
     f_ConnContext = Some \<lparr>cn_Tls = False, cn_RemoteAddr = Some ''127.0.0.1:5000''\<rparr>\<rparr>"

definition demo_px :: px where
  "demo_px = \<lparr>px_goja = idle_goja, px_decoded_body = (\<lambda>p. Inr (p_Body p)), px_compress = (\<lambda>_ b. Some b),
     px_parse_url = (\<lambda>_. None)\<rparr>"

definition demo_hf :: HostFilter where
  "demo_hf = New_HostFilter [''x.com''] []"

definition demo_ic :: interceptor where
  "demo_ic = newInterceptor (buf1\<lparr>rb_metas := [zero_meta\<lparr>fm_ID := ''7''\<rparr>], rb_index := [''7'' \<mapsto> 0]\<rparr>)
     None (Some NewResolver) None None 0 0"

lemma demo_ic_inv: "rb_inv (ic_store demo_ic)"
  by (simp add: demo_ic_def newInterceptor_def buf1_def rb_inv_def ids_def flows_def slot_at_def zero_meta_def)

lemma demo_ic_sel [simp]:
  "ic_engine demo_ic = None" "ic_decoderReg demo_ic = None" "ic_resolver demo_ic = Some NewResolver"
  by (simp_all add: demo_ic_def newInterceptor_def)

lemma demo_flow_id [simp]: "f_Id demo_flow = ''7''"
  by (simp add: demo_flow_def)

lemma demo_ic_get: "Get ''7'' (ic_store demo_ic) = Inr (zero_meta\<lparr>fm_ID := ''7''\<rparr>, None)"
  by (simp add: demo_ic_def newInterceptor_def buf1_def Get_def)

theorem excluded_never_stored_witness:
  "Get ''7'' (ic_store (run_hooks
      [Hook HRequestheaders demo_px 0 demo_flow, Hook HRequest demo_px 1 demo_flow, Hook HResponse demo_px 2 demo_flow]
      (newInterceptor buf1 None None None (Some demo_hf) 0 0))) = Inl (not_found ''7'')"
proof -
  have "\<not> ShouldIntercept demo_hf ''x.com''" by code_simp
  then have "list_all (ignores demo_hf ''7'') [Hook HRequestheaders demo_px 0 demo_flow,
      Hook HRequest demo_px 1 demo_flow, Hook HResponse demo_px 2 demo_flow]"
    by (simp add: demo_flow_def demo_url_def)
  moreover have "rb_index (ic_store (newInterceptor buf1 None None None (Some demo_hf) 0 0)) ''7'' = None"
    "ic_hostFilter (newInterceptor buf1 None None None (Some demo_hf) 0 0) = Some demo_hf"
    by (simp_all add: newInterceptor_def buf1_def)
  ultimately show ?thesis by (intro excluded_never_stored)
qed

subsection \<open>What a response leaves in the store\<close>

lemma truncate_take: "truncate_body b = take maxBodySize b"
  by (simp add: truncate_body_def)

lemmas store_laws = rb.get_laws rb.get_set_data rb.set_data_invar



subsection \<open>What a request leaves in the store\<close>

definition request_data :: "mp_flow \<Rightarrow> FlowData" where
  "request_data f = empty_data\<lparr>fd_RequestHeaders := q_Header (f_Request f),
     fd_RequestBody := take maxBodySize (q_Body (f_Request f))\<rparr>"

text \<open>The outcome of the scripts on the request of a flow.\<close>

definition scripted :: "px \<Rightarrow> Engine \<Rightarrow> mp_flow \<Rightarrow> interceptor \<Rightarrow> RequestContext" where
  "scripted P e f ic = snd (snd (runScriptsWithCodec (ic_decoderReg ic) (q_Body (f_Request f))
     (HGet (q_Header (f_Request f)) ''Content-Type'') (codec_meta f True) (run_request_body P)
     (e, request_context f)))"

lemma RequestHook_Some:
  assumes "ic_engine ic = Some e"
  shows "\<exists>e1 f1. f_Response f1 = f_Response f \<and> RequestHook P now f ic =
    (let ctx = scripted P e f ic;
         ic1 = ic\<lparr>ic_store := SetData (f_Id f) (request_data f) (ic_store ic), ic_engine := Some e1\<rparr>
     in if rc_Responded ctx
        then buildSyntheticResponse now f (take maxBodySize (q_Body (f_Request f))) (rc_ResponseStatus ctx)
               (rc_ResponseHeaders ctx) (rc_ResponseBody ctx) ic1
        else (ic1, if rc_Blocked ctx then f\<lparr>f_Response := Some blocked_response\<rparr> else f1))"
proof -
  let ?run = "runScriptsWithCodec (ic_decoderReg ic) (q_Body (f_Request f))
     (HGet (q_Header (f_Request f)) ''Content-Type'') (codec_meta f True) (run_request_body P)
     (e, request_context f)"
  obtain body e1 ctx where r: "?run = (body, e1, ctx)" by (metis prod_cases3)
  let ?ic1 = "ic\<lparr>ic_store := SetData (f_Id f) (request_data f) (ic_store ic)\<rparr>"
  have "RequestHook P now f ic =
      snd (applyRequestScripts P now e f (take maxBodySize (q_Body (f_Request f))) ?ic1)"
    using assms by (simp add: RequestHook_def Let_def truncate_take request_data_def)
  moreover have "scripted P e f ic = ctx" using r by (simp add: scripted_def)
  ultimately show ?thesis
    using r by (cases "rc_Responded ctx"; cases "rc_Blocked ctx")
      (auto simp: applyRequestScripts_def Let_def split: prod.split)
qed

text \<open>C8: What the request hook stores: the flow gets the request headers, the first 5 MiB of the
  request body and nothing else.  Only a response that a script makes up changes the summary, to
  completed; it is stored with its whole body, however long.  A blocked flow is answered with
  403, but its summary still says it is in progress, with no status.\<close>

theorem request_recorded:
  assumes "rb_inv (ic_store ic)" and "Get (f_Id f) (ic_store ic) = Inr (m, d)" and "ic_engine ic = Some e"
    and "scripted P e f ic = ctx"
  shows "\<exists>ic' f'. RequestHook P now f ic = (ic', f') \<and> rb_inv (ic_store ic') \<and>
    (if rc_Responded ctx
     then let h = set_all (rc_ResponseHeaders ctx); body = rc_ResponseBody ctx in
       f_Response f' = Some \<lparr>p_StatusCode = rc_ResponseStatus ctx, p_Header = h, p_Body = body\<rparr> \<and>
       Get (f_Id f) (ic_store ic') = Inr
         (m\<lparr>fm_StatusCode := rc_ResponseStatus ctx, fm_ContentType := HGet h ''Content-Type'',
            fm_SizeBytes := int (length body), fm_Duration := now - fm_StartedAt m, fm_State := StateCompleted\<rparr>,
          Some ((request_data f)\<lparr>fd_ResponseHeaders := h, fd_ResponseBody := body\<rparr>))
     else f_Response f' = (if rc_Blocked ctx then Some blocked_response else f_Response f) \<and>
       Get (f_Id f) (ic_store ic') = Inr (m, Some (request_data f)))"
proof -
  from RequestHook_Some [OF assms(3), of f P now] obtain e1 f1 where f1: "f_Response f1 = f_Response f"
    and r: "RequestHook P now f ic =
    (let ctx = scripted P e f ic;
         ic1 = ic\<lparr>ic_store := SetData (f_Id f) (request_data f) (ic_store ic), ic_engine := Some e1\<rparr>
     in if rc_Responded ctx
        then buildSyntheticResponse now f (take maxBodySize (q_Body (f_Request f))) (rc_ResponseStatus ctx)
               (rc_ResponseHeaders ctx) (rc_ResponseBody ctx) ic1
        else (ic1, if rc_Blocked ctx then f\<lparr>f_Response := Some blocked_response\<rparr> else f1))" by blast
  show ?thesis
  proof (cases "rc_Responded ctx")
    case True
    with r assms(1,2,4) show ?thesis
      by (simp add: buildSyntheticResponse_def Let_def store_laws request_data_def)
  next
    case False
    with r assms(1,2,4) f1 show ?thesis by (simp add: Let_def store_laws)
  qed
qed

definition blocking_engine :: Engine where
  "blocking_engine = NewEngine\<lparr>e_scripts := [demo_script ''block'']\<rparr>"

lemma demo_scripted:
  "\<not> rc_Responded (scripted demo_px blocking_engine demo_flow (demo_ic\<lparr>ic_engine := Some blocking_engine\<rparr>)) \<and>
   rc_Blocked (scripted demo_px blocking_engine demo_flow (demo_ic\<lparr>ic_engine := Some blocking_engine\<rparr>))"
  by (simp add: scripted_def runScriptsWithCodec_def run_request_body_def blocking_engine_def demo_px_def
      NewEngine_def RunOnRequest_def Let_def runOnRequest_def idle_goja_def demo_goja_def request_js_def
      injectReadFile_def js_set_def read_back_request_def readBackRespondWith_def js_defined_def
      request_context_def)

theorem request_recorded_witness:
  "\<exists>ic' f'. RequestHook demo_px 5 demo_flow (demo_ic\<lparr>ic_engine := Some blocking_engine\<rparr>) = (ic', f') \<and>
    f_Response f' = Some blocked_response \<and>
    (\<exists>m' d'. Get ''7'' (ic_store ic') = Inr (m', d') \<and> fm_State m' = StateInProgress \<and> fm_StatusCode m' = 0)"
proof -
  let ?ic = "demo_ic\<lparr>ic_engine := Some blocking_engine\<rparr>"
  have h: "rb_inv (ic_store ?ic)" "ic_engine ?ic = Some blocking_engine"
    "Get (f_Id demo_flow) (ic_store ?ic) = Inr (zero_meta\<lparr>fm_ID := ''7''\<rparr>, None)"
    using demo_ic_inv demo_ic_get by simp_all
  from request_recorded [OF h(1,3,2) refl, of demo_px 5] demo_scripted show ?thesis
    by (auto simp: zero_meta_def)
qed

subsection \<open>The process of a flow\<close>

text \<open>The order of the process lookup and the request hook matters: a lookup that ends before the
  request body is in leaves its PID in the summary only, because the hook replaces the data it
  wrote; a lookup that ends after the hook leaves PID and command line in the data.\<close>

theorem process_info_lost:
  assumes inv: "rb_inv (ic_store ic)" and got: "Get (f_Id f) (ic_store ic) = Inr (m, d)"
    and en: "ic_engine ic = None" and rs: "ic_resolver ic = Some r"
    and os: "os_findPID os port = Inr pid" "cachedProcessName os pid r = (Inr name, r1)"
      "os_processCmdline os pid = Inr cmd"
  shows "Get (f_Id f) (ic_store (run_hooks [Job os (f_Id f, port), Hook HRequest P now f] ic)) =
      Inr (proc_meta name pid m, Some (request_data f)) \<and>
    Get (f_Id f) (ic_store (run_hooks [Hook HRequest P now f, Job os (f_Id f, port)] ic)) =
      Inr (proc_meta name pid m, Some (proc_data pid cmd (request_data f))) \<and>
    fd_ProcessPID (request_data f) = 0 \<and> fd_ProcessCmdline (request_data f) = []"
proof -
  let ?sd = "SetData (f_Id f) (request_data f)"
  have job: "\<exists>st. run_job os (f_Id f, port) ic1 = ic1\<lparr>ic_resolver := Some (r1\<lparr>pr_failCount := 0\<rparr>), ic_store := st,
      ic_jobs := remove1 (f_Id f, port) (ic_jobs ic1)\<rparr> \<and> rb_inv st \<and>
    Get (f_Id f) st = map_sum (\<lambda>e. e) (\<lambda>(m, d). (proc_meta name pid m, Some (proc_data pid cmd (data_or_empty d))))
      (Get (f_Id f) (ic_store ic1))"
    if "rb_inv (ic_store ic1)" "ic_resolver ic1 = Some r" for ic1
    using rb.resolve_found [OF that(1) os, of "f_Id f" "f_Id f"] that(2) by (auto simp: run_job_def)
  have hook: "fst (RequestHook P now f ic1) = ic1\<lparr>ic_store := ?sd (ic_store ic1)\<rparr>" if "ic_engine ic1 = None" for ic1
    using that by (simp add: RequestHook_def Let_def request_data_def truncate_take)
  from job [OF inv rs] got inv en obtain st where "ic_store (run_job os (f_Id f, port) ic) = st"
    "ic_engine (run_job os (f_Id f, port) ic) = None" "rb_inv st"
    "Get (f_Id f) st = Inr (proc_meta name pid m, Some (proc_data pid cmd (data_or_empty d)))" by auto
  then have a: "Get (f_Id f) (ic_store (run_hooks [Job os (f_Id f, port), Hook HRequest P now f] ic)) =
      Inr (proc_meta name pid m, Some (request_data f))"
    by (simp add: run_hooks_def hook store_laws)
  let ?ic = "ic\<lparr>ic_store := ?sd (ic_store ic)\<rparr>"
  have ic: "rb_inv (ic_store ?ic)" "ic_resolver ?ic = Some r"
    "Get (f_Id f) (ic_store ?ic) = Inr (m, Some (request_data f))"
    using inv rs got by (simp_all add: store_laws)
  from job [OF ic(1,2)] ic(3) have "Get (f_Id f) (ic_store (run_job os (f_Id f, port) ?ic)) =
      Inr (proc_meta name pid m, Some (proc_data pid cmd (request_data f)))"
    by (auto simp: data_or_empty_def)
  with a en show ?thesis by (simp add: run_hooks_def hook) (simp add: request_data_def empty_data_def)
qed

theorem process_info_lost_witness:
  "\<exists>m' d'. Get ''7'' (ic_store (run_hooks [Job demo_os (''7'', 5000), Hook HRequest demo_px 1 demo_flow] demo_ic)) =
      Inr (m', Some d') \<and> fm_ProcessPID m' = 42 \<and> fd_ProcessPID d' = 0"
proof -
  have c: "cachedProcessName demo_os 42 NewResolver = (Inr ''curl'', NewResolver\<lparr>pr_pidCache := [(42, ''curl'')]\<rparr>)"
    by (simp add: cachedProcessName_def NewResolver_def demo_os_def)
  have g: "Get (f_Id demo_flow) (ic_store demo_ic) = Inr (zero_meta\<lparr>fm_ID := ''7''\<rparr>, None)"
    by (simp add: demo_ic_get)
  from process_info_lost [OF demo_ic_inv g _ _ _ c, of 5000 "''curl -v''" demo_px 1] show ?thesis
    by (simp add: demo_os_def proc_meta_def)
qed

subsection \<open>The headers of an answer that went through the scripts\<close>

lemma keys_differ [simp]:
  "CanonicalKey ''Content-Length'' = ''Content-Length''"
  "CanonicalKey ''Transfer-Encoding'' = ''Transfer-Encoding''"
  "CanonicalKey ''Content-Encoding'' = ''Content-Encoding''"
  by code_simp+

lemma plain_headers_get:
  "HGet (plain_headers b h) ''Content-Length'' = Itoa (int (length b))"
  "HGet (plain_headers b h) ''Transfer-Encoding'' = []"
  "HGet (plain_headers b h) ''Content-Encoding'' = []"
  by (simp_all add: plain_headers_def HGet_HSet HGet_HDel)

lemma applyResponse_headers:
  assumes "applyResponseScripts P e f p b ic = (r, ic', p')"
  shows "HGet (p_Header p') ''Content-Length'' = Itoa (int (length (p_Body p'))) \<and>
    HGet (p_Header p') ''Transfer-Encoding'' = [] \<and>
    (HGet (p_Header p') ''Content-Encoding'' = [] \<and> p_Body p' = r \<or>
     HGet (p_Header p') ''Content-Encoding'' = HGet (p_Header p) ''Content-Encoding'' \<and>
     px_compress P (HGet (p_Header p) ''Content-Encoding'') r = Some (p_Body p'))"
  using assms
  by (auto simp: applyResponseScripts_def Let_def plain_headers_get HGet_HSet HGet_HDel recompress_def
      split: prod.splits if_splits option.splits)



subsection \<open>Throttle settings reach the next response\<close>

text \<open>The last throttle setting made through the proxy is what it reports and what the next
  response runs under: no reader at all when neither bandwidth nor latency is limited, and
  otherwise a rate-limiting reader with exactly these settings.\<close>

theorem throttle_last_set_wins:
  assumes "px_intc p = Some ic" and "sets \<noteq> []" and "last sets = (bps, lat)"
  shows "\<exists>ic'. px_intc (fold (\<lambda>(b, l). p_SetThrottle b l) sets p) = Some ic' \<and>
    GetThrottleBPS (fold (\<lambda>(b, l). p_SetThrottle b l) sets p) = bps \<and>
    GetThrottleLatency (fold (\<lambda>(b, l). p_SetThrottle b l) sets p) = lat \<and>
    StreamResponseModifier ic' inp = (if bps \<le> 0 \<and> lat \<le> 0 then Inl inp else Inr (NewReader inp bps lat))"
proof -
  let ?p = "fold (\<lambda>(b, l). p_SetThrottle b l) sets p"
  have live: "px_intc (fold (\<lambda>(b, l). p_SetThrottle b l) xs q) \<noteq> None \<longleftrightarrow> px_intc q \<noteq> None" for xs q
    by (induction xs arbitrary: q) (auto simp: p_SetThrottle_def)
  from live [of sets p] assms(1) obtain ic' where ic': "px_intc ?p = Some ic'" by auto
  from px.last_set_wins [of p sets] assms have g: "GetThrottleBPS ?p = bps" "GetThrottleLatency ?p = lat"
    by simp_all
  with ic' have "ic_throttleBPS ic' = bps" "ic_throttleLatency ic' = lat"
    by (simp_all add: GetThrottleBPS_def GetThrottleLatency_def ThrottleBPS_def ThrottleLatency_def)
  with ic' g show ?thesis by (simp add: StreamResponseModifier_def Let_def)
qed

theorem throttle_last_set_wins_witness:
  "GetThrottleBPS (p_SetThrottle 500 0 (p_SetThrottle 10 20 \<lparr>px_intc = Some demo_ic, px_bpCtrl = None\<rparr>)) = 500"
  using throttle_last_set_wins [of "\<lparr>px_intc = Some demo_ic, px_bpCtrl = None\<rparr>" demo_ic "[(10, 20), (500, 0)]" 500 0 "()"]
  by auto

end
