(* ===== verification/Script_Codec.thy ===== *)
theory Script_Codec
  imports Flow_Lifecycle
begin

section \<open>Scripts over encoded bodies, from the wire to the wire\<close>

text \<open>
  The request and response hooks composed with the decoders as the program builds them: what a
  script sees of a gRPC-Web body and which bytes leave the proxy when it edits that text, when it
  leaves it alone, and when its text cannot be encoded.
\<close>

subsection \<open>The codec step with the two decoders\<close>

lemma ProtoEncode_original [simp]:
  "ProtoEncode pl d js (m\<lparr>dm_OriginalBody := b\<rparr>) = ProtoEncode pl d js m"
  by (simp add: ProtoEncode_def Let_def)

text \<open>The frames that go out instead of \<open>frs\<close> when the payload is replaced.\<close>

definition reframed :: "string \<Rightarrow> (nat \<times> string) list \<Rightarrow> (nat \<times> string) list" where
  "reframed payload frs = (0, payload) # filter (\<lambda>fr. fst fr \<noteq> 0) frs"

definition sent_body :: "'m protolib \<Rightarrow> 'm resolver \<Rightarrow> DecoderMetadata \<Rightarrow> (nat \<times> string) list \<Rightarrow> string
    \<Rightarrow> string \<Rightarrow> string" where
  "sent_body pl d meta frs old new =
     (if new = old then enc_frames frs
      else case ProtoEncode pl d new meta of
        Inl _ \<Rightarrow> enc_frames frs
      | Inr payload \<Rightarrow> if length payload < 2 ^ 32 then enc_frames (reframed payload frs) else enc_frames frs)"

lemma GrpcWebEncode_frames:
  assumes "\<forall>fr \<in> set frs. frame_ok fr"
  shows "GrpcWebEncode pl d new (meta\<lparr>dm_OriginalBody := enc_frames frs\<rparr>) =
    (case ProtoEncode pl d new meta of Inl e \<Rightarrow> Inl e
     | Inr payload \<Rightarrow> if length payload < 2 ^ 32 then Inr (enc_frames (reframed payload frs))
         else Inl (''payload too large for gRPC-Web frame: '' @ show_nat (length payload) @ '' bytes''))"
  using non_data_all [OF assms]
  by (auto simp: GrpcWebEncode_def reframed_def enc_frames_def enc_frame_def split: sum.split)

lemma codec_grpc_web:
  assumes "\<forall>fr \<in> set frs. frame_ok fr" and "matchesContentType ct grpcWebContentTypes"
    and "GrpcWebDecode pl d (enc_frames frs) meta = Inr (txt, c)"
    and "run txt s = (new, txt \<noteq> new, s1)"
  shows "runScriptsWithCodec (Some [GRPCWebDecoder pl d, RawProtobufDecoder pl d]) (enc_frames frs) ct meta run s =
    (sent_body pl d meta frs txt new, s1)"
  using assms GrpcWebEncode_frames [OF assms(1), of pl d new meta]
  by (auto simp: runScriptsWithCodec_def GRPCWebDecoder_def sent_body_def split: sum.split)

text \<open>What the receiver of the edited body reads: the new payload as the only data, and the other
  frames of the original.\<close>

lemma reframed_reads:
  assumes "\<forall>fr \<in> set frs. frame_ok fr" and "length payload < 2 ^ 32"
  shows "extractDataFrames (enc_frames (reframed payload frs)) =
      Inr (payload, concat (map frame_notes (filter (\<lambda>fr. fst fr \<noteq> 0) frs)))"
    and "extractNonDataFrames (enc_frames (reframed payload frs)) = extractNonDataFrames (enc_frames frs)"
proof -
  have ok: "\<forall>fr \<in> set (reframed payload frs). frame_ok fr" using assms by (auto simp: reframed_def frame_ok_def)
  show "extractDataFrames (enc_frames (reframed payload frs)) =
      Inr (payload, concat (map frame_notes (filter (\<lambda>fr. fst fr \<noteq> 0) frs)))"
    using data_frames_all [OF ok, of "[]" "[]"]
    by (simp add: extractDataFrames_def reframed_def frame_notes_def [of "(0, payload)"] filter_empty_conv)
  show "extractNonDataFrames (enc_frames (reframed payload frs)) = extractNonDataFrames (enc_frames frs)"
    using non_data_all [OF ok] non_data_all [OF assms(1)] by (simp add: reframed_def)
qed

subsection \<open>Requests\<close>

text \<open>C13: A script sees a gRPC-Web request as decoded text, and the bytes that leave the proxy follow
  from what it makes of that text: left alone, the original body goes out byte for byte; edited,
  one data frame with the encoding of the new text goes out, followed by every other frame of the
  original (trailers, compressed frames) unchanged and in order; when the text has no encoding
  the original goes out.  Method and headers are the script's, and the store keeps the original.\<close>

theorem grpc_edit_reaches_wire:
  assumes "rb_inv (ic_store ic)" and "Get (f_Id f) (ic_store ic) = Inr (m, d0)" and "ic_engine ic = Some e"
    and "ic_decoderReg ic = Some [GRPCWebDecoder pl d, RawProtobufDecoder pl d]"
    and "matchesContentType (HGet (q_Header (f_Request f)) ''Content-Type'') grpcWebContentTypes"
    and "\<forall>fr \<in> set frs. frame_ok fr" and "q_Body (f_Request f) = enc_frames frs"
    and "GrpcWebDecode pl d (enc_frames frs) (codec_meta f True) = Inr (txt, c)"
    and "RunOnRequest (px_goja P) ((request_context f)\<lparr>rc_Body := txt\<rparr>) e = (e1, ctx)"
    and "\<not> rc_Responded ctx" and "\<not> rc_Blocked ctx"
  shows "\<exists>ic' f'. RequestHook P now f ic = (ic', f') \<and> f_Response f' = f_Response f \<and>
    q_Method (f_Request f') = rc_Method ctx \<and> q_Header (f_Request f') = rc_Headers ctx \<and>
    q_Body (f_Request f') =
      (if rc_Body ctx = txt then enc_frames frs
       else case ProtoEncode pl d (rc_Body ctx) (codec_meta f True) of
         Inl _ \<Rightarrow> enc_frames frs
       | Inr payload \<Rightarrow> enc_frames (if length payload < 2 ^ 32
           then (0, payload) # filter (\<lambda>fr. fst fr \<noteq> 0) frs else frs)) \<and>
    Get (f_Id f) (ic_store ic') = Inr (m, Some (request_data f))"
proof -
  have run: "run_request_body P txt (e, request_context f) = (rc_Body ctx, txt \<noteq> rc_Body ctx, e1, ctx)"
    by (simp add: run_request_body_def assms(9))
  let ?body = "sent_body pl d (codec_meta f True) frs txt (rc_Body ctx)"
  let ?ct = "HGet (q_Header (f_Request f)) ''Content-Type''"
  have codec: "runScriptsWithCodec (Some [GRPCWebDecoder pl d, RawProtobufDecoder pl d]) (enc_frames frs) ?ct
      (codec_meta f True) (run_request_body P) (e, request_context f) = (?body, e1, ctx)"
    by (rule codec_grpc_web [where run = "run_request_body P", OF assms(6,5,8) run])
  let ?ic = "ic\<lparr>ic_store := SetData (f_Id f) (request_data f) (ic_store ic), ic_engine := Some e1\<rparr>"
  let ?url = "if rc_URL ctx \<noteq> u_String (q_URL (f_Request f)) then
      (case px_parse_url P (rc_URL ctx) of Some u \<Rightarrow> u | None \<Rightarrow> q_URL (f_Request f)) else q_URL (f_Request f)"
  have "RequestHook P now f ic = (?ic, f\<lparr>f_Request := \<lparr>q_Method = rc_Method ctx, q_URL = ?url,
      q_Header = rc_Headers ctx, q_Body = ?body\<rparr>\<rparr>)"
    using assms(3,4,7,10,11) codec
    by (simp add: RequestHook_def applyRequestScripts_def Let_def truncate_take request_data_def)
  moreover have "?body = (if rc_Body ctx = txt then enc_frames frs
       else case ProtoEncode pl d (rc_Body ctx) (codec_meta f True) of
         Inl _ \<Rightarrow> enc_frames frs
       | Inr payload \<Rightarrow> enc_frames (if length payload < 2 ^ 32
           then (0, payload) # filter (\<lambda>fr. fst fr \<noteq> 0) frs else frs))"
    by (simp add: sent_body_def reframed_def split: sum.split)
  moreover have "Get (f_Id f) (ic_store ?ic) = Inr (m, Some (request_data f))"
    using assms(1,2) by (simp add: store_laws)
  ultimately show ?thesis by auto
qed

text \<open>A script that replaces the body, and a flow that carries a message, a compressed frame and a
  trailer.\<close>

definition edit_goja :: goja where
  "edit_goja = demo_goja (\<lambda>src. LoadHandler (\<lambda>ob. JReturn (js_set ''body'' (JStr ''new'') ob)))"

definition grpc_frames :: "(nat \<times> string) list" where
  "grpc_frames = [(0, ''old''), (128, ''ok'')]"

definition grpc_flow :: mp_flow where
  "grpc_flow = demo_flow\<lparr>f_Request := \<lparr>q_Method = ''POST'', q_URL = demo_url\<lparr>u_Path := ''/p.S/M''\<rparr>,
     q_Header = [(''Content-Type'', [''application/grpc-web''])], q_Body = enc_frames grpc_frames\<rparr>\<rparr>"

definition grpc_resolver :: "nat resolver" where
  "grpc_resolver = Some (StaticResolver (Some [(''p.S/M'', 7)]))"

definition grpc_ic :: interceptor where
  "grpc_ic = demo_ic\<lparr>ic_engine := Some (NewEngine\<lparr>e_scripts := [demo_script ''edit'']\<rparr>),
     ic_decoderReg := Some [GRPCWebDecoder demo_pl grpc_resolver, RawProtobufDecoder demo_pl grpc_resolver]\<rparr>"

lemma grpc_parts:
  "matchesContentType (HGet (q_Header (f_Request grpc_flow)) ''Content-Type'') grpcWebContentTypes"
  "\<forall>fr \<in> set grpc_frames. frame_ok fr"
  "extractGRPCPath ''/p.S/M'' = (''p.S'', ''M'')"
  by (simp add: grpc_flow_def, code_simp, simp add: grpc_frames_def frame_ok_def, code_simp)

lemma grpc_encodes: "ProtoEncode demo_pl grpc_resolver js (codec_meta grpc_flow True) = Inr js"
  by (simp add: ProtoEncode_def grpc_resolver_def resolveReg_def StaticResolver_def HasMethods_def EncodeNamed_def
      newMessage_def LookupMethod_def codec_meta_def grpc_flow_def grpc_parts(3) demo_pl_def)

lemma grpc_decodes:
  "GrpcWebDecode demo_pl grpc_resolver (enc_frames grpc_frames) (codec_meta grpc_flow True) =
   Inr (''old'', ''application/json'')"
  using data_frames_all [OF grpc_parts(2), of "[]" "[]"]
  by (simp add: GrpcWebDecode_def extractDataFrames_def grpc_frames_def frame_notes_def ProtoDecode_def
      grpc_resolver_def resolveReg_def StaticResolver_def HasMethods_def DecodeNamed_def
      newMessage_def LookupMethod_def codec_meta_def grpc_flow_def grpc_parts(3) demo_pl_def)

lemma edit_run:
  "\<exists>ctx. RunOnRequest edit_goja (c\<lparr>rc_Body := ''old'', rc_Responded := False\<rparr>)
      (NewEngine\<lparr>e_scripts := [demo_script ''edit'']\<rparr>) =
      (NewEngine\<lparr>e_scripts := [demo_script ''edit'']\<rparr>, ctx) \<and>
    rc_Body ctx = ''new'' \<and> \<not> rc_Responded ctx \<and> \<not> rc_Blocked ctx"
  by (simp add: RunOnRequest_def runOnRequest_def edit_goja_def demo_goja_def matchesURL_def NewEngine_def request_js_def
      injectReadFile_def js_set_def read_back_request_def readBackRespondWith_def js_defined_def Let_def)

theorem grpc_edit_reaches_wire_witness:
  "\<exists>ic' f'. RequestHook (demo_px\<lparr>px_goja := edit_goja\<rparr>) 5 grpc_flow grpc_ic = (ic', f') \<and>
    q_Body (f_Request f') = enc_frames [(0, ''new''), (128, ''ok'')]"
proof -
  let ?e = "NewEngine\<lparr>e_scripts := [demo_script ''edit'']\<rparr>"
  have "(request_context grpc_flow)\<lparr>rc_Responded := False\<rparr> = request_context grpc_flow"
    by (simp add: request_context_def)
  with edit_run [of "request_context grpc_flow"] obtain ctx where ctx:
    "RunOnRequest edit_goja ((request_context grpc_flow)\<lparr>rc_Body := ''old''\<rparr>) ?e = (?e, ctx)"
    "rc_Body ctx = ''new''" "\<not> rc_Responded ctx" "\<not> rc_Blocked ctx" by (auto simp: request_context_def)
  have h: "rb_inv (ic_store grpc_ic)" "Get (f_Id grpc_flow) (ic_store grpc_ic) = Inr (zero_meta\<lparr>fm_ID := ''7''\<rparr>, None)"
    "ic_engine grpc_ic = Some ?e" "q_Body (f_Request grpc_flow) = enc_frames grpc_frames"
    "ic_decoderReg grpc_ic = Some [GRPCWebDecoder demo_pl grpc_resolver, RawProtobufDecoder demo_pl grpc_resolver]"
    using demo_ic_inv demo_ic_get by (simp_all add: grpc_ic_def grpc_flow_def)
  have run: "RunOnRequest (px_goja (demo_px\<lparr>px_goja := edit_goja\<rparr>))
      ((request_context grpc_flow)\<lparr>rc_Body := ''old''\<rparr>) ?e = (?e, ctx)" using ctx(1) by simp
  from grpc_edit_reaches_wire [OF h(1,2,3,5) grpc_parts(1,2) h(4) grpc_decodes run ctx(3,4), of 5]
  show ?thesis by (auto simp: ctx(2) grpc_encodes) (simp add: grpc_frames_def)
qed

subsection \<open>Responses\<close>

text \<open>The same for a response, which the proxy has decompressed: the text a script leaves alone
  goes out as the bytes the server sent, compressed again where they were.\<close>

theorem grpc_response_edit:
  assumes "ic_engine ic = Some e" and "f_Response f = Some p"
    and "ic_decoderReg ic = Some [GRPCWebDecoder pl d, RawProtobufDecoder pl d]"
    and "matchesContentType (HGet (p_Header p) ''Content-Type'') grpcWebContentTypes"
    and "\<forall>fr \<in> set frs. frame_ok fr" and "px_decoded_body P p = Inr (enc_frames frs)"
    and "GrpcWebDecode pl d (enc_frames frs) (codec_meta f False) = Inr (txt, c)"
    and "RunOnResponse (px_goja P) ((response_context f p)\<lparr>pc_Body := txt\<rparr>) (u_String (q_URL (f_Request f))) e = (e1, ctx)"
    and "\<not> pc_Responded ctx"
  shows "\<exists>ic' p'. ResponseHook P now f ic = (ic', f\<lparr>f_Response := Some p'\<rparr>) \<and> p_StatusCode p' = pc_Status ctx \<and>
    (let plain = sent_body pl d (codec_meta f False) frs txt (pc_Body ctx); enc = HGet (p_Header p) ''Content-Encoding''
     in p_Body p' = plain \<or> recompress P plain enc = Some (p_Body p'))"
proof -
  let ?url = "u_String (q_URL (f_Request f))"
  have run: "run_response_body P ?url txt (e, response_context f p) = (pc_Body ctx, txt \<noteq> pc_Body ctx, e1, ctx)"
    by (simp add: run_response_body_def assms(8))
  have codec: "runScriptsWithCodec (Some [GRPCWebDecoder pl d, RawProtobufDecoder pl d]) (enc_frames frs)
      (HGet (p_Header p) ''Content-Type'') (codec_meta f False) (run_response_body P ?url) (e, response_context f p) =
      (sent_body pl d (codec_meta f False) frs txt (pc_Body ctx), e1, ctx)"
    by (rule codec_grpc_web [where run = "run_response_body P ?url", OF assms(5,4,7) run])
  show ?thesis
    using assms(1-3,6,9) codec by (auto simp: ResponseHook_def applyResponseScripts_def Let_def split: option.splits)
qed

subsection \<open>What the joined text loses\<close>

text \<open>The messages of a stream, one frame each, reach a script as one message: their payloads are
  joined before they are decoded, and an edited text goes out as a single frame.\<close>

lemma stream_is_joined:
  assumes "\<forall>fr \<in> set frs. frame_ok fr \<and> fst fr = 0" and "ProtoEncode pl d new meta = Inr payload"
    and "length payload < 2 ^ 32" and "new \<noteq> old"
  shows "extractDataFrames (enc_frames frs) = Inr (concat (map snd frs), []) \<and>
    sent_body pl d meta frs old new = enc_frames [(0, payload)]"
proof -
  have "filter (\<lambda>fr. fst fr = 0) frs = frs" "filter (\<lambda>fr. 0 < fst fr) frs = []" "concat (map frame_notes frs) = []"
    using assms(1) by (auto simp: filter_empty_conv frame_notes_def intro: filter_True)
  moreover have "data_frames (enc_frames frs) [] [] =
      Inr (concat (map snd (filter (\<lambda>fr. fst fr = 0) frs)), concat (map frame_notes frs))"
    using data_frames_all [of frs "[]" "[]"] assms(1) by simp
  ultimately show ?thesis using assms(2-4)
    by (simp add: extractDataFrames_def sent_body_def reframed_def)
qed

text \<open>A compressed frame, or one with an unknown flag, puts comment lines behind the JSON a script
  gets.\<close>

lemma notes_follow_the_json:
  assumes "\<forall>fr \<in> set frs. frame_ok fr" and "concat (map frame_notes frs) \<noteq> []"
    and "GrpcWebDecode pl d (enc_frames frs) meta = Inr (txt, c)"
  shows "\<exists>json. txt = json @ [CHR 0x0A, CHR 0x0A] @ ''// '' @
    Join (concat (map frame_notes frs)) (CHR 0x0A # ''// '')"
  using assms(2,3) data_frames_all [OF assms(1), of "[]" "[]"]
  by (auto simp: GrpcWebDecode_def extractDataFrames_def split: sum.splits if_splits)

text \<open>A gRPC body (not gRPC-Web) starts with the flag byte of its first frame, but its content type is
  one of the raw protobuf decoder, which takes that byte for a field number.  Zero is no field
  number, which is what the two hypotheses say of the protobuf library, so no such body is ever
  decoded and scripts get its raw bytes.\<close>

lemma native_grpc_is_not_decoded:
  assumes "\<And>t. snd (snd (pw_tag (pl_wire pl) (char_of (0 :: nat) # t))) < 0"
    and "\<And>m i t. \<exists>err. pl_decode pl m i (char_of (0 :: nat) # t) = Inl err"
  shows "matchesContentType ''application/grpc'' protobufContentTypes \<and>
    (\<exists>err. ProtoDecode pl d (enc_frame (0, msg)) meta = Inl err) \<and>
    fst (runScriptsWithCodec (Some [GRPCWebDecoder pl d, RawProtobufDecoder pl d]) (enc_frame (0, msg))
      ''application/grpc'' meta run s) = fst (run (enc_frame (0, msg)) s)"
proof -
  let ?b = "enc_frame (0, msg)"
  obtain t where b: "?b = char_of (0 :: nat) # t" by (simp add: enc_frame_def)
  obtain num ty n where tag: "pw_tag (pl_wire pl) ?b = (num, ty, n)" by (metis prod_cases3)
  with assms(1) [of t] b have "n < 0" by simp
  with tag b have raw: "\<exists>err. decodeRaw (pl_wire pl) (pl_marshal pl) ?b = Inl err"
    by (simp add: decodeRaw_def decodeWireFields_def)
  have "\<exists>err. DecodeNamed pl reg ?b path i = Inl err" for reg path i
    using assms(2) by (cases "newMessage reg path") (simp_all add: DecodeNamed_def b)
  then obtain err where named: "DecodeNamed pl (resolveReg d (dm_Host meta)) ?b (dm_RequestPath meta) (dm_IsRequest meta) = Inl err"
    by blast
  from raw have dec: "\<exists>err. ProtoDecode pl d ?b meta = Inl err"
    by (simp add: ProtoDecode_def Let_def named)
  have ct: "matchesContentType ''application/grpc'' protobufContentTypes"
    "\<not> matchesContentType ''application/grpc'' grpcWebContentTypes" by code_simp+
  with dec have "\<exists>err. RegistryDecode [GRPCWebDecoder pl d, RawProtobufDecoder pl d] ?b ''application/grpc'' meta = Inl err"
    by (simp add: GRPCWebDecoder_def RawProtobufDecoder_def)
  with dec ct show ?thesis by (auto simp: runScriptsWithCodec_def split: prod.split)
qed

end
