(* ===== verification/Tui_Tree.thy ===== *)
theory Tui_Tree
  imports Flow_Store
begin

section \<open>The grouped flow list (internal/tui/tree.go)\<close>

text \<open>
  Grouping of flows by host or process and the rows the cursor can address.  The map and the
  order list of \<open>buildGroups\<close> are one association list in order of first appearance.  The order
  that \<open>slices.SortFunc\<close> gives groups with the same newest start is not specified, so the sort is a
  parameter; \<open>sorts_groups\<close> states what its documentation promises.
\<close>

record flowGroup =
  fg_Key :: string
  fg_Flows :: "FlowMeta list"
  fg_Newest :: int

record treeRow =
  tw_IsHeader :: bool
  tw_GroupKey :: string
  tw_Flow :: FlowMeta

text \<open>An em dash stands for a process that is not known.\<close>

definition processLabel :: "string \<Rightarrow> int \<Rightarrow> string" where
  "processLabel proc pid = (if proc = [] then [CHR 0xE2, CHR 0x80, CHR 0x94]
     else if pid > 0 then proc @ ''('' @ Itoa pid @ '')'' else proc)"

definition hostKey :: "FlowMeta \<Rightarrow> string" where
  "hostKey f = fm_Host f"

definition processKey :: "FlowMeta \<Rightarrow> string" where
  "processKey f = processLabel (fm_Process f) (fm_ProcessPID f)"

fun group_add :: "string \<Rightarrow> FlowMeta \<Rightarrow> flowGroup list \<Rightarrow> flowGroup list" where
  "group_add k f [] = [\<lparr>fg_Key = k, fg_Flows = [f], fg_Newest = (if fm_StartedAt f > 0 then fm_StartedAt f else 0)\<rparr>]"
| "group_add k f (g # gs) =
     (if fg_Key g = k
      then g\<lparr>fg_Flows := fg_Flows g @ [f],
             fg_Newest := (if fm_StartedAt f > fg_Newest g then fm_StartedAt f else fg_Newest g)\<rparr> # gs
      else g # group_add k f gs)"

type_synonym group_sort = "flowGroup list \<Rightarrow> flowGroup list"

definition buildGroups :: "group_sort \<Rightarrow> FlowMeta list \<Rightarrow> (FlowMeta \<Rightarrow> string) \<Rightarrow> flowGroup list" where
  "buildGroups sort_fn fls keyFn = sort_fn (fold (\<lambda>f gs. group_add (keyFn f) f gs) fls [])"

definition sorts_groups :: "group_sort \<Rightarrow> bool" where
  "sorts_groups sort_fn \<longleftrightarrow> (\<forall>gs. mset (sort_fn gs) = mset gs \<and> sorted (map (\<lambda>g. - fg_Newest g) (sort_fn gs)))"

definition newest_first :: group_sort where
  "newest_first gs = sort_key (\<lambda>g. - fg_Newest g) gs"

lemma newest_first_sorts: "sorts_groups newest_first"
  by (simp add: sorts_groups_def newest_first_def)

definition header_row :: "string \<Rightarrow> treeRow" where
  "header_row k = \<lparr>tw_IsHeader = True, tw_GroupKey = k, tw_Flow = zero_meta\<rparr>"

definition flow_rows :: "flowGroup \<Rightarrow> treeRow list" where
  "flow_rows g = map (\<lambda>f. \<lparr>tw_IsHeader = False, tw_GroupKey = fg_Key g, tw_Flow = f\<rparr>) (fg_Flows g)"

definition flattenTree :: "flowGroup list \<Rightarrow> (string \<Rightarrow> bool) \<Rightarrow> treeRow list" where
  "flattenTree groups expanded =
     concat (map (\<lambda>g. header_row (fg_Key g) # (if expanded (fg_Key g) then flow_rows g else [])) groups)"

definition flattenFocus :: "flowGroup list \<Rightarrow> string \<Rightarrow> treeRow list" where
  "flattenFocus groups key = (case find (\<lambda>g. fg_Key g = key) groups of None \<Rightarrow> [] | Some g \<Rightarrow> flow_rows g)"

subsection \<open>Groups partition the flows\<close>

definition groups_ok :: "(FlowMeta \<Rightarrow> string) \<Rightarrow> FlowMeta list \<Rightarrow> flowGroup list \<Rightarrow> bool" where
  "groups_ok keyFn fls gs \<longleftrightarrow> distinct (map fg_Key gs) \<and> fg_Key ` set gs = keyFn ` set fls \<and>
     (\<forall>g \<in> set gs. fg_Flows g = filter (\<lambda>f. keyFn f = fg_Key g) fls \<and>
        fg_Newest g = Max (insert 0 (fm_StartedAt ` set (fg_Flows g))))"

lemma group_add_keys: "fg_Key ` set (group_add k f gs) = insert k (fg_Key ` set gs)"
  by (induction gs) auto

lemma group_add_distinct: "distinct (map fg_Key gs) \<Longrightarrow> distinct (map fg_Key (group_add k f gs))"
proof (induction gs)
  case (Cons g gs)
  show ?case by (cases "fg_Key g = k") (use Cons in \<open>auto simp: group_add_keys\<close>)
qed simp

lemma group_add_mem:
  assumes "distinct (map fg_Key gs)" and "h \<in> set (group_add k f gs)"
  shows "(fg_Key h \<noteq> k \<and> h \<in> set gs) \<or>
    (k \<notin> fg_Key ` set gs \<and> h = \<lparr>fg_Key = k, fg_Flows = [f], fg_Newest = max 0 (fm_StartedAt f)\<rparr>) \<or>
    (\<exists>g \<in> set gs. fg_Key g = k \<and> h = g\<lparr>fg_Flows := fg_Flows g @ [f], fg_Newest := max (fg_Newest g) (fm_StartedAt f)\<rparr>)"
  using assms
proof (induction gs)
  case (Cons g gs)
  show ?case
  proof (cases "fg_Key g = k")
    case True
    with Cons.prems show ?thesis by (auto simp: max_def image_iff)
  next
    case False
    with Cons.prems have "h = g \<or> h \<in> set (group_add k f gs)" by simp
    with Cons.IH Cons.prems(1) False show ?thesis by auto
  qed
qed (auto simp: max_def)

lemma groups_ok_step:
  assumes "groups_ok keyFn fls gs"
  shows "groups_ok keyFn (fls @ [f]) (group_add (keyFn f) f gs)"
proof -
  let ?k = "keyFn f"
  note ok = assms [unfolded groups_ok_def]
  have d: "distinct (map fg_Key gs)" using ok by blast
  have "fg_Flows h = filter (\<lambda>x. keyFn x = fg_Key h) (fls @ [f]) \<and>
      fg_Newest h = Max (insert 0 (fm_StartedAt ` set (fg_Flows h)))" if h: "h \<in> set (group_add ?k f gs)" for h
    using group_add_mem [OF d h]
  proof (elim disjE bexE conjE)
    assume "fg_Key h \<noteq> ?k" "h \<in> set gs"
    with ok show ?thesis by auto
  next
    assume new: "?k \<notin> fg_Key ` set gs" and hh: "h = \<lparr>fg_Key = ?k, fg_Flows = [f], fg_Newest = max 0 (fm_StartedAt f)\<rparr>"
    from ok have "fg_Key ` set gs = keyFn ` set fls" by blast
    with new have "keyFn x \<noteq> ?k" if "x \<in> set fls" for x using that by (metis imageI)
    then have "filter (\<lambda>x. keyFn x = ?k) fls = []" by (simp add: filter_empty_conv)
    with hh show ?thesis by (simp add: max.commute)
  next
    fix g assume g: "g \<in> set gs" "fg_Key g = ?k"
      and hh: "h = g\<lparr>fg_Flows := fg_Flows g @ [f], fg_Newest := max (fg_Newest g) (fm_StartedAt f)\<rparr>"
    from ok g have fl: "fg_Flows g = filter (\<lambda>x. keyFn x = ?k) fls"
      and nw: "fg_Newest g = Max (insert 0 (fm_StartedAt ` set (fg_Flows g)))" by auto
    have "Max (insert 0 (fm_StartedAt ` set (fg_Flows h))) = Max (insert (fm_StartedAt f) (insert 0 (fm_StartedAt ` set (fg_Flows g))))"
      using hh by (simp add: insert_commute)
    also have "\<dots> = max (fm_StartedAt f) (fg_Newest g)" unfolding nw by (rule Max_insert) auto
    finally show ?thesis using hh fl g(2) by (simp add: max.commute)
  qed
  then show ?thesis
    using ok group_add_distinct [OF d, of ?k f] unfolding groups_ok_def by (auto simp: group_add_keys)
qed

lemma groups_ok_perm:
  assumes "groups_ok keyFn fls gs" and "mset hs = mset gs"
  shows "groups_ok keyFn fls hs"
proof -
  have "set hs = set gs" using assms(2) by (rule mset_eq_setD)
  moreover have "distinct (map fg_Key hs) = distinct (map fg_Key gs)"
    by (rule mset_eq_imp_distinct_iff) (simp only: mset_map assms(2))
  ultimately show ?thesis using assms(1) unfolding groups_ok_def by simp
qed

lemma buildGroups_ok:
  assumes "sorts_groups sort_fn"
  shows "groups_ok keyFn fls (buildGroups sort_fn fls keyFn)"
proof -
  let ?step = "\<lambda>f gs. group_add (keyFn f) f gs"
  have "groups_ok keyFn (pre @ fls) (fold ?step fls gs)" if "groups_ok keyFn pre gs" for pre gs
    using that
  proof (induction fls arbitrary: pre gs)
    case (Cons f fls)
    from Cons.IH [OF groups_ok_step [OF Cons.prems, of f]] show ?case by simp
  qed simp
  from this [of "[]" "[]"] have ok: "groups_ok keyFn fls (fold ?step fls [])" by (simp add: groups_ok_def)
  show ?thesis unfolding buildGroups_def
    by (rule groups_ok_perm [OF ok]) (use assms in \<open>simp add: sorts_groups_def\<close>)
qed

lemma mset_groups:
  assumes "distinct (map fg_Key gs)" and "\<forall>g \<in> set gs. fg_Flows g = filter (\<lambda>f. keyFn f = fg_Key g) fls"
    and "keyFn ` set fls \<subseteq> fg_Key ` set gs"
  shows "mset (concat (map fg_Flows gs)) = mset fls"
  using assms
proof (induction gs arbitrary: fls)
  case (Cons g gs)
  let ?rest = "filter (\<lambda>f. keyFn f \<noteq> fg_Key g) fls"
  have "fg_Flows h = filter (\<lambda>f. keyFn f = fg_Key h) ?rest" if "h \<in> set gs" for h
  proof -
    have "fg_Key h \<noteq> fg_Key g" using Cons.prems(1) that by (auto simp: image_iff)
    with Cons.prems(2) that show ?thesis by (auto simp: filter_filter intro: filter_cong)
  qed
  then have "mset (concat (map fg_Flows gs)) = mset ?rest" using Cons.prems by (intro Cons.IH) auto
  moreover have "fg_Flows g = filter (\<lambda>f. keyFn f = fg_Key g) fls" using Cons.prems(2) by simp
  ultimately show ?case by (simp add: multiset_partition [of "mset fls" "\<lambda>f. keyFn f = fg_Key g", symmetric])
qed simp



end
