(* ===== verification/Tui_Text.thy ===== *)
theory Tui_Text
  imports Tui_Tree
begin

section \<open>The columns of the flow list (internal/tui/list.go, editor.go)\<close>

text \<open>
  The text of a row of the list: labels of content types, sizes, padded and cut columns and their
  widths.  A width counts runes.  Colours and the one-decimal seconds of a duration come from
  libraries: \<open>sty\<close> styles a piece of text (styles.go), \<open>secs\<close> formats a duration of a second or more.  Sizes
  below 2^53 are exact in a float64, and one decimal is rounded half to even.
\<close>

abbreviation RuneCount :: "string \<Rightarrow> nat" where
  "RuneCount s \<equiv> length (Runes s)"

definition media_part :: "string \<Rightarrow> string" where
  "media_part ct = TrimSpace (takeWhile (\<lambda>c. c \<noteq> CHR '';'') ct)"

definition contentTypeToExt :: "string \<Rightarrow> string" where
  "contentTypeToExt ct0 = (let ct = media_part ct0 in
     if ct = ''application/json'' then ''.json''
     else if ct = ''text/html'' then ''.html''
     else if ct = ''application/xml'' \<or> ct = ''text/xml'' then ''.xml''
     else if ct = ''text/css'' then ''.css''
     else if ct = ''application/javascript'' \<or> ct = ''text/javascript'' then ''.js''
     else ''.txt'')"

definition short_labels :: "(string \<times> string) list" where
  "short_labels = [(''application/json'', ''json''), (''application/xml'', ''xml''), (''text/xml'', ''xml''),
     (''text/html'', ''html''), (''text/plain'', ''text''), (''text/css'', ''css''),
     (''application/javascript'', ''js''), (''text/javascript'', ''js''), (''application/octet-stream'', ''binary''),
     (''multipart/form-data'', ''multipart''), (''application/x-www-form-urlencoded'', ''form''),
     (''application/grpc'', ''grpc''), (''application/pdf'', ''pdf''), (''application/protobuf'', ''protobuf''),
     (''application/x-protobuf'', ''protobuf'')]"

definition shortContentType :: "string \<Rightarrow> string" where
  "shortContentType ct0 = (if ct0 = [] then [] else let ct = media_part ct0 in
     case map_of short_labels ct of Some l \<Rightarrow> l
     | None \<Rightarrow> if HasPrefix ct ''image/'' then drop 6 ct
               else if HasPrefix ct ''font/'' then drop 5 ct else ct)"

definition ellipsis :: string where
  "ellipsis = [CHR 0xE2, CHR 0x80, CHR 0xA6]"

definition truncPad :: "string \<Rightarrow> int \<Rightarrow> string" where
  "truncPad s w = (if w \<le> 0 then [] else let r = Runes s in
     if int (length r) > w
     then (if w > 1 then concat (take (nat w - 1) r) @ ellipsis else concat (take (nat w) r))
     else s @ replicate (nat w - length r) CHR '' '')"

text \<open>\<open>r[:w]\<close> panics for a negative width.\<close>

definition truncate :: "string \<Rightarrow> int \<Rightarrow> string res" where
  "truncate s w = (let r = Runes s in if int (length r) > w
     then (if w < 0 then Inl SliceBounds else Inr (concat (take (nat w) r))) else Inr s)"

text \<open>The verbs \<open>%-*s\<close> and \<open>%*s\<close>.\<close>

definition pad_right :: "nat \<Rightarrow> string \<Rightarrow> string" where
  "pad_right w s = s @ replicate (w - RuneCount s) CHR '' ''"

definition pad_left :: "nat \<Rightarrow> string \<Rightarrow> string" where
  "pad_left w s = replicate (w - RuneCount s) CHR '' '' @ s"

definition columnWidths :: "int \<Rightarrow> int \<times> int" where
  "columnWidths width = (let fixed = 7 + 6 + 15 + 12 + 8 + 8 + 7; remaining = max (width - fixed) 20;
     hostW = remaining * 40 div 100 in (hostW, remaining - hostW))"

definition treePathWidth :: "int \<Rightarrow> int" where
  "treePathWidth width = (let fixed = 4 + 7 + 6 + 15 + 12 + 8 + 8 + 6 in max (width - fixed) 10)"

definition focusPathWidth :: "int \<Rightarrow> int" where
  "focusPathWidth width = (let fixed = 7 + 6 + 15 + 12 + 8 + 8 + 6 in max (width - fixed) 10)"

definition formatSize :: "int \<Rightarrow> string" where
  "formatSize b = (if b = 0 then ''0B'' else if b < 1024 then Itoa b @ ''B''
     else if b < 1024 * 1024 then one_decimal b 1024 @ ''K'' else one_decimal b (1024 * 1024) @ ''M'')"

text \<open>Durations are in nanoseconds; Go's division truncates.\<close>

definition formatDuration :: "(int \<Rightarrow> string) \<Rightarrow> int \<Rightarrow> string" where
  "formatDuration secs d = (if d < 1000000
     then Itoa (sgn d * (\<bar>d\<bar> div 1000)) @ [CHR 0xC2, CHR 0xB5] @ ''s''
     else if d < 1000000000 then Itoa (d div 1000000) @ ''ms'' else secs d)"

text \<open>What lipgloss makes of a text: a style, named as in styles.go, applied to it, at its own or at
  a given width.\<close>

type_synonym style = "string \<Rightarrow> string \<Rightarrow> string"

definition statusStyle :: "int \<Rightarrow> string" where
  "statusStyle code = (if code \<ge> 500 then ''Status5xx'' else if code \<ge> 400 then ''Status4xx''
     else if code \<ge> 300 then ''Status3xx'' else if code \<ge> 200 then ''Status2xx'' else ''Muted'')"

definition renderFlowColumns :: "style \<Rightarrow> (int \<Rightarrow> string) \<Rightarrow> FlowMeta \<Rightarrow> int \<Rightarrow> string \<Rightarrow> string \<Rightarrow> string" where
  "renderFlowColumns sty secs f pathW hostCol processCol =
     (let mth = sty ''Method'' (pad_right 7 (fm_Method f));
          status = (if fm_StatusCode f > 0 then sty (statusStyle (fm_StatusCode f)) (pad_right 6 (Itoa (fm_StatusCode f)))
            else sty ''Muted'' (pad_right 6 ''...''));
          path = truncPad (fm_Path f) pathW;
          ctype = sty ''Muted'' (truncPad (shortContentType (fm_ContentType f)) 12);
          dur = (if fm_State f = StateCompleted then pad_left 8 (formatDuration secs (fm_Duration f)) else pad_left 8 ''...'');
          size = pad_left 8 (formatSize (fm_SizeBytes f))
      in Join ([mth, status] @ (if hostCol \<noteq> [] then [hostCol] else []) @ [path, ctype] @
           (if processCol \<noteq> [] then [processCol] else []) @ [dur, size]) '' '')"

definition renderFlowRow :: "style \<Rightarrow> (int \<Rightarrow> string) \<Rightarrow> FlowMeta \<Rightarrow> int \<Rightarrow> int \<Rightarrow> string" where
  "renderFlowRow sty secs f hostW pathW = renderFlowColumns sty secs f pathW (truncPad (fm_Host f) hostW)
     (truncPad (processLabel (fm_Process f) (fm_ProcessPID f)) 15)"

subsection \<open>Counting runes\<close>

lemma cont_0: "cont lo hi (x # s) 0 = (lo \<le> byte x \<and> byte x \<le> hi)" "\<not> cont lo hi [] i"
  by (simp_all add: cont_def)

lemma cont_Suc: "cont lo hi (x # s) (Suc i) = cont lo hi s i"
  by (simp add: cont_def)

lemma cont_after:
  assumes "byte c < 128" and "128 \<le> lo"
  shows "cont lo hi (s @ c # t) 0 = cont lo hi s 0"
    and "(cont lo hi (s @ c # t) 0 \<and> cont 128 h1 (s @ c # t) 1) = (cont lo hi s 0 \<and> cont 128 h1 s 1)"
    and "(cont lo hi (s @ c # t) 0 \<and> cont 128 h1 (s @ c # t) 1 \<and> cont 128 h2 (s @ c # t) 2) =
      (cont lo hi s 0 \<and> cont 128 h1 s 1 \<and> cont 128 h2 s 2)"
proof -
  have no: "\<not> cont l h (c # t) 0" if "128 \<le> l" for l h using assms(1) that by (simp add: cont_0)
  show a: "cont lo hi (s @ c # t) 0 = cont lo hi s 0" for s
    using no assms(2) by (cases s) (simp_all add: cont_0)
  have b: "cont 128 h (x # s @ c # t) 1 = cont 128 h (x # s) 1" for x s h
    using no by (cases s) (simp_all add: cont_0 cont_Suc)
  show c: "(cont lo hi (s @ c # t) 0 \<and> cont 128 h1 (s @ c # t) 1) = (cont lo hi s 0 \<and> cont 128 h1 s 1)"
  proof (cases s)
    case Nil
    with no [OF assms(2), of hi] show ?thesis by (simp add: cont_0(2))
  qed (use a [of s] b in simp)
  have d: "cont 128 h (x # y # s @ c # t) 2 = cont 128 h (x # y # s) 2" for x y s h
    using no by (cases s) (simp_all add: cont_0 cont_Suc numeral_2_eq_2)
  show "(cont lo hi (s @ c # t) 0 \<and> cont 128 h1 (s @ c # t) 1 \<and> cont 128 h2 (s @ c # t) 2) =
      (cont lo hi s 0 \<and> cont 128 h1 s 1 \<and> cont 128 h2 s 2)"
  proof (cases "\<exists>x y r. s = x # y # r")
    case True
    then show ?thesis using d c by auto
  next
    case False
    then have "\<not> (cont lo hi s 0 \<and> cont 128 h1 s 1)"
      by (cases s; cases "tl s") (auto simp: cont_0 cont_Suc)
    with c show ?thesis by blast
  qed
qed

lemma utf8_len_ascii_after:
  assumes "s \<noteq> []" and "byte c < 128"
  shows "utf8_len (s @ c # t) = utf8_len s"
proof -
  obtain x r where s: "s = x # r" using assms(1) by (cases s) auto
  let ?lo = "if byte x = 224 then 160 else 128 :: nat" and ?hi = "if byte x = 237 then 159 else 191 :: nat"
  let ?lo4 = "if byte x = 240 then 144 else 128 :: nat" and ?hi4 = "if byte x = 244 then 143 else 191 :: nat"
  have "128 \<le> ?lo" "128 \<le> ?lo4" by auto
  note c3 = cont_after(2) [OF assms(2) this(1), of ?hi r t 191]
    and c4 = cont_after(3) [OF assms(2) this(2), of ?hi4 r t 191 191]
    and c2 = cont_after(1) [OF assms(2) order_refl, of 191 r t]
  show ?thesis unfolding s utf8_len_def Let_def append_Cons list.case c2 c3 c4 ..
qed

lemma Runes_ascii_after:
  assumes "byte c < 128"
  shows "Runes (s @ c # t) = Runes s @ Runes (c # t)"
proof (induction s rule: Runes.induct)
  case (1 s)
  show ?case
  proof (cases "s = []")
    case False
    note eq = utf8_len_ascii_after [OF False assms, of t]
    have le: "utf8_len s \<le> length s" by (rule utf8_len_le)
    show ?thesis
    proof (cases "utf8_len s = 0")
      case True
      then show ?thesis using 1(1) [OF False True] False eq
        by (subst Runes.simps, subst (2) Runes.simps) (cases s, auto)
    next
      case no: False
      then show ?thesis using 1(2) [OF False no] False eq le
        by (subst Runes.simps, subst (2) Runes.simps) auto
    qed
  qed simp
qed

lemma Runes_ascii_Cons: "byte c < 128 \<Longrightarrow> Runes (c # s) = [c] # Runes s"
  by (subst Runes.simps) (simp add: utf8_len_ascii)

lemma byte_space [simp]: "byte CHR '' '' = 32"
  by (simp add: byte_def)

lemma Runes_spaces [simp]: "Runes (replicate n CHR '' '') = replicate n '' ''"
  by (induction n) (simp_all add: Runes_ascii_Cons)

lemma RuneCount_after [simp]: "RuneCount (s @ replicate n CHR '' '') = RuneCount s + n"
  by (cases n) (simp_all add: Runes_ascii_after Runes_ascii_Cons)

lemma RuneCount_before [simp]: "RuneCount (replicate n CHR '' '' @ s) = n + RuneCount s"
  by (induction n) (simp_all add: Runes_ascii_Cons)

lemma RuneCount_gap: "RuneCount (a @ '' '' @ b) = RuneCount a + 1 + RuneCount b"
  by (simp add: Runes_ascii_after Runes_ascii_Cons)

lemma RuneCount_Join: "ws \<noteq> [] \<Longrightarrow> RuneCount (Join ws '' '') = sum_list (map RuneCount ws) + length ws - 1"
proof (induction ws)
  case (Cons w ws)
  show ?case
  proof (cases "ws = []")
    case False
    then have "1 \<le> length ws" by (cases ws) auto
    with Cons.IH [OF False] show ?thesis by (simp only: Join_Cons [OF False] RuneCount_gap) simp
  qed simp
qed simp

lemma utf8_len_cases:
  "(if A then 1 else if B then (if C then 2 else 0) else if D then (if E then 3 else 0)
    else if F then (if G then 4 else 0) else 0) \<noteq> (0::nat) \<Longrightarrow> A \<or> B \<and> C \<or> D \<and> E \<or> F \<and> G"
  by (auto split: if_splits)

abbreviation cont_3 :: "nat \<Rightarrow> string \<Rightarrow> bool" where
  "cont_3 b r \<equiv> cont (if b = 224 then 160 else 128) (if b = 237 then 159 else 191) r 0 \<and> cont 128 191 r 1"

abbreviation cont_4 :: "nat \<Rightarrow> string \<Rightarrow> bool" where
  "cont_4 b r \<equiv> cont (if b = 240 then 144 else 128) (if b = 244 then 143 else 191) r 0 \<and> cont 128 191 r 1 \<and> cont 128 191 r 2"

lemma utf8_len_3: "224 \<le> byte x \<Longrightarrow> byte x \<le> 239 \<Longrightarrow> cont_3 (byte x) r \<Longrightarrow> utf8_len (x # r) = 3"
  unfolding utf8_len_def Let_def list.case by (subst if_not_P, simp, subst if_not_P, simp, simp only: if_True simp_thms)

lemma utf8_len_4: "240 \<le> byte x \<Longrightarrow> byte x \<le> 244 \<Longrightarrow> cont_4 (byte x) r \<Longrightarrow> utf8_len (x # r) = 4"
  unfolding utf8_len_def Let_def list.case
  by (subst if_not_P, simp, subst if_not_P, simp, subst if_not_P, simp, simp only: if_True simp_thms)

lemma one_less_2: "1 < (2::nat)" and one_less_3: "1 < (3::nat)" and two_less_3: "2 < (3::nat)"
  by simp_all

lemma utf8_len_take:
  assumes "utf8_len s \<noteq> 0"
  shows "utf8_len (take (utf8_len s) s @ t) = utf8_len s"
proof -
  obtain x r where s: "s = x # r" using assms by (cases s) (auto simp: utf8_len_def)
  have ci: "cont lo hi (take m r @ t) i = cont lo hi r i" if "i < m" "m \<le> length r" for lo hi m i
    using that by (simp add: cont_def nth_append)
  consider "byte x < 128" | "194 \<le> byte x" "byte x \<le> 223" "cont 128 191 r 0" | "224 \<le> byte x" "byte x \<le> 239" "cont_3 (byte x) r"
    | "240 \<le> byte x" "byte x \<le> 244" "cont_4 (byte x) r"
    using utf8_len_cases [OF assms [unfolded s utf8_len_def Let_def list.case]] by blast
  then show ?thesis
  proof cases
    case 2
    then have "1 \<le> length r" by (cases r) (simp_all add: cont_def)
    with 2 ci [of 0 1] show ?thesis by (simp add: s utf8_len_def)
  next
    case 3
    then have l: "2 \<le> length r" by (simp add: cont_def)
    have "cont_3 (byte x) (take 2 r @ t)" unfolding ci [OF zero_less_numeral l] ci [OF one_less_2 l] by (rule 3(3))
    with utf8_len_3 [OF 3] utf8_len_3 [OF 3(1,2)] show ?thesis unfolding s by (simp add: eval_nat_numeral)
  next
    case 4
    then have l: "3 \<le> length r" by (simp add: cont_def)
    have "cont_4 (byte x) (take 3 r @ t)" unfolding ci [OF zero_less_numeral l] ci [OF one_less_3 l] ci [OF two_less_3 l] by (rule 4(3))
    with utf8_len_4 [OF 4] utf8_len_4 [OF 4(1,2)] show ?thesis unfolding s by (simp add: eval_nat_numeral)
  qed (simp add: s utf8_len_def)
qed

lemma Runes_self:
  assumes "r \<in> set (Runes s)"
  shows "Runes (r @ t) = r # Runes t"
  using assms
proof (induction s rule: Runes.induct)
  case (1 s)
  show ?case
  proof (cases "s = []")
    case False
    show ?thesis
    proof (cases "utf8_len s = 0")
      case True
      then have "r = rune_error \<or> r \<in> set (Runes (drop 1 s))"
        using 1(3) False by (subst (asm) Runes.simps) simp
      moreover have "utf8_len (rune_error @ t) = 3"
        by (simp add: rune_error_def utf8_len_def cont_def byte_def)
      then have "Runes (rune_error @ t) = rune_error # Runes t"
        by (subst Runes.simps) (simp add: rune_error_def)
      ultimately show ?thesis using 1(1) [OF False True] by auto
    next
      case no: False
      then have r: "r = take (utf8_len s) s \<or> r \<in> set (Runes (drop (utf8_len s) s))"
        using 1(3) False by (subst (asm) Runes.simps) simp
      have "length (take (utf8_len s) s) = utf8_len s" using utf8_len_le [of s] by simp
      then have "Runes (take (utf8_len s) s @ t) = take (utf8_len s) s # Runes t"
        using utf8_len_take [OF no, of t] no False by (subst Runes.simps) auto
      with r 1(2) [OF False no] show ?thesis by blast
    qed
  qed (use 1(3) in simp)
qed

lemma Runes_concat: "set rs \<subseteq> set (Runes s) \<Longrightarrow> Runes (concat rs @ t) = rs @ Runes t"
  by (induction rs) (use Runes_self [of _ s] in auto)

lemma RuneCount_ellipsis: "RuneCount ellipsis = 1"
proof -
  have "utf8_len ellipsis = 3" by (simp add: ellipsis_def utf8_len_def cont_def byte_def)
  then show ?thesis by (subst Runes.simps) (simp add: ellipsis_def)
qed

lemma RuneCount_truncPad: "0 < w \<Longrightarrow> int (RuneCount (truncPad s w)) = w"
proof -
  assume w: "0 < w"
  have cut: "RuneCount (concat (take n (Runes s)) @ t) = min n (RuneCount s) + RuneCount t" for n t
    by (subst Runes_concat [OF set_take_subset]) (simp add: min.commute)
  from cut [of _ "[]"] have cut0: "RuneCount (concat (take n (Runes s))) = min n (RuneCount s)" for n by simp
  show ?thesis using w by (auto simp: truncPad_def Let_def cut cut0 RuneCount_ellipsis)
qed

lemma RuneCount_pad: "RuneCount (pad_right w s) = max w (RuneCount s)" "RuneCount (pad_left w s) = max w (RuneCount s)"
  by (simp_all add: pad_right_def pad_left_def)

lemma RuneCount_truncPad_nat: "0 < w \<Longrightarrow> RuneCount (truncPad s w) = nat w"
  using RuneCount_truncPad [of w s] by linarith

lemma dots: "RuneCount ''...'' = 3"
  by (simp add: Runes_ascii byte_def)

lemma show_nat_digits_bound: "n < 10 ^ k \<Longrightarrow> 0 < k \<Longrightarrow> length (show_nat n) \<le> k"
proof (induction n arbitrary: k rule: show_nat.induct)
  case (1 n)
  show ?case
  proof (cases "n < 10")
    case False
    then obtain j where k: "k = Suc j" "0 < j" using 1(2,3) by (cases k; cases "k = 1") auto
    then have "n div 10 < 10 ^ j" using 1(2) by (simp add: less_mult_imp_div_less mult.commute)
    from 1(1) [OF False this k(2)] show ?thesis using False k by (simp add: show_nat.simps [of n])
  qed (use 1(3) in \<open>simp add: show_nat.simps [of n]\<close>)
qed

lemma RuneCount_Itoa:
  assumes "0 \<le> i" and "i < 10 ^ k" and "0 < k"
  shows "RuneCount (Itoa i) \<le> k"
proof -
  have "nat i < 10 ^ k" using assms(1,2) by (simp add: nat_less_iff)
  from show_nat_digits_bound [OF this assms(3)] length_Runes_le [of "Itoa i"] assms(1) show ?thesis
    by (simp add: Itoa_def)
qed

text \<open>When the method, the status, the duration and the size fit their columns, the text of a row
  of the flat list is exactly as wide as the terminal, for every terminal of at least 83 columns:
  long hosts, paths and process names are cut, short ones padded, rune by rune.\<close>

theorem flat_row_fills_width:
  assumes "83 \<le> width" and "RuneCount (fm_Method f) \<le> 7" and "fm_StatusCode f < 1000000"
    and "RuneCount (formatDuration secs (fm_Duration f)) \<le> 8" and "RuneCount (formatSize (fm_SizeBytes f)) \<le> 8"
  shows "(case columnWidths width of (hostW, pathW) \<Rightarrow>
     int (RuneCount (renderFlowRow (\<lambda>_ s. s) secs f hostW pathW)) = width)"
proof -
  obtain hostW pathW where w: "columnWidths width = (hostW, pathW)" by (cases "columnWidths width")
  then have sum: "hostW + pathW = width - 63" and pos: "0 < hostW" "0 < pathW"
    using assms(1) by (auto simp: columnWidths_def Let_def)
  have cells: "RuneCount (pad_right 7 (fm_Method f)) = 7" "RuneCount (pad_right 6 ''...'') = 6"
      "RuneCount (pad_left 8 (formatDuration secs (fm_Duration f))) = 8" "RuneCount (pad_left 8 ''...'') = 8"
      "RuneCount (pad_left 8 (formatSize (fm_SizeBytes f))) = 8"
    using assms(2,4,5) by (simp_all add: RuneCount_pad dots)
  have status: "RuneCount (pad_right 6 (Itoa (fm_StatusCode f))) = 6" if "0 < fm_StatusCode f"
    using RuneCount_Itoa [OF less_imp_le [OF that], of 6] assms(3) by (simp add: RuneCount_pad)
  have ne: "truncPad s n \<noteq> []" if "0 < n" for s n
    using RuneCount_truncPad [OF that, of s] that by auto
  have "RuneCount (renderFlowRow (\<lambda>_ s. s) secs f hostW pathW) = 7 + 6 + nat hostW + nat pathW + 12 + 15 + 8 + 8 + 7"
    unfolding renderFlowRow_def renderFlowColumns_def Let_def
    by (subst RuneCount_Join) (auto simp: cells status ne pos RuneCount_truncPad_nat)
  with sum pos w show ?thesis by simp
qed

theorem flat_row_fills_width_witness:
  "(case columnWidths 100 of (hostW, pathW) \<Rightarrow>
     int (RuneCount (renderFlowRow (\<lambda>_ s. s) (\<lambda>_. [])
       (zero_meta\<lparr>fm_Method := ''GET'', fm_Duration := 5000000, fm_SizeBytes := 2048\<rparr>) hostW pathW)) = 100)"
proof (rule flat_row_fills_width)
  show "RuneCount (fm_Method (zero_meta\<lparr>fm_Method := ''GET'', fm_Duration := 5000000, fm_SizeBytes := 2048\<rparr>)) \<le> 7"
    by code_simp
  show "RuneCount (formatDuration (\<lambda>_. []) (fm_Duration (zero_meta\<lparr>fm_Method := ''GET'', fm_Duration := 5000000, fm_SizeBytes := 2048\<rparr>))) \<le> 8"
    by code_simp
  show "RuneCount (formatSize (fm_SizeBytes (zero_meta\<lparr>fm_Method := ''GET'', fm_Duration := 5000000, fm_SizeBytes := 2048\<rparr>))) \<le> 8"
    by code_simp
qed (simp_all add: zero_meta_def)

end
