(* ===== verification/Mcp_Read.thy ===== *)
theory Mcp_Read
  imports Flow_Filter Har_Export Protobuf_Raw Script_Header
begin

section \<open>The read tools of the MCP server (internal/mcpserver/tools_read.go)\<close>

text \<open>
  Each tool is a function from its input and the state it reads to a tool result.  A result
  holds the value that is rendered as JSON, or plain text; object members are listed in the
  order of the source.  The store keeps a nil header map and
  one without entries alike, and \<open>as_map\<close> reads both as nil.  \<open>fmt\<close> and \<open>fmt_nano\<close>
  format a start time (time.RFC3339 and RFC3339Nano in local time).  A handler that panics,
  which the transport does not recover, is the left side of a sum.
\<close>

subsection \<open>Results\<close>

datatype jv = JvNull | JvBool bool | JvInt int | JvStr string | JvArr "jv list" | JvObj "(string \<times> jv) list"

datatype tool_content = Json jv | PlainText string | Har jv

record tool_result =
  tr_Content :: tool_content
  tr_IsError :: bool

definition jsonResult :: "jv \<Rightarrow> tool_result" where
  "jsonResult v = \<lparr>tr_Content = Json v, tr_IsError = False\<rparr>"

definition textResult :: "tool_content \<Rightarrow> tool_result" where
  "textResult t = \<lparr>tr_Content = t, tr_IsError = False\<rparr>"

definition errorResult :: "string \<Rightarrow> tool_result" where
  "errorResult msg = \<lparr>tr_Content = PlainText msg, tr_IsError = True\<rparr>"

definition json_get :: "string \<Rightarrow> tool_result \<Rightarrow> jv option" where
  "json_get k r = (case tr_Content r of Json (JvObj ms) \<Rightarrow> map_of ms k | _ \<Rightarrow> None)"

subsection \<open>Helpers\<close>

definition clampLimit :: "int \<Rightarrow> int" where
  "clampLimit limit = (if limit \<le> 0 then 50 else if limit > 200 then 200 else limit)"

definition parseFilter :: "regexp \<Rightarrow> string \<Rightarrow> Filter option" where
  "parseFilter re expr = (if expr = [] then None else adv_iface (Compile re expr))"

record flowSummary =
  fl_ID :: string
  fl_Method :: string
  fl_StatusCode :: int
  fl_Host :: string
  fl_Path :: string
  fl_DurationMS :: int
  fl_SizeBytes :: int
  fl_StartedAt :: string
  fl_State :: string
  fl_ContentType :: string
  fl_Scheme :: string

definition metaToSummary :: "(int \<Rightarrow> string) \<Rightarrow> FlowMeta \<Rightarrow> flowSummary" where
  "metaToSummary fmt m = \<lparr>fl_ID = fm_ID m, fl_Method = fm_Method m, fl_StatusCode = fm_StatusCode m,
     fl_Host = fm_Host m, fl_Path = fm_Path m, fl_DurationMS = Milliseconds (fm_Duration m),
     fl_SizeBytes = fm_SizeBytes m, fl_StartedAt = fmt (fm_StartedAt m),
     fl_State = (case fm_State m of StateInProgress \<Rightarrow> ''in_progress'' | StateFailed \<Rightarrow> ''failed''
       | StateBreakpoint \<Rightarrow> ''breakpoint'' | StateCompleted \<Rightarrow> ''completed''),
     fl_ContentType = fm_ContentType m, fl_Scheme = fm_Scheme m\<rparr>"

definition metasToSummaries :: "(int \<Rightarrow> string) \<Rightarrow> FlowMeta list \<Rightarrow> flowSummary list" where
  "metasToSummaries fmt metas = map (metaToSummary fmt) metas"

definition summary_json :: "flowSummary \<Rightarrow> jv" where
  "summary_json s = JvObj [(''id'', JvStr (fl_ID s)), (''method'', JvStr (fl_Method s)),
     (''status_code'', JvInt (fl_StatusCode s)), (''host'', JvStr (fl_Host s)), (''path'', JvStr (fl_Path s)),
     (''duration_ms'', JvInt (fl_DurationMS s)), (''size_bytes'', JvInt (fl_SizeBytes s)),
     (''started_at'', JvStr (fl_StartedAt s)), (''state'', JvStr (fl_State s)),
     (''content_type'', JvStr (fl_ContentType s)), (''scheme'', JvStr (fl_Scheme s))]"

definition as_map :: "header \<Rightarrow> header option" where
  "as_map h = (if h = [] then None else Some h)"

definition headerMap :: "header option \<Rightarrow> (string \<times> string) list option" where
  "headerMap hm = (case hm of None \<Rightarrow> None
     | Some h \<Rightarrow> Some (map (\<lambda>k. (k, HGet h k)) (header_keys h)))"

definition header_json :: "(string \<times> string) list option \<Rightarrow> jv" where
  "header_json m = (case m of None \<Rightarrow> JvNull | Some kvs \<Rightarrow> JvObj (map (\<lambda>(k, v). (k, JvStr v)) kvs))"

definition encodeBody :: "string \<Rightarrow> nat \<Rightarrow> string" where
  "encodeBody body maxSize =
     (if length body = 0 then []
      else let b = (if length body > maxSize then take maxSize body else body)
           in if Utf8Valid b then b else ''base64:'' @ base64 b)"

definition harHeaders :: "header option \<Rightarrow> jv" where
  "harHeaders hm = (case hm of None \<Rightarrow> JvNull
     | Some h \<Rightarrow> JvArr (map (\<lambda>k. JvObj [(''name'', JvStr k), (''value'', JvStr (HGet h k))]) (header_keys h)))"

definition contentTypeFromHeaders :: "header option \<Rightarrow> string" where
  "contentTypeFromHeaders hm = (case hm of None \<Rightarrow> []
      | Some h \<Rightarrow> let ct = HGet h ''Content-Type''
           in if ct = [] then ''application/octet-stream''
              else (case Index ct '';'' of Some idx \<Rightarrow> if idx > 0 then take idx ct else ct | None \<Rightarrow> ct))"

text \<open>\<open>http.StatusText\<close>.\<close>

definition status_texts :: "(int \<times> string) list" where
  "status_texts = [(100, ''Continue''), (101, ''Switching Protocols''), (102, ''Processing''), (103, ''Early Hints''),
     (200, ''OK''), (201, ''Created''), (202, ''Accepted''), (203, ''Non-Authoritative Information''),
     (204, ''No Content''), (205, ''Reset Content''), (206, ''Partial Content''), (207, ''Multi-Status''),
     (208, ''Already Reported''), (226, ''IM Used''), (300, ''Multiple Choices''), (301, ''Moved Permanently''),
     (302, ''Found''), (303, ''See Other''), (304, ''Not Modified''), (305, ''Use Proxy''),
     (307, ''Temporary Redirect''), (308, ''Permanent Redirect''), (400, ''Bad Request''), (401, ''Unauthorized''),
     (402, ''Payment Required''), (403, ''Forbidden''), (404, ''Not Found''), (405, ''Method Not Allowed''),
     (406, ''Not Acceptable''), (407, ''Proxy Authentication Required''), (408, ''Request Timeout''),
     (409, ''Conflict''), (410, ''Gone''), (411, ''Length Required''), (412, ''Precondition Failed''),
     (413, ''Request Entity Too Large''), (414, ''Request URI Too Long''), (415, ''Unsupported Media Type''),
     (416, ''Requested Range Not Satisfiable''), (417, ''Expectation Failed''), (418, ''I'' @ [CHR 0x27] @ ''m a teapot''),
     (421, ''Misdirected Request''), (422, ''Unprocessable Entity''), (423, ''Locked''), (424, ''Failed Dependency''),
     (425, ''Too Early''), (426, ''Upgrade Required''), (428, ''Precondition Required''), (429, ''Too Many Requests''),
     (431, ''Request Header Fields Too Large''), (451, ''Unavailable For Legal Reasons''),
     (500, ''Internal Server Error''), (501, ''Not Implemented''), (502, ''Bad Gateway''),
     (503, ''Service Unavailable''), (504, ''Gateway Timeout''), (505, ''HTTP Version Not Supported''),
     (506, ''Variant Also Negotiates''), (507, ''Insufficient Storage''), (508, ''Loop Detected''),
     (510, ''Not Extended''), (511, ''Network Authentication Required'')]"

definition StatusText :: "int \<Rightarrow> string" where
  "StatusText code = (case map_of status_texts code of Some t \<Rightarrow> t | None \<Rightarrow> [])"

subsection \<open>HAR of the tool\<close>

definition har_entry :: "(int \<Rightarrow> string) \<Rightarrow> FlowMeta \<Rightarrow> FlowData \<Rightarrow> jv" where
  "har_entry fmt_nano m data =
     JvObj [(''startedDateTime'', JvStr (fmt_nano (fm_StartedAt m))),
       (''time'', JvInt (Milliseconds (fm_Duration m))),
       (''request'', JvObj ([(''method'', JvStr (fm_Method m)),
          (''url'', JvStr (fm_Scheme m @ ''://'' @ fm_Host m @ fm_Path m)),
          (''httpVersion'', JvStr ''HTTP/1.1''), (''headers'', harHeaders (as_map (fd_RequestHeaders data))),
          (''bodySize'', JvInt (int (length (fd_RequestBody data))))] @
          (if length (fd_RequestBody data) > 0
           then [(''postData'', JvObj [(''mimeType'', JvStr (contentTypeFromHeaders (as_map (fd_RequestHeaders data)))),
                  (''text'', JvStr (fd_RequestBody data))])] else []))),
       (''response'', JvObj [(''status'', JvInt (fm_StatusCode m)), (''statusText'', JvStr (StatusText (fm_StatusCode m))),
          (''httpVersion'', JvStr ''HTTP/1.1''), (''headers'', harHeaders (as_map (fd_ResponseHeaders data))),
          (''content'', JvObj [(''size'', JvInt (int (length (fd_ResponseBody data)))),
             (''mimeType'', JvStr (fm_ContentType m)), (''text'', JvStr (encodeBody (fd_ResponseBody data) 100000))]),
          (''bodySize'', JvInt (int (length (fd_ResponseBody data))))]),
       (''timings'', JvObj [(''send'', JvInt 0), (''wait'', JvInt (Milliseconds (fm_Duration m))),
          (''receive'', JvInt 0)])]"

text \<open>The loop of \<open>buildHAR\<close>: a flow that is gone is skipped, a flow without data is a nil dereference.\<close>

fun har_entries :: "(int \<Rightarrow> string) \<Rightarrow> RingBuffer \<Rightarrow> FlowMeta list \<Rightarrow> jv list res" where
  "har_entries fmt_nano rb [] = Inr []"
| "har_entries fmt_nano rb (m # ms) = (case Get (fm_ID m) rb of
       Inl _ \<Rightarrow> har_entries fmt_nano rb ms
     | Inr (_, None) \<Rightarrow> Inl NilDeref
     | Inr (_, Some data) \<Rightarrow> (case har_entries fmt_nano rb ms of Inl p \<Rightarrow> Inl p
         | Inr es \<Rightarrow> Inr (har_entry fmt_nano m data # es)))"

definition buildHAR :: "(int \<Rightarrow> string) \<Rightarrow> RingBuffer \<Rightarrow> FlowMeta list \<Rightarrow> jv res" where
  "buildHAR fmt_nano rb metas = (case har_entries fmt_nano rb metas of Inl p \<Rightarrow> Inl p
     | Inr entries \<Rightarrow> Inr (JvObj [(''log'', JvObj [(''version'', JvStr ''1.2''),
         (''creator'', JvObj [(''name'', JvStr ''httpmon''), (''version'', JvStr ''1.0.0'')]),
         (''entries'', JvArr entries)])]))"

subsection \<open>The tools\<close>

record listRequestsInput =
  li_Filter :: string
  li_Offset :: int
  li_Limit :: int

definition page_json :: "(int \<Rightarrow> string) \<Rightarrow> FlowMeta list \<times> nat \<Rightarrow> tool_result" where
  "page_json fmt p = (case p of (metas, n) \<Rightarrow>
     jsonResult (JvObj [(''items'', JvArr (map summary_json (metasToSummaries fmt metas))),
                        (''total'', JvInt (int n))]))"

definition handleListRequests :: "regexp \<Rightarrow> (int \<Rightarrow> string) \<Rightarrow> listRequestsInput \<Rightarrow> RingBuffer \<Rightarrow> tool_result res" where
  "handleListRequests re fmt inp rb =
     map_sum (\<lambda>p. p) (page_json fmt) (List (parseFilter re (li_Filter inp)) (li_Offset inp) (clampLimit (li_Limit inp)) rb)"

record searchRequestsInput =
  sq_Query :: string
  sq_Offset :: int
  sq_Limit :: int

definition handleSearchRequests :: "(int \<Rightarrow> string) \<Rightarrow> searchRequestsInput \<Rightarrow> RingBuffer \<Rightarrow> tool_result res" where
  "handleSearchRequests fmt inp rb =
     (if sq_Query inp = [] then Inr (errorResult ''query is required'')
      else map_sum (\<lambda>p. p) (page_json fmt)
        (List (quick_iface (CompileQuick (sq_Query inp))) (sq_Offset inp) (clampLimit (sq_Limit inp)) rb))"

definition handleGetRequestCount :: "regexp \<Rightarrow> string \<Rightarrow> RingBuffer \<Rightarrow> tool_result res" where
  "handleGetRequestCount re flt rb =
     map_sum (\<lambda>p. p) (\<lambda>(_, n). jsonResult (JvObj [(''total'', JvInt (int n))]))
       (List (parseFilter re flt) 0 0 rb)"

record exportHARInput =
  ex_Filter :: string
  ex_RequestIDs :: "string list"

definition handleExportHAR :: "regexp \<Rightarrow> (int \<Rightarrow> string) \<Rightarrow> exportHARInput \<Rightarrow> RingBuffer \<Rightarrow> tool_result res" where
  "handleExportHAR re fmt_nano inp rb =
     (case (if length (ex_RequestIDs inp) > 0
            then Inr (concat (map (\<lambda>i. case Get i rb of Inr (m, _) \<Rightarrow> [m] | Inl _ \<Rightarrow> []) (ex_RequestIDs inp)))
            else map_sum (\<lambda>p. p) fst (List (parseFilter re (ex_Filter inp)) 0 0 rb)) of
        Inl p \<Rightarrow> Inl p
      | Inr metas \<Rightarrow> map_sum (\<lambda>p. p) (\<lambda>har. textResult (Har har)) (buildHAR fmt_nano rb metas))"

text \<open>
  \<open>get_request\<close> can write the bodies to files of the temporary directory, a file system of its
  own here.  \<open>os.CreateTemp\<close> is the parameter \<open>temp\<close>: from the parts of the pattern and the
  names in use a new file, or an error; a failing write leaves the file empty.
\<close>

record getRequestInput =
  gr_ID :: string
  gr_MaxBodySize :: int
  gr_Dump :: bool

definition dump_body :: "(string \<Rightarrow> string \<Rightarrow> string list \<Rightarrow> string or_err) \<Rightarrow> string \<Rightarrow> string \<Rightarrow> string \<Rightarrow> string
    \<Rightarrow> fsys \<Rightarrow> (string \<times> jv) list \<times> fsys" where
  "dump_body temp fid infix_part k body fs =
     (if length body > 0
      then (case temp (fid @ infix_part) ''.bin'' (map fst (fs_files fs)) of Inl _ \<Rightarrow> ([], fs)
        | Inr path \<Rightarrow> ([(k, JvStr path)],
            snd (WriteFile path body (fs\<lparr>fs_files := AList.update path [] (fs_files fs)\<rparr>))))
      else ([], fs))"

definition handleGetRequest :: "(int \<Rightarrow> string) \<Rightarrow> (string \<Rightarrow> string \<Rightarrow> string list \<Rightarrow> string or_err)
    \<Rightarrow> getRequestInput \<Rightarrow> RingBuffer \<Rightarrow> fsys \<Rightarrow> tool_result \<times> fsys" where
  "handleGetRequest fmt temp inp rb fs =
     (if gr_ID inp = [] then (errorResult ''id is required'', fs)
      else let maxBody = (if gr_MaxBodySize inp \<le> 0 then 50000 else nat (gr_MaxBodySize inp))
        in case Get (gr_ID inp) rb of
             Inl _ \<Rightarrow> (errorResult (''flow not found: '' @ gr_ID inp), fs)
           | Inr (meta, None) \<Rightarrow> (jsonResult (JvObj [(''meta'', summary_json (metaToSummary fmt meta))]), fs)
           | Inr (meta, Some d) \<Rightarrow>
              (let (bodies, fs1) =
                 (if gr_Dump inp
                  then (let (a, fs1) = dump_body temp (gr_ID inp) ''-req-'' ''request_body_path'' (fd_RequestBody d) fs;
                            (b, fs2) = dump_body temp (gr_ID inp) ''-resp-'' ''response_body_path'' (fd_ResponseBody d) fs1
                        in (a @ b, fs2))
                  else ([(''request_body'', JvStr (encodeBody (fd_RequestBody d) maxBody)),
                         (''response_body'', JvStr (encodeBody (fd_ResponseBody d) maxBody))], fs))
               in (jsonResult (JvObj ([(''meta'', summary_json (metaToSummary fmt meta)),
                     (''request_headers'', header_json (headerMap (as_map (fd_RequestHeaders d)))),
                     (''response_headers'', header_json (headerMap (as_map (fd_ResponseHeaders d))))] @ bodies)), fs1)))"

subsection \<open>Properties\<close>

interpretation tool: list_filter "parseFilter re" "\<lambda>t. TrimSpace t \<noteq> [] \<or> t = []" "\<lambda>t m. t = [] \<or> expr_accepts re t m" for re
proof unfold_locales
  show "run_filter (parseFilter re t) m = Inr (t = [] \<or> expr_accepts re t m)" if "TrimSpace t \<noteq> [] \<or> t = []" for t m
    using that adv.runs [of t re m] by (cases "t = []") (auto simp: parseFilter_def run_filter_def)
qed

text \<open>A request listing with a filter that is absent or not blank, and an offset that is not
  negative, answers with at most 200 flows: the window of the matching flows, newest first, with
  the number of all matches; a negative offset panics.\<close>

theorem list_requests_window:
  assumes "TrimSpace (li_Filter inp) \<noteq> [] \<or> li_Filter inp = []"
  shows "handleListRequests re fmt inp rb =
     (let ms = filter (\<lambda>m. li_Filter inp = [] \<or> expr_accepts re (li_Filter inp) m) (rev (flows rb))
      in if li_Offset inp < 0 then Inl SliceBounds
         else Inr (page_json fmt (take (nat (clampLimit (li_Limit inp))) (drop (nat (li_Offset inp)) ms), length ms)))
    \<and> 1 \<le> clampLimit (li_Limit inp) \<and> clampLimit (li_Limit inp) \<le> 200"
proof -
  let ?g = "\<lambda>m. li_Filter inp = [] \<or> expr_accepts re (li_Filter inp) m"
  have c: "1 \<le> clampLimit (li_Limit inp)" "clampLimit (li_Limit inp) \<le> 200"
    by (simp_all add: clampLimit_def)
  have len: "length (filter ?g (rev (flows rb))) = length (filter ?g (flows rb))"
    by (metis length_rev rev_filter)
  show ?thesis
  proof (cases "li_Offset inp < 0")
    case True
    with tool.list_negative [OF assms True] c show ?thesis by (simp add: handleListRequests_def)
  next
    case False
    then have "List (parseFilter re (li_Filter inp)) (li_Offset inp) (clampLimit (li_Limit inp)) rb =
      Inr (page (li_Offset inp) (clampLimit (li_Limit inp)) (filter ?g (rev (flows rb))), length (filter ?g (flows rb)))"
      using tool.list_window [OF assms] by simp
    with False c len show ?thesis by (simp add: handleListRequests_def page_def Let_def)
  qed
qed

theorem list_requests_window_witness:
  "handleListRequests (\<lambda>_. None) fmt \<lparr>li_Filter = [], li_Offset = -1, li_Limit = 0\<rparr> buf1 = Inl SliceBounds"
  using list_requests_window [of "\<lparr>li_Filter = [], li_Offset = -1, li_Limit = 0\<rparr>" "\<lambda>_. None" fmt buf1]
  by (simp add: Let_def)

lemma har_entries_cases:
  "har_entries f rb ms =
     (if \<exists>m \<in> set ms. \<exists>m'. Get (fm_ID m) rb = Inr (m', None) then Inl NilDeref
      else Inr (concat (map (\<lambda>m. case Get (fm_ID m) rb of Inr (_, Some d) \<Rightarrow> [har_entry f m d] | _ \<Rightarrow> []) ms)))"
  by (induction ms) (auto split: sum.split option.split)

text \<open>Exporting all flows panics as soon as one of the flows in the store has no data yet, and
  otherwise gives one entry per flow, newest first, filled from that flow's own data.\<close>

theorem export_har_needs_data:
  assumes "rb_inv rb"
  shows "handleExportHAR re f \<lparr>ex_Filter = [], ex_RequestIDs = []\<rparr> rb =
    (if \<exists>e \<in> set (abs_rb rb). snd e = None then Inl NilDeref
     else Inr (textResult (Har (JvObj [(''log'', JvObj [(''version'', JvStr ''1.2''),
         (''creator'', JvObj [(''name'', JvStr ''httpmon''), (''version'', JvStr ''1.0.0'')]),
         (''entries'', JvArr (map (\<lambda>(m, d). har_entry f m (the d)) (rev (abs_rb rb))))])]))))"
proof -
  have g: "Get (fm_ID m) rb = Inr (m, rb_data rb (fm_ID m))" if "m \<in> set (flows rb)" for m
    using that assms by (subst rb.get_Inr_iff) (auto simp: abs_rb_def)
  have l: "List None 0 0 rb = Inr (rev (flows rb), length (flows rb))"
    using List_refines [of rb None "\<lambda>_. True" 0 0] by (simp add: run_filter_def page_def)
  have ex: "(\<exists>m \<in> set (rev (flows rb)). \<exists>m'. Get (fm_ID m) rb = Inr (m', None)) \<longleftrightarrow>
    (\<exists>e \<in> set (abs_rb rb). snd e = None)"
    using g by (auto simp: abs_rb_def)
  have "concat (map (\<lambda>m. case Get (fm_ID m) rb of Inr (_, Some d) \<Rightarrow> [har_entry f m d] | _ \<Rightarrow> []) ms) =
      map (\<lambda>m. har_entry f m (the (rb_data rb (fm_ID m)))) ms"
    if "set ms \<subseteq> set (flows rb)" "\<forall>m \<in> set ms. rb_data rb (fm_ID m) \<noteq> None" for ms
    using that by (induction ms) (auto simp: g)
  from this [of "rev (flows rb)"] have cc: "\<not> (\<exists>e \<in> set (abs_rb rb). snd e = None) \<Longrightarrow>
      concat (map (\<lambda>m. case Get (fm_ID m) rb of Inr (_, Some d) \<Rightarrow> [har_entry f m d] | _ \<Rightarrow> []) (rev (flows rb))) =
      map (\<lambda>(m, d). har_entry f m (the d)) (rev (abs_rb rb))"
    by (auto simp: abs_rb_def rev_map)
  show ?thesis
    using cc by (simp add: handleExportHAR_def parseFilter_def l buildHAR_def har_entries_cases ex del: set_rev)
qed

theorem export_har_needs_data_witness:
  "handleExportHAR (\<lambda>_. None) f \<lparr>ex_Filter = [], ex_RequestIDs = []\<rparr> buf1 = Inl NilDeref"
  using export_har_needs_data [OF buf1_inv, of "\<lambda>_. None" f] by (simp add: buf1_abs)

lemma Utf8Valid_Nil: "Utf8Valid []"
  by (subst Utf8Valid.simps) simp

text \<open>A body in a tool result is at most the size asked for when it is shown as text, and it is
  shown as text exactly when the part that is kept is valid UTF-8: a text that is cut inside a
  character is shown as base64.\<close>

theorem encode_body_cut:
  "(Utf8Valid (take n b) \<longrightarrow> encodeBody b n = take n b \<and> length (encodeBody b n) \<le> n) \<and>
   (\<not> Utf8Valid (take n b) \<longrightarrow> encodeBody b n = ''base64:'' @ base64 (take n b)) \<and>
   encodeBody (''a'' @ rune_error) 2 = ''base64:Ye8=''"
proof -
  have "encodeBody b n = (if Utf8Valid (take n b) then take n b else ''base64:'' @ base64 (take n b))"
    by (simp add: encodeBody_def Let_def Utf8Valid_Nil)
  moreover have "encodeBody (''a'' @ rune_error) 2 = ''base64:Ye8=''"
    unfolding rune_error_def by code_simp
  ultimately show ?thesis by auto
qed

theorem encode_body_cut_witness:
  "encodeBody ''abc'' 2 = ''ab''"
proof -
  have "Utf8Valid (take 2 ''abc'')" by code_simp
  with encode_body_cut [of 2 "''abc''"] show ?thesis by simp
qed

end
