(* ===== verification/Mcp_Server.thy ===== *)
theory Mcp_Server
  imports Mcp_Read Interceptor
begin

section \<open>The MCP server and its other tools (internal/mcpserver)\<close>

text \<open>
  The server's life cycle and token check (server.go, auth.go), the script tools
  (tools_script.go) and the simulation tools (tools_sim.go).  The state of a tool call is
  \<open>mcp_cfg\<close>: the store, the throttle port, the script manager with its disk, and the
  temporary directory.  Outside the model, in \<open>mcp_env\<close>: the regular expressions, the time
  formats, the JavaScript interpreter, os.CreateTemp, net/http's client and unicode.IsPrint.
\<close>

record wire_request =
  wr_Method :: string
  wr_URL :: string
  wr_Header :: header
  wr_Body :: string

record mcp_env =
  en_re :: regexp
  en_fmt :: "int \<Rightarrow> string"
  en_nano :: "int \<Rightarrow> string"
  en_goja :: goja
  en_temp :: "string \<Rightarrow> string \<Rightarrow> string \<Rightarrow> string list \<Rightarrow> string or_err"
  en_newreq :: "string \<Rightarrow> string \<Rightarrow> string option"
  en_do :: "string \<Rightarrow> wire_request \<Rightarrow> int or_err"
  en_print :: "string \<Rightarrow> bool"

record mcp_cfg =
  mc_Store :: RingBuffer
  mc_Proxy :: "string option"
  mc_Scripts :: "Manager option"
  mc_Throttle :: "proxy option"
  mc_tmp :: fsys

subsection \<open>Server and token\<close>

record Server =
  sv_addr :: string
  sv_token :: string
  sv_running :: bool
  sv_tools :: "string list"

definition New_Server :: "string \<Rightarrow> string \<Rightarrow> Server" where
  "New_Server addr token = \<lparr>sv_addr = (if addr = [] then ''127.0.0.1:9551'' else addr), sv_token = token,
     sv_running = False, sv_tools = []\<rparr>"

definition read_tools :: "string list" where
  "read_tools = [''list_requests'', ''get_request'', ''search_requests'', ''get_request_count'', ''export_har'']"

definition sim_tools :: "string list" where
  "sim_tools = [''set_throttle'', ''get_throttle'', ''replay_request'', ''mock_response'']"

definition script_tools :: "string list" where
  "script_tools = [''list_scripts'', ''create_script'', ''get_script'', ''toggle_script'', ''delete_script'']"

definition registerTools :: "mcp_cfg \<Rightarrow> string list" where
  "registerTools cfg = read_tools @
     (if mc_Throttle cfg \<noteq> None \<or> mc_Proxy cfg \<noteq> None then sim_tools else []) @
     (if mc_Scripts cfg \<noteq> None then script_tools else [])"

text \<open>\<open>listen\<close> gives the bound address or an error.\<close>

definition Start :: "(string \<Rightarrow> string or_err) \<Rightarrow> mcp_cfg \<Rightarrow> Server \<Rightarrow> string option \<times> Server" where
  "Start listen cfg s =
     (if sv_running s then (Some ''mcp server already running'', s)
      else (case listen (sv_addr s) of
          Inl e \<Rightarrow> (Some (''listen '' @ sv_addr s @ '': '' @ e), s)
        | Inr a \<Rightarrow> (None, s\<lparr>sv_addr := a, sv_running := True, sv_tools := registerTools cfg\<rparr>)))"

definition Stop :: "Server \<Rightarrow> Server" where
  "Stop s = (if \<not> sv_running s then s else s\<lparr>sv_running := False\<rparr>)"

definition Port :: "Server \<Rightarrow> int" where
  "Port s = (case split_port (sv_addr s) of None \<Rightarrow> 0
     | Some p \<Rightarrow> (case Atoi p of None \<Rightarrow> 0 | Some n \<Rightarrow> n))"

definition bearerAuthMiddleware :: "string \<Rightarrow> (header \<Rightarrow> int + 'a) \<Rightarrow> header \<Rightarrow> int + 'a" where
  "bearerAuthMiddleware token nxt h =
     (if token = [] then nxt h
      else if HGet h ''Authorization'' \<noteq> ''Bearer '' @ token then Inl 401 else nxt h)"

definition mcp_LoadOrCreateToken :: "string \<Rightarrow> fsys \<Rightarrow> string or_err \<times> fsys" where
  "mcp_LoadOrCreateToken dataDir fs =
     (let path = path_join dataDir ''mcp-token'';
          old = (case ReadFile path fs of Inr data \<Rightarrow> TrimSpace data | Inl _ \<Rightarrow> [])
      in if old \<noteq> [] then (Inr old, fs)
         else let tok = hex_encode (take 32 (fs_random fs (fs_drawn fs)));
                  fs1 = fs\<lparr>fs_drawn := fs_drawn fs + 1\<rparr>
              in case EnsureScriptDir dataDir fs1 of
                   (Some e, fs2) \<Rightarrow> (Inl (''create data dir: '' @ e), fs2)
                 | (None, fs2) \<Rightarrow> (case WriteFile path (tok @ [nl]) fs2 of
                     (Some e, fs3) \<Rightarrow> (Inl (''write token: '' @ e), fs3) | (None, fs3) \<Rightarrow> (Inr tok, fs3)))"

subsection \<open>Script tools\<close>

definition category_text :: "ScriptCategory \<Rightarrow> string" where
  "category_text c = (case c of CategoryScript \<Rightarrow> ''Script'' | CategoryMapLocal \<Rightarrow> ''Map Local''
     | CategoryBreakpoint \<Rightarrow> ''Breakpoint'')"

definition infoToSummary :: "ScriptInfo \<Rightarrow> jv" where
  "infoToSummary info =
     (let cats = map category_text (si_Categories info);
          primary = (case cats of [] \<Rightarrow> ''script'' | c # _ \<Rightarrow> ToLower c)
      in JvObj ([(''name'', JvStr (si_Name info)), (''script_id'', JvStr (si_ID info)),
           (''match_patterns'', if si_Matches info = [] then JvNull else JvArr (map JvStr (si_Matches info))), (''enabled'', JvBool (si_Enabled info)),
           (''category'', JvStr primary)] @
          (if cats = [] then [] else [(''categories'', JvArr (map JvStr cats))])))"

definition scriptIDByPath :: "goja \<Rightarrow> string \<Rightarrow> Manager \<Rightarrow> string \<times> Manager" where
  "scriptIDByPath gj path m = (case m_Scripts gj m of (infos, m1) \<Rightarrow>
     (case find (\<lambda>info. si_FilePath info = path) infos of Some info \<Rightarrow> si_ID info | None \<Rightarrow> [], m1))"

definition writeScriptFile :: "(string \<Rightarrow> string \<Rightarrow> string \<Rightarrow> string list \<Rightarrow> string or_err) \<Rightarrow> string \<Rightarrow> string
    \<Rightarrow> string \<Rightarrow> fsys \<Rightarrow> string or_err \<times> fsys" where
  "writeScriptFile temp dir pre content fs =
     (case EnsureScriptDir dir fs of (Some e, fs1) \<Rightarrow> (Inl e, fs1)
      | (None, fs1) \<Rightarrow>
         (case temp dir pre ''.js'' (map fst (fs_files fs1)) of Inl e \<Rightarrow> (Inl e, fs1)
          | Inr path \<Rightarrow>
             (case WriteFile path content (fs1\<lparr>fs_files := AList.update path [] (fs_files fs1)\<rparr>) of
                (Some e, fs2) \<Rightarrow> (Inl e, fs2) | (None, fs2) \<Rightarrow> (Inr path, fs2))))"

record createScriptInput =
  cs_Name :: string
  cs_MatchPatterns :: "string list"
  cs_Code :: string
  cs_Enabled :: bool

definition quoted :: "string \<Rightarrow> string" where
  "quoted s = [CHR 0x22] @ s @ [CHR 0x22]"

definition script_content :: "createScriptInput \<Rightarrow> string" where
  "script_content inp = Join ([''// ---'', ''// name: '' @ cs_Name inp, ''// match:''] @
     map (\<lambda>p. ''//   - '' @ quoted p) (cs_MatchPatterns inp) @
     [''// enabled: '' @ show_bool (cs_Enabled inp), ''// ---'', [], cs_Code inp, []]) [nl]"

text \<open>The tools that write a script: the file, the reload, and the id the reload gave it.\<close>

definition add_script :: "mcp_env \<Rightarrow> string \<Rightarrow> string \<Rightarrow> string \<Rightarrow> Manager \<Rightarrow> tool_result \<times> Manager" where
  "add_script env what pre content m =
     (case writeScriptFile (en_temp env) (m_dir m) pre content (m_fs m) of
        (Inl e, fs) \<Rightarrow> (errorResult (what @ '': '' @ e), m\<lparr>m_fs := fs\<rparr>)
      | (Inr path, fs) \<Rightarrow>
         (case scriptIDByPath (en_goja env) path (m_Reload (en_goja env) (m\<lparr>m_fs := fs\<rparr>)) of
            (sid, m1) \<Rightarrow> (jsonResult (JvObj [(''script_id'', JvStr sid)]), m1)))"

definition with_scripts :: "mcp_cfg \<Rightarrow> (Manager \<Rightarrow> tool_result \<times> Manager) \<Rightarrow> tool_result \<times> mcp_cfg" where
  "with_scripts cfg f = (case mc_Scripts cfg of None \<Rightarrow> (errorResult ''scripts not available'', cfg)
     | Some m \<Rightarrow> (case f m of (r, m1) \<Rightarrow> (r, cfg\<lparr>mc_Scripts := Some m1\<rparr>)))"

definition handleListScripts :: "mcp_env \<Rightarrow> mcp_cfg \<Rightarrow> tool_result \<times> mcp_cfg" where
  "handleListScripts env cfg = with_scripts cfg (\<lambda>m.
     case m_Scripts (en_goja env) m of (infos, m1) \<Rightarrow> (jsonResult (JvArr (map infoToSummary infos)), m1))"

definition handleCreateScript :: "mcp_env \<Rightarrow> createScriptInput \<Rightarrow> mcp_cfg \<Rightarrow> tool_result \<times> mcp_cfg" where
  "handleCreateScript env inp cfg = with_scripts cfg (\<lambda>m.
     if cs_Name inp = [] then (errorResult ''name is required'', m)
     else if length (cs_MatchPatterns inp) = 0 then (errorResult ''match_patterns is required'', m)
     else if cs_Code inp = [] then (errorResult ''code is required'', m)
     else add_script env ''create script'' ''script-'' (script_content inp) m)"

definition with_script_id :: "mcp_env \<Rightarrow> string \<Rightarrow> Manager \<Rightarrow> (ScriptInfo \<Rightarrow> Manager \<Rightarrow> tool_result \<times> Manager)
    \<Rightarrow> tool_result \<times> Manager" where
  "with_script_id env sid m f =
     (if sid = [] then (errorResult ''script_id is required'', m)
      else (case m_ScriptByID (en_goja env) sid m of
          (None, m1) \<Rightarrow> (errorResult ''script not found'', m1) | (Some info, m1) \<Rightarrow> f info m1))"

definition script_source_json :: "mcp_env \<Rightarrow> string \<Rightarrow> tool_result" where
  "script_source_json env source = (case ParseHeader (gj_yaml (en_goja env)) source of
       Inl e \<Rightarrow> errorResult (''parse: '' @ e)
     | Inr (meta, body) \<Rightarrow> jsonResult (JvObj [(''name'', JvStr (sm_Name meta)),
         (''match_patterns'', JvArr (map JvStr (sm_Match meta))), (''enabled'', JvBool (IsEnabled meta)),
         (''categories'', JvArr (map (\<lambda>c. JvStr (category_text c)) (DetectCategories body))),
         (''source'', JvStr body)]))"

text \<open>\<open>get_script\<close> has no check for a missing manager: with an id it dereferences nil.\<close>

definition handleGetScript :: "mcp_env \<Rightarrow> string \<Rightarrow> mcp_cfg \<Rightarrow> (tool_result \<times> mcp_cfg) res" where
  "handleGetScript env sid cfg =
     (if sid = [] then Inr (errorResult ''script_id is required'', cfg)
      else (case mc_Scripts cfg of None \<Rightarrow> Inl NilDeref
        | Some _ \<Rightarrow> Inr (with_scripts cfg (\<lambda>m. with_script_id env sid m (\<lambda>info m1.
            (case ReadFile (si_FilePath info) (m_fs m1) of Inl e \<Rightarrow> errorResult (''read: '' @ e)
              | Inr source \<Rightarrow> script_source_json env source, m1))))))"

definition handleToggleScript :: "mcp_env \<Rightarrow> string \<Rightarrow> mcp_cfg \<Rightarrow> tool_result \<times> mcp_cfg" where
  "handleToggleScript env sid cfg = with_scripts cfg (\<lambda>m. with_script_id env sid m (\<lambda>info m1.
     case m_Toggle (en_goja env) (si_FilePath info) m1 of
       (Some e, m2) \<Rightarrow> (errorResult (''toggle: '' @ e), m2)
     | (None, m2) \<Rightarrow>
        (case ReadFile (si_FilePath info) (m_fs m2) of
           Inl _ \<Rightarrow> jsonResult (JvObj [(''toggled'', JvBool True)])
         | Inr data \<Rightarrow> jsonResult (JvObj [(''enabled'', JvBool
             (case ParseHeader (gj_yaml (en_goja env)) data of Inr (meta, _) \<Rightarrow> IsEnabled meta | Inl _ \<Rightarrow> True))]), m2)))"

definition handleDeleteScript :: "mcp_env \<Rightarrow> string \<Rightarrow> mcp_cfg \<Rightarrow> tool_result \<times> mcp_cfg" where
  "handleDeleteScript env sid cfg = with_scripts cfg (\<lambda>m. with_script_id env sid m (\<lambda>info m1.
     case m_Delete (en_goja env) (si_FilePath info) m1 of
       (Some e, m2) \<Rightarrow> (errorResult (''delete: '' @ e), m2)
     | (None, m2) \<Rightarrow> (jsonResult (JvObj [(''deleted'', JvBool True)]), m2)))"

subsection \<open>Simulation tools\<close>

text \<open>Products of durations wrap at 64 bits.\<close>

definition wrap64 :: "int \<Rightarrow> int" where
  "wrap64 x = (x + 2 ^ 63) mod 2 ^ 64 - 2 ^ 63"

record setThrottleInput =
  st_BPS :: int
  st_LatencyMS :: int
  st_Preset :: string

text \<open>
  \<open>strconv.Quote\<close> (the verb %q): rune by rune, an invalid byte and a control character as a hex
  escape, a character beyond ASCII as it is when \<open>is_print\<close> says so, else as a code point.
\<close>

definition rune_val :: "string \<Rightarrow> nat" where
  "rune_val r = (case map byte r of [a] \<Rightarrow> a | [a, b] \<Rightarrow> a mod 32 * 64 + b mod 64
     | [a, b, c] \<Rightarrow> a mod 16 * 4096 + b mod 64 * 64 + c mod 64
     | [a, b, c, d] \<Rightarrow> a mod 8 * 262144 + b mod 64 * 4096 + c mod 64 * 64 + d mod 64 | _ \<Rightarrow> 0)"

definition hex_num :: "nat \<Rightarrow> nat \<Rightarrow> string" where
  "hex_num width n = map (\<lambda>i. hex_digit (n div 16 ^ (width - 1 - i) mod 16)) [0..<width]"

definition quote_char :: "char \<Rightarrow> string" where
  "quote_char c = (let b = byte c; bs = CHR 0x5C in
     if b = 34 \<or> b = 92 then [bs, c]
     else if b = 7 then [bs, CHR ''a''] else if b = 8 then [bs, CHR ''b''] else if b = 12 then [bs, CHR ''f'']
     else if b = 10 then [bs, CHR ''n''] else if b = 13 then [bs, CHR ''r''] else if b = 9 then [bs, CHR ''t'']
     else if b = 11 then [bs, CHR ''v'']
     else if b < 32 \<or> 127 \<le> b then [bs, CHR ''x''] @ hex_num 2 b else [c])"

function quote_runes :: "(string \<Rightarrow> bool) \<Rightarrow> string \<Rightarrow> string" where
  "quote_runes is_print s = (case s of [] \<Rightarrow> [] | c # t \<Rightarrow>
     (let n = utf8_len s in
      if n \<le> 1 then quote_char c @ quote_runes is_print t
      else (let r = take n s in
        (if is_print r then r
         else if rune_val r < 65536 then [CHR 0x5C, CHR ''u''] @ hex_num 4 (rune_val r)
         else [CHR 0x5C, CHR ''U''] @ hex_num 8 (rune_val r)) @ quote_runes is_print (drop n s))))"
  by pat_completeness auto
termination
  by (relation "measure (\<lambda>(p, s). length s)") auto

declare quote_runes.simps [simp del]

definition Quote :: "(string \<Rightarrow> bool) \<Rightarrow> string \<Rightarrow> string" where
  "Quote is_print s = quoted (quote_runes is_print s)"

definition handleSetThrottle :: "mcp_env \<Rightarrow> setThrottleInput \<Rightarrow> mcp_cfg \<Rightarrow> tool_result \<times> mcp_cfg" where
  "handleSetThrottle env inp cfg = (case mc_Throttle cfg of
       None \<Rightarrow> (errorResult ''throttle not available'', cfg)
     | Some p \<Rightarrow>
        if st_Preset inp \<noteq> [] \<and> PresetBandwidth (st_Preset inp) = 0
        then (errorResult (''unknown preset: '' @ Quote (en_print env) (st_Preset inp)), cfg)
        else let bps = (if st_Preset inp \<noteq> [] then PresetBandwidth (st_Preset inp) else st_BPS inp);
                 latency = wrap64 (st_LatencyMS inp * 1000000)
             in (jsonResult (JvObj [(''bps'', JvInt bps), (''latency_ms'', JvInt (st_LatencyMS inp))]),
                 cfg\<lparr>mc_Throttle := Some (p_SetThrottle bps latency p)\<rparr>))"

definition handleGetThrottle :: "mcp_cfg \<Rightarrow> tool_result" where
  "handleGetThrottle cfg = (case mc_Throttle cfg of None \<Rightarrow> errorResult ''throttle not available''
     | Some p \<Rightarrow> (let bps = GetThrottleBPS p; latency = GetThrottleLatency p
         in jsonResult (JvObj [(''bps'', JvInt bps), (''latency_ms'', JvInt (Milliseconds latency)),
              (''active'', JvBool (bps > 0 \<or> latency > 0))])))"

record replayRequestInput =
  ri_RequestID :: string
  ri_Method :: string
  ri_URL :: string
  ri_Headers :: "(string \<times> string) list"
  ri_Body :: string

text \<open>What to send: the recorded request, or the composed one.\<close>

definition replay_parts :: "replayRequestInput \<Rightarrow> RingBuffer \<Rightarrow> string + string \<times> string \<times> (string \<times> string) list \<times> string" where
  "replay_parts inp rb =
     (if ri_RequestID inp \<noteq> []
      then (case Get (ri_RequestID inp) rb of
          Inl _ \<Rightarrow> Inl (''request not found: '' @ ri_RequestID inp)
        | Inr (meta, data) \<Rightarrow> Inr (fm_Method meta, fm_Scheme meta @ ''://'' @ fm_Host meta @ fm_Path meta,
            case data of None \<Rightarrow> ([], []) | Some d \<Rightarrow>
              (case headerMap (as_map (fd_RequestHeaders d)) of None \<Rightarrow> [] | Some hs \<Rightarrow> hs, fd_RequestBody d)))
      else if ri_URL inp \<noteq> []
      then Inr (if ri_Method inp = [] then ''GET'' else ri_Method inp, ri_URL inp, ri_Headers inp, ri_Body inp)
      else Inl ''either request_id or url is required'')"

definition handleReplayRequest :: "mcp_env \<Rightarrow> replayRequestInput \<Rightarrow> mcp_cfg \<Rightarrow> tool_result res \<times> wire_request option" where
  "handleReplayRequest env inp cfg = (case replay_parts inp (mc_Store cfg) of
       Inl e \<Rightarrow> (Inr (errorResult e), None)
     | Inr (mth, url, headers, body) \<Rightarrow>
        (case mc_Proxy cfg of None \<Rightarrow> (Inl NilDeref, None)
         | Some addr \<Rightarrow>
            (case en_newreq env mth url of Some e \<Rightarrow> (Inr (errorResult (''build request: '' @ e)), None)
             | None \<Rightarrow>
                (let req = \<lparr>wr_Method = mth, wr_URL = url, wr_Header = set_all headers, wr_Body = body\<rparr>
                 in (case en_do env addr req of
                       Inl e \<Rightarrow> Inr (errorResult (''send request: '' @ e))
                     | Inr status \<Rightarrow> Inr (jsonResult (JvObj [(''status_code'', JvInt status)])), Some req)))))"

record mockResponseInput =
  mr_MatchPattern :: string
  mr_Status :: int
  mr_Headers :: "(string \<times> string) list"
  mr_Body :: string

definition slugify :: "string \<Rightarrow> string" where
  "slugify s = (let out = TrimByte CHR ''-'' (Replace slug_pairs s);
                    out1 = (if length out > 30 then take 30 out else out)
                in if out1 = [] then ''rule'' else out1)"

definition mock_source :: "(string \<Rightarrow> string) \<Rightarrow> mockResponseInput \<Rightarrow> string" where
  "mock_source quote inp =
     (let status = (if mr_Status inp = 0 then 200 else mr_Status inp);
          headersJS = (if length (mr_Headers inp) > 0
            then '','' @ [nl] @ ''  headers: {'' @ [nl] @
              Join (map (\<lambda>(k, v). ''    '' @ quote k @ '': '' @ quote v) (mr_Headers inp)) ('','' @ [nl]) @
              [nl] @ ''  }'' else []);
          bodyJS = (if mr_Body inp \<noteq> [] then '','' @ [nl] @ ''  body: '' @ quote (mr_Body inp) else [])
      in Join [''function onRequest(ctx) {'', ''  ctx.respondWith({'',
           ''    status: '' @ Itoa status @ headersJS @ bodyJS, ''  });'', ''}'', []] [nl])"

definition mock_content :: "string \<Rightarrow> string \<Rightarrow> string" where
  "mock_content pattern src = Join [''// ---'', ''// name: mock-'' @ slugify pattern, ''// match:'',
     ''//   - '' @ quoted pattern, ''// enabled: true'', ''// ---'', [], src] [nl]"

definition handleMockResponse :: "mcp_env \<Rightarrow> mockResponseInput \<Rightarrow> mcp_cfg \<Rightarrow> tool_result \<times> mcp_cfg" where
  "handleMockResponse env inp cfg = with_scripts cfg (\<lambda>m.
     if mr_MatchPattern inp = [] then (errorResult ''match_pattern is required'', m)
     else add_script env ''create mock'' ''mock-'' (mock_content (mr_MatchPattern inp) (mock_source (Quote (en_print env)) inp)) m)"

subsection \<open>A call\<close>

datatype tool_call =
  CallListRequests listRequestsInput | CallGetRequest getRequestInput | CallSearchRequests searchRequestsInput
| CallGetRequestCount string | CallExportHAR exportHARInput
| CallSetThrottle setThrottleInput | CallGetThrottle | CallReplayRequest replayRequestInput
| CallMockResponse mockResponseInput
| CallListScripts | CallCreateScript createScriptInput | CallGetScript string | CallToggleScript string
| CallDeleteScript string

primrec tool_name :: "tool_call \<Rightarrow> string" where
  "tool_name (CallListRequests i) = ''list_requests''"
| "tool_name (CallGetRequest i) = ''get_request''"
| "tool_name (CallSearchRequests i) = ''search_requests''"
| "tool_name (CallGetRequestCount i) = ''get_request_count''"
| "tool_name (CallExportHAR i) = ''export_har''"
| "tool_name (CallSetThrottle i) = ''set_throttle''"
| "tool_name CallGetThrottle = ''get_throttle''"
| "tool_name (CallReplayRequest i) = ''replay_request''"
| "tool_name (CallMockResponse i) = ''mock_response''"
| "tool_name CallListScripts = ''list_scripts''"
| "tool_name (CallCreateScript i) = ''create_script''"
| "tool_name (CallGetScript i) = ''get_script''"
| "tool_name (CallToggleScript i) = ''toggle_script''"
| "tool_name (CallDeleteScript i) = ''delete_script''"

definition reading :: "mcp_cfg \<Rightarrow> tool_result res \<Rightarrow> (tool_result \<times> mcp_cfg) res" where
  "reading cfg r = map_sum (\<lambda>p. p) (\<lambda>t. (t, cfg)) r"

primrec run_tool :: "mcp_env \<Rightarrow> tool_call \<Rightarrow> mcp_cfg \<Rightarrow> (tool_result \<times> mcp_cfg) res" where
  "run_tool env (CallListRequests i) cfg = reading cfg (handleListRequests (en_re env) (en_fmt env) i (mc_Store cfg))"
| "run_tool env (CallGetRequest i) cfg =
     (case handleGetRequest (en_fmt env) (en_temp env []) i (mc_Store cfg) (mc_tmp cfg) of
        (t, fs) \<Rightarrow> Inr (t, cfg\<lparr>mc_tmp := fs\<rparr>))"
| "run_tool env (CallSearchRequests i) cfg = reading cfg (handleSearchRequests (en_fmt env) i (mc_Store cfg))"
| "run_tool env (CallGetRequestCount i) cfg = reading cfg (handleGetRequestCount (en_re env) i (mc_Store cfg))"
| "run_tool env (CallExportHAR i) cfg = reading cfg (handleExportHAR (en_re env) (en_nano env) i (mc_Store cfg))"
| "run_tool env (CallSetThrottle i) cfg = Inr (handleSetThrottle env i cfg)"
| "run_tool env CallGetThrottle cfg = Inr (handleGetThrottle cfg, cfg)"
| "run_tool env (CallReplayRequest i) cfg = reading cfg (fst (handleReplayRequest env i cfg))"
| "run_tool env (CallMockResponse i) cfg = Inr (handleMockResponse env i cfg)"
| "run_tool env CallListScripts cfg = Inr (handleListScripts env cfg)"
| "run_tool env (CallCreateScript i) cfg = Inr (handleCreateScript env i cfg)"
| "run_tool env (CallGetScript i) cfg = handleGetScript env i cfg"
| "run_tool env (CallToggleScript i) cfg = Inr (handleToggleScript env i cfg)"
| "run_tool env (CallDeleteScript i) cfg = Inr (handleDeleteScript env i cfg)"

text \<open>One HTTP request to the server: refused when it does not run, 401 without the token.\<close>

datatype mcp_reply = Refused | Unauthorized int | UnknownTool | ToolPanic go_panic | ToolReply tool_result

definition serve :: "mcp_env \<Rightarrow> Server \<Rightarrow> header \<Rightarrow> tool_call \<Rightarrow> mcp_cfg \<Rightarrow> mcp_reply \<times> mcp_cfg" where
  "serve env s h call cfg =
     (if \<not> sv_running s then (Refused, cfg)
      else (case bearerAuthMiddleware (sv_token s) (\<lambda>_. Inr (
               if tool_name call \<notin> set (sv_tools s) then (UnknownTool, cfg)
               else (case run_tool env call cfg of Inl p \<Rightarrow> (ToolPanic p, cfg)
                 | Inr (t, cfg1) \<Rightarrow> (ToolReply t, cfg1)))) h of
            Inl code \<Rightarrow> (Unauthorized code, cfg) | Inr r \<Rightarrow> r))"

subsection \<open>Properties\<close>

text \<open>What a running server with a token does with one request.\<close>

lemma started_server:
  assumes "Start listen cfg (New_Server addr token) = (None, s)"
  shows "sv_running s" "sv_token s = token" "sv_tools s = registerTools cfg"
  using assms by (auto simp: Start_def New_Server_def split: sum.splits)

lemma serve_unauthorized:
  assumes "sv_running s" and "sv_token s \<noteq> []" and "HGet h ''Authorization'' \<noteq> ''Bearer '' @ sv_token s"
  shows "serve env s h call cfg = (Unauthorized 401, cfg)"
  using assms by (simp add: serve_def bearerAuthMiddleware_def)

text \<open>A tool whose component is missing is not registered; a stopped server answers nothing.\<close>

lemma missing_scripts_unknown:
  assumes "Start listen cfg (New_Server addr token) = (None, s)" and "mc_Scripts cfg = None"
    and "tool_name call \<in> set script_tools"
  shows "fst (serve env s h call cfg1) \<in> {Unauthorized 401, UnknownTool}"
proof -
  have "set script_tools \<inter> set (read_tools @ sim_tools) = {}"
    by (simp add: script_tools_def read_tools_def sim_tools_def)
  with assms(2,3) have "tool_name call \<notin> set (registerTools cfg)" by (auto simp: registerTools_def)
  with started_server [OF assms(1)] show ?thesis by (simp add: serve_def bearerAuthMiddleware_def)
qed

lemma stopped_refuses: "serve env (Stop s) h call cfg = (Refused, cfg)"
  by (simp add: serve_def Stop_def)

text \<open>A session: the requests in the order the server handles them, each with what the world outside
  answers while it runs.\<close>

fun session :: "Server \<Rightarrow> (mcp_env \<times> header \<times> tool_call) list \<Rightarrow> mcp_cfg \<Rightarrow> mcp_reply list \<times> mcp_cfg" where
  "session s [] cfg = ([], cfg)"
| "session s ((env, h, call) # reqs) cfg =
     (case serve env s h call cfg of (r, cfg1) \<Rightarrow>
       (case session s reqs cfg1 of (rs, cfg2) \<Rightarrow> (r # rs, cfg2)))"

definition bears :: "string \<Rightarrow> mcp_env \<times> header \<times> tool_call \<Rightarrow> bool" where
  "bears token req = (HGet (fst (snd req)) ''Authorization'' = ''Bearer '' @ token)"

lemma session_filter:
  assumes "sv_running s" and "sv_token s \<noteq> []" and "session s reqs cfg = (rs, cfg1)"
  shows "session s (filter (bears (sv_token s)) reqs) cfg =
      (map snd (filter (\<lambda>(req, r). bears (sv_token s) req) (zip reqs rs)), cfg1) \<and> length rs = length reqs \<and>
    (\<forall>i < length reqs. \<not> bears (sv_token s) (reqs ! i) \<longrightarrow> rs ! i = Unauthorized 401)"
  using assms(3)
proof (induction reqs arbitrary: cfg rs)
  case (Cons req reqs)
  obtain env h call where req: "req = (env, h, call)" by (metis prod_cases3)
  obtain r c where sv: "serve env s h call cfg = (r, c)" by (metis prod.exhaust)
  obtain rs' where rs: "session s reqs c = (rs', cfg1)" "rs = r # rs'"
    using Cons.prems by (auto simp: req sv split: prod.splits)
  have "\<not> bears (sv_token s) req \<Longrightarrow> r = Unauthorized 401 \<and> c = cfg"
    using serve_unauthorized [OF assms(1,2), of h env call cfg] by (simp add: bears_def req sv)
  with Cons.IH [OF rs(1)] show ?case
    by (auto simp: rs(2) req sv nth_Cons split: nat.split)
qed simp

text \<open>C39: Without the token nobody gets at the tools.  In any sequence of requests to a server that
  was started with a token, each one whose Authorization header is not exactly that bearer token
  is answered with 401, and the others get the same answers, and leave the same configuration,
  scripts, throttling and files behind, as if the former had never been sent.\<close>

theorem token_guards_every_tool:
  assumes "token \<noteq> []" and "Start listen cfg0 (New_Server addr token) = (None, s)"
    and "session s reqs cfg = (rs, cfg1)"
  shows "session s (filter (bears token) reqs) cfg =
      (map snd (filter (\<lambda>(req, r). bears token req) (zip reqs rs)), cfg1) \<and> length rs = length reqs \<and>
    (\<forall>i < length reqs. \<not> bears token (reqs ! i) \<longrightarrow> rs ! i = Unauthorized 401)"
  using session_filter [of s reqs cfg rs cfg1] started_server [OF assms(2)] assms(1,3) by simp

definition demo_env :: mcp_env where
  "demo_env = \<lparr>en_re = (\<lambda>_. None), en_fmt = (\<lambda>_. []), en_nano = (\<lambda>_. []), en_goja = idle_goja,
     en_temp = (\<lambda>d p x names. Inr (d @ ''/'' @ p @ ''1'' @ x)), en_newreq = (\<lambda>_ _. None), en_do = (\<lambda>_ _. Inr 200),
     en_print = (\<lambda>_. True)\<rparr>"

definition demo_cfg :: mcp_cfg where
  "demo_cfg = \<lparr>mc_Store = buf1, mc_Proxy = Some ''127.0.0.1:8080'', mc_Scripts = None, mc_Throttle = None,
     mc_tmp = demo_fs []\<rparr>"

theorem token_guards_every_tool_witness:
  "\<exists>s r. Start Inr demo_cfg (New_Server [] ''secret'') = (None, s) \<and>
    session s [(demo_env, [], CallListScripts), (demo_env, [(''Authorization'', [''Bearer secret''])], CallGetThrottle)]
      demo_cfg = ([Unauthorized 401, r], demo_cfg) \<and>
    session s [(demo_env, [(''Authorization'', [''Bearer secret''])], CallGetThrottle)] demo_cfg = ([r], demo_cfg)"
proof -
  let ?req = "(demo_env, [(''Authorization'', [''Bearer secret''])], CallGetThrottle)"
  let ?reqs = "[(demo_env, [], CallListScripts), ?req]"
  obtain s where st: "Start Inr demo_cfg (New_Server [] ''secret'') = (None, s)"
    by (simp add: Start_def New_Server_def)
  obtain rs c where se: "session s ?reqs demo_cfg = (rs, c)" by (metis prod.exhaust)
  have b: "bears ''secret'' ?req" by code_simp
  have nb: "\<not> bears ''secret'' (demo_env, [], CallListScripts)" by (simp add: bears_def HGet_def)
  from token_guards_every_tool [OF _ st se] obtain r where r: "rs = [Unauthorized 401, r]"
    "session s [?req] demo_cfg = ([r], c)"
    using b nb by (cases rs) (auto simp: length_Suc_conv)
  have "c = demo_cfg"
    using r(2) by (auto simp: serve_def bearerAuthMiddleware_def split: prod.splits sum.splits if_splits)
  with st se r show ?thesis by auto
qed

text \<open>A body that is quoted for Go is no JavaScript text of the same value: a bell becomes an escape that
  JavaScript reads as the letter a, a byte that is no UTF-8 the escape of another character.\<close>

lemma mock_quotes_for_go:
  "Quote p [char_of (7 :: nat)] = [CHR 0x22, CHR 0x5C, CHR ''a'', CHR 0x22]"
  "Quote p [char_of (255 :: nat)] = [CHR 0x22, CHR 0x5C, CHR ''x'', CHR ''f'', CHR ''f'', CHR 0x22]"
proof -
  have u: "utf8_len [char_of (7 :: nat)] \<le> 1" "utf8_len [char_of (255 :: nat)] \<le> 1" by code_simp+
  have q: "quote_char (char_of (7 :: nat)) = [CHR 0x5C, CHR ''a'']"
    "quote_char (char_of (255 :: nat)) = [CHR 0x5C, CHR ''x'', CHR ''f'', CHR ''f'']" by code_simp+
  have e: "quote_runes p [c] = (if utf8_len [c] \<le> 1 then quote_char c else quote_runes p [c])" for c
    by (simp add: quote_runes.simps [of p "[c]"] quote_runes.simps [of p "[]"])
  show "Quote p [char_of (7 :: nat)] = [CHR 0x22, CHR 0x5C, CHR ''a'', CHR 0x22]"
    "Quote p [char_of (255 :: nat)] = [CHR 0x22, CHR 0x5C, CHR ''x'', CHR ''f'', CHR ''f'', CHR 0x22]"
    using e [of "char_of (7 :: nat)"] e [of "char_of (255 :: nat)"] u q by (simp_all add: Quote_def quoted_def)
qed

lemma wrap64_id: "- (2 ^ 63) \<le> x \<Longrightarrow> x < 2 ^ 63 \<Longrightarrow> wrap64 x = x"
  by (simp add: wrap64_def)

lemma Milliseconds_mult: "Milliseconds (n * 1000000) = n"
proof -
  have "(- n * 1000000) div 1000000 = - n" by (rule nonzero_mult_div_cancel_right) simp
  then show ?thesis by (simp add: Milliseconds_def)
qed

text \<open>What \<open>set_throttle\<close> sets \<open>get_throttle\<close> reports, for a latency that fits in 64 bits of
  nanoseconds; a preset decides the bandwidth, whatever the request says of it, and an unknown
  preset is an error that changes nothing.\<close>

theorem throttle_tools_roundtrip:
  assumes "mc_Throttle cfg = Some p" and "px_intc p \<noteq> None"
    and "\<bar>st_LatencyMS inp\<bar> \<le> 9223372036854"
    and "handleSetThrottle env inp cfg = (r, cfg')"
  shows "(st_Preset inp \<noteq> [] \<and> PresetBandwidth (st_Preset inp) = 0 \<longrightarrow> tr_IsError r \<and> cfg' = cfg) \<and>
    (let bps = (if st_Preset inp = [] then st_BPS inp else PresetBandwidth (st_Preset inp)) in
     (st_Preset inp = [] \<or> bps \<noteq> 0 \<longrightarrow>
       handleGetThrottle cfg' = jsonResult (JvObj [(''bps'', JvInt bps), (''latency_ms'', JvInt (st_LatencyMS inp)),
         (''active'', JvBool (bps > 0 \<or> st_LatencyMS inp > 0))])))"
proof -
  have w: "wrap64 (st_LatencyMS inp * 1000000) = st_LatencyMS inp * 1000000"
    using assms(3) by (intro wrap64_id) auto
  have g: "GetThrottleBPS (p_SetThrottle b l p) = b \<and> GetThrottleLatency (p_SetThrottle b l p) = l" for b l
    by (rule px.get_set [OF assms(2)])
  show ?thesis
    using assms(1,4) w g
    by (auto simp: handleSetThrottle_def handleGetThrottle_def Let_def Milliseconds_mult errorResult_def
        zero_less_mult_iff)
qed

theorem throttle_tools_roundtrip_witness:
  "\<exists>ic. json_get ''bps'' (handleGetThrottle (snd (handleSetThrottle demo_env
     \<lparr>st_BPS = 1, st_LatencyMS = 20, st_Preset = ''wifi''\<rparr>
     (demo_cfg\<lparr>mc_Throttle := Some \<lparr>px_intc = Some ic, px_bpCtrl = None\<rparr>\<rparr>)))) = Some (JvInt 3750000)"
proof -
  let ?ic = "newInterceptor buf1 None None None None 0 0"
  let ?p = "\<lparr>px_intc = Some ?ic, px_bpCtrl = None\<rparr>"
  let ?i = "\<lparr>st_BPS = 1, st_LatencyMS = 20, st_Preset = ''wifi''\<rparr>"
  let ?c = "demo_cfg\<lparr>mc_Throttle := Some ?p\<rparr>"
  have pb: "PresetBandwidth ''wifi'' = 3750000" by code_simp
  obtain r cfg' where h: "handleSetThrottle demo_env ?i ?c = (r, cfg')" by (metis prod.exhaust)
  from throttle_tools_roundtrip [of ?c ?p ?i demo_env r cfg'] h pb
  have "json_get ''bps'' (handleGetThrottle (snd (handleSetThrottle demo_env ?i ?c))) = Some (JvInt 3750000)"
    by (simp add: json_get_def jsonResult_def)
  then show ?thesis by blast
qed

text \<open>Replaying a captured flow drops the port of its URL: whatever host and port the request
  was for, the replayed one goes to the bare host name with the scheme's default port.\<close>

theorem replay_drops_port:
  assumes "rb_inv (ic_store ic)" and "f_Id f \<noteq> []" and "f_Id f \<notin> set (ids (ic_store ic))"
    and "\<not> skips ic f" and "f_ConnContext f = Some c" and "mc_Store cfg = ic_store (Requestheaders now f ic)"
    and "mc_Proxy cfg = Some addr" and "\<forall>m u. en_newreq env m u = None" and "ri_RequestID inp = f_Id f"
  shows "\<exists>r req. handleReplayRequest env inp cfg = (r, Some req) \<and> wr_Method req = q_Method (f_Request f) \<and>
    wr_URL req = (if cn_Tls c then ''https'' else ''http'') @ ''://'' @ u_Hostname (q_URL (f_Request f)) @
      u_RequestURI (q_URL (f_Request f))"
proof -
  let ?u = "q_URL (f_Request f)"
  let ?m = "zero_meta\<lparr>fm_ID := f_Id f, fm_Method := q_Method (f_Request f), fm_Host := u_Hostname ?u,
    fm_Path := u_RequestURI ?u, fm_Scheme := if cn_Tls c then ''https'' else ''http'', fm_StartedAt := now,
    fm_State := StateInProgress\<rparr>"
  from Add_refines [OF assms(1), of ?m] assms(3) obtain st where
    a: "Add ?m (ic_store ic) = Inr st" "rb_inv st" "abs_rb st = q_add (rb_capacity (ic_store ic)) ?m (abs_rb (ic_store ic))"
    by auto
  have st: "mc_Store cfg = st"
    using assms(4-6) a(1) by (simp add: Requestheaders_def Let_def split: option.splits)
  have "(?m, None) \<in> set (abs_rb st)" by (simp add: a(3) q_add_def)
  with a(2) have "Get (f_Id f) st = Inr (?m, None)" by (simp add: rb.get_Inr_iff)
  with st assms(2,7-9) show ?thesis
    by (simp add: handleReplayRequest_def replay_parts_def Let_def)
qed

text \<open>The witness: a flow to port 8443.\<close>

definition port_flow :: mp_flow where
  "port_flow = \<lparr>f_Id = ''9'', f_Request = \<lparr>q_Method = ''GET'', q_URL = \<lparr>u_String = ''https://x.com:8443/a'',
     u_Host = ''x.com:8443'', u_Hostname = ''x.com'', u_Path = ''/a'', u_RequestURI = ''/a''\<rparr>, q_Header = [], q_Body = []\<rparr>,
     f_Response = None, f_ConnContext = Some \<lparr>cn_Tls = True, cn_RemoteAddr = None\<rparr>\<rparr>"

theorem replay_drops_port_witness:
  "\<exists>cfg r req. handleReplayRequest demo_env \<lparr>ri_RequestID = ''9'', ri_Method = [], ri_URL = [], ri_Headers = [], ri_Body = []\<rparr>
     cfg = (r, Some req) \<and> wr_URL req = ''https://x.com/a''"
proof -
  let ?ic = "newInterceptor buf1 None None None None 0 0"
  let ?c = "demo_cfg\<lparr>mc_Store := ic_store (Requestheaders 0 port_flow ?ic)\<rparr>"
  let ?i = "\<lparr>ri_RequestID = ''9'', ri_Method = [], ri_URL = [], ri_Headers = [], ri_Body = []\<rparr>"
  have "\<exists>r req. handleReplayRequest demo_env ?i ?c = (r, Some req) \<and>
      wr_Method req = q_Method (f_Request port_flow) \<and>
      wr_URL req = (if cn_Tls \<lparr>cn_Tls = True, cn_RemoteAddr = None\<rparr> then ''https'' else ''http'') @ ''://'' @
        u_Hostname (q_URL (f_Request port_flow)) @ u_RequestURI (q_URL (f_Request port_flow))"
    by (rule replay_drops_port [where ic = ?ic and now = 0 and addr = "''127.0.0.1:8080''"])
      (simp_all add: newInterceptor_def buf1_inv buf1_ids port_flow_def skips_def demo_cfg_def demo_env_def)
  then show ?thesis by (auto simp: port_flow_def)
qed

subsection \<open>Scripts made and deleted by the tools\<close>

lemma Split_lines:
  "ws \<noteq> [] \<Longrightarrow> \<forall>w \<in> set ws. c \<notin> set w \<Longrightarrow> Split c (Join ws [c] @ c # s) = ws @ Split c s"
  by (induction ws rule: induct_list012) (auto simp: Split_append)

definition header_mid :: "createScriptInput \<Rightarrow> string list" where
  "header_mid inp = [''// name: '' @ cs_Name inp, ''// match:''] @
     map (\<lambda>p. ''//   - '' @ quoted p) (cs_MatchPatterns inp) @ [''// enabled: '' @ show_bool (cs_Enabled inp)]"

definition yaml_text :: "createScriptInput \<Rightarrow> string" where
  "yaml_text inp = Join ([''name: '' @ cs_Name inp, ''match:''] @
     map (\<lambda>p. ''  - '' @ quoted p) (cs_MatchPatterns inp) @ [''enabled: '' @ show_bool (cs_Enabled inp)]) [nl]"

lemma strip_header_mid: "Join (map strip_line (header_mid inp)) [nl] = yaml_text inp"
  by (simp add: header_mid_def yaml_text_def strip_line_def TrimPrefix_def comp_def)

lemma header_mid_no_delim: "\<forall>l \<in> set (header_mid inp). \<not> is_delim l"
proof -
  have "\<not> is_delim (CHR ''/'' # t)" if "\<not> HasPrefix (CHR ''/'' # t) ''// ---''" for t
    using that by (rule not_delim_slash)
  then show ?thesis by (auto simp: header_mid_def)
qed

lemma script_content_lines:
  assumes "nl \<notin> set (cs_Name inp)" and "\<forall>p \<in> set (cs_MatchPatterns inp). nl \<notin> set p"
  shows "Split nl (script_content inp) =
    [] @ ''// ---'' # header_mid inp @ ''// ---'' # ([] # Split nl (cs_Code inp @ [nl]))"
proof -
  let ?ws = "''// ---'' # header_mid inp @ [''// ---'']"
  have "script_content inp = Join (?ws @ [[], cs_Code inp, []]) [nl]"
    by (simp add: script_content_def header_mid_def)
  also have "\<dots> = Join ?ws [nl] @ nl # (nl # cs_Code inp @ [nl])"
    by (subst Split_Join_append) auto
  finally have c: "script_content inp = Join ?ws [nl] @ nl # (nl # cs_Code inp @ [nl])" .
  have "\<forall>w \<in> set ?ws. nl \<notin> set w"
    using assms by (auto simp: header_mid_def quoted_def show_bool_def nl_def)
  from Split_lines [OF _ this] show ?thesis by (simp add: c)
qed



definition file_names :: "fsys \<Rightarrow> string set" where
  "file_names fs = fst ` set (fs_files fs)"

lemma write_existing_keys:
  "WriteFile p c fs = (r, fs') \<Longrightarrow> p \<in> file_names fs \<Longrightarrow> file_names fs' = file_names fs"
  by (cases "fs_write_fault fs p"; clarsimp simp: WriteFile_def file_names_def dom_update)
    (rule insert_absorb, force)

lemma read_exists: "ReadFile p fs = Inr c \<Longrightarrow> p \<in> file_names fs"
  by (auto simp: ReadFile_def file_names_def map_of_map_fst_mem split: option.splits)

lemma ensure_keys:
  "ensureScriptID p meta src fs = (r, fs') \<Longrightarrow> p \<in> file_names fs \<Longrightarrow> file_names fs' = file_names fs"
proof -
  assume e: "ensureScriptID p meta src fs = (r, fs')" and p: "p \<in> file_names fs"
  obtain sid fs1 where g: "generateID fs = (sid, fs1)" by (metis prod.exhaust)
  then have n: "file_names fs1 = file_names fs" by (auto simp: generateID_def file_names_def)
  show ?thesis
  proof (cases "with_id sid src")
    case None
    with e g n show ?thesis by (auto simp: ensureScriptID_def split: if_splits)
  next
    case (Some new)
    obtain x fs2 where "WriteFile p new fs1 = (x, fs2)" by (metis prod.exhaust)
    with e g n p Some write_existing_keys [OF this] show ?thesis
      by (cases x) (auto simp: ensureScriptID_def split: if_splits)
  qed
qed

lemma load_entry_keys: "load_entry y dir n fs = (r, fs') \<Longrightarrow> file_names fs' = file_names fs"
proof -
  assume e: "load_entry y dir n fs = (r, fs')"
  show ?thesis
  proof (cases "ReadFile (path_join dir n) fs")
    case (Inl err)
    with e show ?thesis by (simp add: load_entry_def)
  next
    case (Inr src)
    note p = read_exists [OF Inr]
    show ?thesis
    proof (cases "ParseHeader y src")
      case (Inl err)
      with e Inr show ?thesis by (simp add: load_entry_def)
    next
      case mb: (Inr mb)
      obtain x fs1 where x: "ensureScriptID (path_join dir n) (fst mb) src fs = (x, fs1)" by (metis prod.exhaust)
      with e Inr mb ensure_keys [OF x p] show ?thesis
        by (cases mb; cases x) (auto simp: load_entry_def)
    qed
  qed
qed

lemma load_entries_keys:
  "load_entries y dir es fs = (ok, errs, fs') \<Longrightarrow> file_names fs' = file_names fs"
  by (induction y dir es fs arbitrary: ok errs fs' rule: load_entries.induct)
    (auto split: if_splits prod.splits sum.splits dest: load_entry_keys)

lemma LoadDir_keys: "LoadDir y dir fs = (ok, errs, fs') \<Longrightarrow> file_names fs' = file_names fs"
  by (auto simp: LoadDir_def split: sum.splits dest: load_entries_keys)

lemma m_Scripts_paths:
  assumes "m_Scripts gj m = (infos, m1)" and "info \<in> set infos"
  shows "si_FilePath info \<in> file_names (m_fs m)"
proof -
  obtain ok errs fs1 where l: "LoadDir (gj_yaml gj) (m_dir m) (m_fs m) = (ok, errs, fs1)" by (metis prod_cases3)
  with assms have "si_FilePath info \<in> sf_FilePath ` (set ok \<union> set errs)"
    by (auto simp: m_Scripts_def valid_info_def errored_info_def)
  with LoadDir_paths [OF l] show ?thesis by (auto simp: file_names_def)
qed

lemma m_Scripts_keys: "m_Scripts gj m = (infos, m1) \<Longrightarrow> file_names (m_fs m1) = file_names (m_fs m)"
  by (auto simp: m_Scripts_def split: prod.splits dest: LoadDir_keys)

lemma m_Reload_keys: "file_names (m_fs (m_Reload gj m)) = file_names (m_fs m)"
  by (auto simp: m_Reload_def ReloadEngine_def LoadFromDir_def split: prod.splits dest: LoadDir_keys)

lemma m_Delete_keys:
  assumes "m_Delete gj path m = (None, m')"
  shows "file_names (m_fs m') = file_names (m_fs m) - {path}"
proof -
  obtain fs where "DeleteScript path (m_fs m) = (None, fs)" "m' = m_Reload gj (m\<lparr>m_fs := fs\<rparr>)"
    using assms by (auto simp: m_Delete_def split: prod.splits option.splits)
  moreover from this(1) have "fs_files fs = AList.delete path (fs_files (m_fs m))"
    by (auto simp: DeleteScript_def RemoveFile_def split: if_splits option.splits)
  ultimately show ?thesis by (simp add: m_Reload_keys) (metis file_names_def delete_keys list.set_map set_removeAll)
qed

text \<open>\<open>delete_script\<close> that does not answer with an error has removed the file of the script with
  that id and no other file, and no later listing shows an entry for that file.\<close>

theorem delete_tool_removes:
  assumes "handleDeleteScript env sid cfg = (r, cfg')" and "mc_Scripts cfg = Some m" and "\<not> tr_IsError r"
  shows "\<exists>info m'. fst (m_ScriptByID (en_goja env) sid m) = Some info \<and> mc_Scripts cfg' = Some m' \<and>
    file_names (m_fs m') = file_names (m_fs m) - {si_FilePath info} \<and>
    (\<forall>x \<in> set (fst (m_Scripts (en_goja env) m')). si_FilePath x \<noteq> si_FilePath info)"
proof -
  from assms obtain info m1 m' where i: "m_ScriptByID (en_goja env) sid m = (Some info, m1)"
    and d: "m_Delete (en_goja env) (si_FilePath info) m1 = (None, m')" and c: "mc_Scripts cfg' = Some m'"
    by (auto simp: handleDeleteScript_def with_scripts_def with_script_id_def errorResult_def
        split: if_splits prod.splits option.splits)
  from i obtain infos where "m_Scripts (en_goja env) m = (infos, m1)"
    by (auto simp: m_ScriptByID_def split: prod.splits)
  then have k: "file_names (m_fs m') = file_names (m_fs m) - {si_FilePath info}"
    using m_Delete_keys [OF d] m_Scripts_keys by metis
  obtain infos' m2 where l: "m_Scripts (en_goja env) m' = (infos', m2)" by (metis prod.exhaust)
  from m_Scripts_paths [OF l] k i c show ?thesis by (auto simp: l)
qed

definition script_env :: mcp_env where
  "script_env = demo_env\<lparr>en_goja := idle_goja\<lparr>gj_yaml := \<lambda>_. Inr (demo_meta\<lparr>sm_ID := ''x''\<rparr>)\<rparr>\<rparr>"

definition script_manager :: Manager where
  "script_manager = \<lparr>m_engine = NewEngine, m_dir = ''d'', m_fs = demo_fs demo_lines\<rparr>"

lemma script_list:
  "m_Scripts (en_goja script_env) script_manager =
   ([valid_info \<lparr>sf_Meta = demo_meta\<lparr>sm_ID := ''x''\<rparr>, sf_Source = ''f()'', sf_FilePath = ''d/a.js'', sf_Error = []\<rparr>],
    script_manager)"
proof -
  have "child_name ''d'' ''d/a.js'' = Some ''a.js''" "child_name ''d'' ''d'' = None" by code_simp+
  then have rd: "ReadDir ''d'' (demo_fs demo_lines) = Inr [(''a.js'', False)]"
    by (simp add: ReadDir_def demo_fs_def map_filter_def)
  have sp: "Split nl (Join demo_lines [nl]) = [] @ ''// ---'' # [''// name: a'', ''// match: [b]''] @ ''// ---'' # [''f()'']"
    using demo_split [of "[]"] by (simp add: demo_lines_def)
  have "HasSuffix ''a.js'' ''.js''" "path_join ''d'' ''a.js'' = ''d/a.js''" by code_simp+
  moreover have "ParseHeader (\<lambda>_. Inr (demo_meta\<lparr>sm_ID := ''x''\<rparr>)) (Join demo_lines [nl]) =
      Inr (demo_meta\<lparr>sm_ID := ''x''\<rparr>, ''f()'')"
    unfolding ParseHeader_def sp header_lines_shape [OF demo_shape(2)] by (simp add: demo_meta_def)
  ultimately show ?thesis
    by (simp add: m_Scripts_def script_manager_def script_env_def demo_env_def LoadDir_def rd load_entry_def
        demo_read ensureScriptID_def demo_meta_def)
qed

theorem delete_tool_removes_witness:
  "\<exists>r cfg' m'. handleDeleteScript script_env ''x'' (demo_cfg\<lparr>mc_Scripts := Some script_manager\<rparr>) = (r, cfg') \<and>
    mc_Scripts cfg' = Some m' \<and> file_names (m_fs m') = {}"
proof -
  let ?c = "demo_cfg\<lparr>mc_Scripts := Some script_manager\<rparr>"
  obtain r cfg' where h: "handleDeleteScript script_env ''x'' ?c = (r, cfg')" by (metis prod.exhaust)
  have by_id: "\<exists>info. m_ScriptByID (en_goja script_env) ''x'' script_manager = (Some info, script_manager) \<and>
      si_FilePath info = ''d/a.js''"
    by (simp add: m_ScriptByID_def script_list valid_info_def)
  obtain m2 where "m_Delete (en_goja script_env) ''d/a.js'' script_manager = (None, m2)"
    by (auto simp: m_Delete_def DeleteScript_def RemoveFile_def script_manager_def demo_fs_def)
  with by_id h have ok: "\<not> tr_IsError r"
    by (auto simp: handleDeleteScript_def with_scripts_def with_script_id_def jsonResult_def split: prod.splits)
  obtain info m' where d: "fst (m_ScriptByID (en_goja script_env) ''x'' script_manager) = Some info"
    "mc_Scripts cfg' = Some m'" "file_names (m_fs m') = file_names (m_fs script_manager) - {si_FilePath info}"
    using delete_tool_removes [OF h _ ok, of script_manager] by auto
  have "si_FilePath info = ''d/a.js''" using by_id d(1) by fastforce
  moreover have "file_names (m_fs script_manager) = {''d/a.js''}"
    by (simp add: file_names_def script_manager_def demo_fs_def)
  ultimately have "file_names (m_fs m') = {}" using d(3) by simp
  with h d(2) show ?thesis by blast
qed

end
