(* ===== verification/Tui_Send.thy ===== *)
theory Tui_Send
  imports Tui_Text Mcp_Server
begin

section \<open>Requests that leave the terminal UI (internal/tui: curl.go, repeat.go, compose.go, breakpoint.go)\<close>

text \<open>
  The cURL command, the repeated and the composed request, and the text form of headers in the
  breakpoint editor.  \<open>newreq\<close> is \<open>http.NewRequest\<close>'s check of method and URL.  \<open>sh_words\<close> is the
  part of a POSIX shell that the cURL command relies on: blanks and single quotes; \<open>None\<close> where the
  text is not one complete simple command.
\<close>

subsection \<open>cURL\<close>

definition sq :: char where
  "sq = CHR 0x27"

definition single_quoted :: "string \<Rightarrow> string" where
  "single_quoted s = [sq] @ s @ [sq]"

definition header_values :: "header \<Rightarrow> string \<Rightarrow> string list" where
  "header_values h k = (case map_of h k of Some vs \<Rightarrow> vs | None \<Rightarrow> [])"

definition header_args :: "(string \<Rightarrow> string) \<Rightarrow> header \<Rightarrow> string list" where
  "header_args q h = concat (map (\<lambda>k. concat (map (\<lambda>v. [''-H'', q (k @ '': '' @ v)]) (header_values h k))) (header_keys h))"

definition curl_parts :: "(string \<Rightarrow> string) \<Rightarrow> string \<Rightarrow> string \<Rightarrow> header \<Rightarrow> string \<Rightarrow> string list" where
  "curl_parts q mth url headers body = [''curl''] @ (if mth \<noteq> ''GET'' then [''-X'', mth] else []) @
     header_args q headers @ (if length body > 0 then [''-d'', q body] else []) @ [q url]"

definition formatCurl :: "string \<Rightarrow> string \<Rightarrow> header \<Rightarrow> string \<Rightarrow> string" where
  "formatCurl mth url headers body = Join (curl_parts single_quoted mth url headers body) '' ''"

definition osc52Sequence :: "string \<Rightarrow> string" where
  "osc52Sequence txt = [CHR 0x1B] @ '']52;c;'' @ base64 txt @ [CHR 0x07]"

definition sh_special :: "char \<Rightarrow> bool" where
  "sh_special c = (c \<in> set ''|&;<>()$*?[]#~=%{}!'' \<or> byte c \<in> {9, 10, 13, 34, 92, 96})"

definition word_so_far :: "string option \<Rightarrow> string" where
  "word_so_far w = (case w of None \<Rightarrow> [] | Some s \<Rightarrow> s)"

fun sh_split :: "bool \<Rightarrow> string option \<Rightarrow> string \<Rightarrow> string list option" where
  "sh_split True w [] = None"
| "sh_split False w [] = Some (case w of None \<Rightarrow> [] | Some s \<Rightarrow> [s])"
| "sh_split True w (c # s) = (if c = sq then sh_split False (Some (word_so_far w)) s
     else sh_split True (Some (word_so_far w @ [c])) s)"
| "sh_split False w (c # s) = (if c = sq then sh_split True (Some (word_so_far w)) s
     else if c = CHR '' '' then (case w of None \<Rightarrow> sh_split False None s
         | Some v \<Rightarrow> map_option (\<lambda>ws. v # ws) (sh_split False None s))
     else if sh_special c then None else sh_split False (Some (word_so_far w @ [c])) s)"

definition sh_words :: "string \<Rightarrow> string list option" where
  "sh_words s = sh_split False None s"

subsection \<open>Repeated and composed requests\<close>

definition add_headers :: "(string \<times> string list) list \<Rightarrow> header \<Rightarrow> header" where
  "add_headers hs h = fold (\<lambda>(k, vs) h. fold (\<lambda>v h. HAdd k v h) vs h) hs h"

definition buildRepeatRequest :: "(string \<Rightarrow> string \<Rightarrow> string option) \<Rightarrow> RingBuffer \<Rightarrow> FlowID \<Rightarrow> wire_request option" where
  "buildRepeatRequest newreq rb fid = (case Get fid rb of Inl _ \<Rightarrow> None
     | Inr (meta, data) \<Rightarrow>
        let u = fm_Scheme meta @ ''://'' @ fm_Host meta @ fm_Path meta;
            reqBody = (case data of None \<Rightarrow> [] | Some d \<Rightarrow> fd_RequestBody d)
        in case newreq (fm_Method meta) u of Some _ \<Rightarrow> None
           | None \<Rightarrow> Some \<lparr>wr_Method = fm_Method meta, wr_URL = u, wr_Header =
               (case data of None \<Rightarrow> [] | Some d \<Rightarrow> add_headers (fd_RequestHeaders d) []), wr_Body = reqBody\<rparr>)"

definition compose_header :: "string \<Rightarrow> header \<Rightarrow> header" where
  "compose_header h0 hdr = (case Cut (TrimSpace h0) '':'' of None \<Rightarrow> hdr
     | Some (k, v) \<Rightarrow> HAdd (TrimSpace k) (TrimSpace v) hdr)"

definition compose_headers :: "string \<Rightarrow> header" where
  "compose_headers hdrs = (if hdrs \<noteq> [] then fold compose_header (Split CHR '','' hdrs) [] else [])"

definition compose_url :: "string \<Rightarrow> string" where
  "compose_url raw = (if \<not> HasPrefix raw ''http://'' \<and> \<not> HasPrefix raw ''https://'' then ''https://'' @ raw else raw)"

definition compose_request :: "(string \<Rightarrow> string \<Rightarrow> string option) \<Rightarrow> string \<Rightarrow> string \<Rightarrow> string \<Rightarrow> string \<Rightarrow> wire_request or_err" where
  "compose_request newreq mth raw hdrs body =
     (if raw = [] then Inl ''URL is required''
      else let url = compose_url raw in case newreq mth url of Some e \<Rightarrow> Inl (''Invalid request: '' @ e)
        | None \<Rightarrow> Inr \<lparr>wr_Method = mth, wr_URL = url, wr_Header = compose_headers hdrs, wr_Body = body\<rparr>)"

subsection \<open>Headers in the breakpoint editor\<close>

type_synonym smap = "(string \<times> string) list"

definition smap_at :: "smap \<Rightarrow> string \<Rightarrow> string" where
  "smap_at h k = (case map_of h k of Some v \<Rightarrow> v | None \<Rightarrow> [])"

definition formatHeadersForEditor :: "smap \<Rightarrow> string" where
  "formatHeadersForEditor h = (if h = [] then []
     else TrimRightNL (concat (map (\<lambda>k. k @ '': '' @ smap_at h k @ [nl]) (sort (remdups (map fst h))))))"

definition parse_line :: "string \<Rightarrow> smap \<Rightarrow> smap" where
  "parse_line line0 res = (let line = TrimSpace line0 in if line = [] then res
     else case Cut line '':'' of None \<Rightarrow> res | Some (k, v) \<Rightarrow> AList.update (TrimSpace k) (TrimSpace v) res)"

definition parseHeadersFromEditor :: "string \<Rightarrow> smap" where
  "parseHeadersFromEditor s = fold parse_line (Split nl s) []"

subsection \<open>The shell reads a cURL command\<close>

lemma sh_split_plain:
  "\<forall>c \<in> set a. c \<noteq> sq \<and> c \<noteq> CHR '' '' \<and> \<not> sh_special c \<Longrightarrow> a \<noteq> [] \<Longrightarrow>
   sh_split False w (a @ s) = sh_split False (Some (word_so_far w @ a)) s"
proof (induction a arbitrary: w)
  case (Cons c a)
  then show ?case by (cases "a = []") (simp_all add: word_so_far_def)
qed simp

lemma sh_split_quoted:
  "sq \<notin> set a \<Longrightarrow> sh_split True (Some v) (a @ sq # s) = sh_split False (Some (v @ a)) s"
  by (induction a arbitrary: v) (auto simp: word_so_far_def)

lemma sh_split_space: "sh_split False (Some v) ('' '' @ s) = map_option (\<lambda>ws. v # ws) (sh_split False None s)"
  by (simp add: sq_def)

text \<open>A word as it is written: plain, or in single quotes.\<close>

definition written :: "string \<Rightarrow> string \<Rightarrow> bool" where
  "written p w \<longleftrightarrow> (p = w \<and> w \<noteq> [] \<and> (\<forall>c \<in> set w. c \<noteq> sq \<and> c \<noteq> CHR '' '' \<and> \<not> sh_special c))
     \<or> (p = single_quoted w \<and> sq \<notin> set w)"

lemma sh_split_written: "written p w \<Longrightarrow> sh_split False None (p @ s) = sh_split False (Some w) s"
proof -
  assume w: "written p w"
  show ?thesis
  proof (cases "p = single_quoted w \<and> sq \<notin> set w")
    case True
    then show ?thesis using sh_split_quoted [of w "[]" s] by (simp add: single_quoted_def word_so_far_def)
  next
    case False
    with w have "p = w" "w \<noteq> []" "\<forall>c \<in> set w. c \<noteq> sq \<and> c \<noteq> CHR '' '' \<and> \<not> sh_special c" by (auto simp: written_def)
    then show ?thesis using sh_split_plain [of w None s] by (simp add: word_so_far_def)
  qed
qed

lemma sh_words_Join:
  "list_all2 written ps ws \<Longrightarrow> ps \<noteq> [] \<Longrightarrow> sh_words (Join ps '' '') = Some ws"
proof (induction ps ws rule: list_all2_induct)
  case (Cons p ps w ws)
  show ?case
  proof (cases "ps = []")
    case True
    with Cons.hyps show ?thesis using sh_split_written [of p w "[]"] by (simp add: sh_words_def)
  next
    case False
    from sh_split_written [OF Cons.hyps(1), of "'' '' @ Join ps '' ''"] Cons.IH [OF False] show ?thesis
      by (simp only: Join_Cons [OF False] sh_words_def sh_split_space) simp
  qed
qed simp

lemma sh_split_even: "sh_split q w s \<noteq> None \<Longrightarrow> odd (length (filter (\<lambda>c. c = sq) s)) = q"
  by (induction q w s rule: sh_split.induct) (auto split: if_splits option.splits)

lemma header_args_written:
  assumes "\<forall>(k, vs) \<in> set h. sq \<notin> set k \<and> (\<forall>v \<in> set vs. sq \<notin> set v)"
  shows "list_all2 written (header_args single_quoted h) (header_args (\<lambda>s. s) h)"
proof -
  have H: "written ''-H'' ''-H''" by (simp add: written_def sq_def sh_special_def byte_def)
  have "list_all2 written (concat (map (\<lambda>v. [''-H'', single_quoted (k @ '': '' @ v)]) vs)) (concat (map (\<lambda>v. [''-H'', k @ '': '' @ v]) vs))"
    if "sq \<notin> set k" "\<forall>v \<in> set vs. sq \<notin> set v" for k vs
    using that(2) by (induction vs) (use H that(1) in \<open>auto simp: written_def sq_def\<close>)
  moreover have "sq \<notin> set k \<and> (\<forall>v \<in> set (header_values h k). sq \<notin> set v)" if "k \<in> fst ` set h" for k
    using that assms by (fastforce simp: header_values_def dest: map_of_SomeD split: option.splits)
  ultimately have "list_all2 written
      (concat (map (\<lambda>k. concat (map (\<lambda>v. [''-H'', single_quoted (k @ '': '' @ v)]) (header_values h k))) ks))
      (concat (map (\<lambda>k. concat (map (\<lambda>v. [''-H'', k @ '': '' @ v]) (header_values h k))) ks))"
    if "set ks \<subseteq> fst ` set h" for ks
    using that by (induction ks) (auto intro!: list_all2_appendI)
  then show ?thesis unfolding header_args_def by (simp only: set_header_keys order_refl)
qed

text \<open>C38: A shell reads the copied cURL command back as exactly the words meant: curl, the method
  unless it is GET, every header value in order of its key, the body, the URL - provided that no
  single quote occurs in them and the method is a plain word.\<close>

theorem curl_reads_back:
  assumes "\<forall>(k, vs) \<in> set h. sq \<notin> set k \<and> (\<forall>v \<in> set vs. sq \<notin> set v)"
    and "sq \<notin> set body" and "sq \<notin> set url"
    and "mth \<noteq> []" and "\<forall>c \<in> set mth. c \<noteq> sq \<and> c \<noteq> CHR '' '' \<and> \<not> sh_special c"
  shows "sh_words (formatCurl mth url h body) = Some (curl_parts (\<lambda>s. s) mth url h body)"
proof -
  have w: "written ''curl'' ''curl''" "written ''-X'' ''-X''" "written ''-d'' ''-d''"
    by (simp_all add: written_def sq_def sh_special_def byte_def)
  have q: "written (single_quoted body) body" "written (single_quoted url) url" "written mth mth"
    using assms(2-5) by (auto simp: written_def)
  have "list_all2 written (curl_parts single_quoted mth url h body) (curl_parts (\<lambda>s. s) mth url h body)"
    unfolding curl_parts_def using w q
    by (intro list_all2_appendI header_args_written [OF assms(1)]) auto
  then show ?thesis unfolding formatCurl_def by (rule sh_words_Join) (simp add: curl_parts_def)
qed

theorem curl_reads_back_witness:
  "sh_words (formatCurl ''POST'' ''https://x.com/a b'' [(''Accept'', [''a'', ''b''])] ''{}'') =
   Some [''curl'', ''-X'', ''POST'', ''-H'', ''Accept: a'', ''-H'', ''Accept: b'', ''-d'', ''{}'', ''https://x.com/a b'']"
proof -
  have "curl_parts (\<lambda>s. s) ''POST'' ''https://x.com/a b'' [(''Accept'', [''a'', ''b''])] ''{}'' =
    [''curl'', ''-X'', ''POST'', ''-H'', ''Accept: a'', ''-H'', ''Accept: b'', ''-d'', ''{}'', ''https://x.com/a b'']"
    by (simp add: curl_parts_def header_args_def header_keys_def header_values_def)
  moreover have "sh_words (formatCurl ''POST'' ''https://x.com/a b'' [(''Accept'', [''a'', ''b''])] ''{}'') =
    Some (curl_parts (\<lambda>s. s) ''POST'' ''https://x.com/a b'' [(''Accept'', [''a'', ''b''])] ''{}'')"
    by (rule curl_reads_back) (simp_all add: sq_def sh_special_def byte_def)
  ultimately show ?thesis by simp
qed

text \<open>A body with an odd number of single quotes (an apostrophe) makes the copied command one that
  no shell can finish: a quotation stays open, whatever the rest of the request is, if that has
  no single quote.\<close>

theorem curl_apostrophe_breaks:
  assumes "odd (length (filter (\<lambda>c. c = sq) body))" and "sq \<notin> set url" and "sq \<notin> set mth"
  shows "sh_words (formatCurl mth url [] body) = None"
proof (rule ccontr)
  assume "sh_words (formatCurl mth url [] body) \<noteq> None"
  then have "even (length (filter (\<lambda>c. c = sq) (formatCurl mth url [] body)))"
    unfolding sh_words_def using sh_split_even by blast
  moreover have "filter (\<lambda>c. c = sq) url = []" "filter (\<lambda>c. c = sq) mth = []"
    using assms(2,3) by (auto simp: filter_empty_conv)
  moreover have "body \<noteq> []" using assms(1) by auto
  ultimately show False using assms(1)
    by (auto simp: formatCurl_def curl_parts_def header_args_def header_keys_def single_quoted_def sq_def split: if_splits)
qed

theorem curl_apostrophe_breaks_witness:
  "sh_words (formatCurl ''POST'' ''https://x.com/'' [] (''it'' @ [sq] @ ''s'')) = None"
  by (rule curl_apostrophe_breaks) (simp_all add: sq_def)

subsection \<open>Headers sent again\<close>

lemma map_of_HAdd_all:
  assumes "CanonicalKey k = k" and "vs \<noteq> []"
  shows "map_of (fold (\<lambda>v h. HAdd k v h) vs h) = (map_of h)(k \<mapsto> header_values h k @ vs)"
  using assms(2)
proof (induction vs arbitrary: h)
  case (Cons v vs)
  have one: "map_of (HAdd k v h) = (map_of h)(k \<mapsto> header_values h k @ [v])"
    using assms(1) by (simp add: HAdd_def update_conv' header_values_def)
  then have "header_values (HAdd k v h) k = header_values h k @ [v]" by (simp add: header_values_def)
  with Cons.IH [of "HAdd k v h"] one show ?case by (cases "vs = []") (simp_all add: fun_eq_iff)
qed simp

lemma map_of_add_headers:
  assumes "distinct (map fst hs)" and "\<forall>(k, vs) \<in> set hs. CanonicalKey k = k \<and> vs \<noteq> []"
    and "\<forall>k \<in> fst ` set hs. map_of h k = None"
  shows "map_of (add_headers hs h) = map_of h ++ map_of hs"
  using assms
proof (induction hs arbitrary: h)
  case (Cons kv hs)
  obtain k vs where kv: "kv = (k, vs)" by (cases kv)
  let ?h = "fold (\<lambda>v h. HAdd k v h) vs h"
  have m: "map_of ?h = (map_of h)(k \<mapsto> vs)"
    using Cons.prems kv by (simp add: map_of_HAdd_all header_values_def)
  have "map_of (add_headers hs ?h) = map_of ?h ++ map_of hs"
    by (rule Cons.IH) (use Cons.prems kv m in \<open>auto simp: image_iff\<close>)
  moreover have "map_of hs k = None" using Cons.prems(1) kv by (simp add: map_of_eq_None_iff)
  ultimately show ?case unfolding kv m by (auto simp: add_headers_def map_add_def fun_eq_iff split: option.splits)
qed (simp add: add_headers_def)

text \<open>Repeating a flow sends its method, its body and all values of all its request headers; the
  URL is put together from scheme, host and path of the record, and the record's host has no port.\<close>

theorem repeat_keeps_headers:
  assumes "Get fid rb = Inr (meta, Some d)"
    and "newreq (fm_Method meta) (fm_Scheme meta @ ''://'' @ fm_Host meta @ fm_Path meta) = None"
    and "distinct (map fst (fd_RequestHeaders d))"
    and "\<forall>(k, vs) \<in> set (fd_RequestHeaders d). CanonicalKey k = k \<and> vs \<noteq> []"
  shows "\<exists>req. buildRepeatRequest newreq rb fid = Some req \<and> wr_Method req = fm_Method meta \<and>
     wr_Body req = fd_RequestBody d \<and> map_of (wr_Header req) = map_of (fd_RequestHeaders d) \<and>
     wr_URL req = fm_Scheme meta @ ''://'' @ fm_Host meta @ fm_Path meta"
  using map_of_add_headers [OF assms(3,4), of "[]"] assms(1,2) by (simp add: buildRepeatRequest_def Let_def)

definition rep_data :: FlowData where
  "rep_data = empty_data\<lparr>fd_RequestHeaders := [(''Accept'', [''a'', ''b''])], fd_RequestBody := ''x''\<rparr>"

theorem repeat_keeps_headers_witness:
  "\<exists>req. buildRepeatRequest (\<lambda>_ _. None) (SetData [] rep_data buf1) [] = Some req \<and>
     map_of (wr_Header req) = [''Accept'' \<mapsto> [''a'', ''b'']] \<and> wr_Body req = ''x''"
proof -
  have "Get [] (SetData [] rep_data buf1) = Inr (zero_meta, Some rep_data)"
    by (simp add: Get_def SetData_def buf1_def)
  from repeat_keeps_headers [OF this, of "\<lambda>_ _. None"] show ?thesis
    by (auto simp: rep_data_def empty_data_def CanonicalKey_def token_char_def lower_char_def upper_char_def byte_def is_digit_def)
qed

subsection \<open>Header text\<close>

lemma TrimSpace_snoc_space: "is_space c \<Longrightarrow> TrimSpace (s @ [c]) = TrimSpace s"
proof (cases "\<forall>x \<in> set s. is_space x")
  case True
  assume "is_space c"
  have "dropWhile is_space u = []" if "\<forall>x \<in> set u. is_space x" for u
    using that by (induction u) auto
  with True \<open>is_space c\<close> have "dropWhile is_space s = []" and "dropWhile is_space (s @ [c]) = []" by (blast, simp)
  then show ?thesis unfolding TrimSpace_def by (simp only: )
next
  case False
  assume "is_space c"
  obtain x where "x \<in> set s" "\<not> is_space x" using False by blast
  then have "dropWhile is_space (s @ [c]) = dropWhile is_space s @ [c]" by (rule dropWhile_append1)
  then show ?thesis using \<open>is_space c\<close> by (simp add: TrimSpace_def)
qed

lemma TrimSpace_Cons_space: "is_space c \<Longrightarrow> TrimSpace (c # s) = TrimSpace s"
  by (simp add: TrimSpace_def)

lemma trimmed_ends:
  assumes "TrimSpace s = s" and "s \<noteq> []"
  shows "\<not> is_space (hd s)" and "\<not> is_space (last s)"
proof -
  have len: "length (TrimSpace t) \<le> length t" for t
    using length_dropWhile_le [of is_space t] length_dropWhile_le [of is_space "rev (dropWhile is_space t)"]
    by (simp add: TrimSpace_def)
  show "\<not> is_space (hd s)"
  proof
    assume "is_space (hd s)"
    then have "TrimSpace s = TrimSpace (tl s)" using assms(2) TrimSpace_Cons_space by (cases s) auto
    with assms(1) len [of "tl s"] have "length s \<le> length (tl s)" by metis
    moreover have "0 < length s" using assms(2) by simp
    ultimately show False unfolding length_tl length_butlast by linarith
  qed
  show "\<not> is_space (last s)"
  proof
    assume "is_space (last s)"
    then have "TrimSpace s = TrimSpace (butlast s)"
      using TrimSpace_snoc_space [of "last s" "butlast s"] assms(2) by simp
    with assms(1) len [of "butlast s"] have "length s \<le> length (butlast s)" by metis
    moreover have "0 < length s" using assms(2) by simp
    ultimately show False unfolding length_tl length_butlast by linarith
  qed
qed

lemma is_space_space [simp]: "is_space CHR '' ''"
  by (simp add: is_space_def)

lemma Cut_colon: "CHR '':'' \<notin> set k \<Longrightarrow> Cut (k @ CHR '':'' # v) '':'' = Some (k, v)"
proof -
  assume k: "CHR '':'' \<notin> set k"
  have "Index (k @ CHR '':'' # v) '':'' = Some (length k)" using k by (induction k) auto
  then show ?thesis by (simp add: Cut_def)
qed

lemma header_line:
  assumes "k \<noteq> []" and "TrimSpace k = k" and "TrimSpace v = v" and "CHR '':'' \<notin> set k"
  shows "\<exists>v'. Cut (TrimSpace (k @ '': '' @ v)) '':'' = Some (k, v') \<and> TrimSpace v' = v \<and> TrimSpace (k @ '': '' @ v) \<noteq> []"
proof (cases "v = []")
  case True
  have "TrimSpace (k @ '': '') = TrimSpace (k @ '':'')" using TrimSpace_snoc_space [of "CHR '' ''" "k @ '':''"] by simp
  also have "\<dots> = k @ '':''"
    by (rule TrimSpace_id) (use assms trimmed_ends(1) [of k] in \<open>simp_all add: is_space_def byte_def\<close>)
  finally show ?thesis using True Cut_colon [OF assms(4), of "[]"] by simp
next
  case False
  have "TrimSpace (k @ '': '' @ v) = k @ '': '' @ v"
    by (rule TrimSpace_id) (use assms False trimmed_ends(1) [of k] trimmed_ends(2) [of v] in simp_all)
  moreover have "TrimSpace ('' '' @ v) = v" using assms(3) by (simp add: TrimSpace_Cons_space)
  ultimately show ?thesis using Cut_colon [OF assms(4), of "'' '' @ v"] by simp
qed

definition header_pair_ok :: "string \<times> string \<Rightarrow> bool" where
  "header_pair_ok p = (case p of (k, v) \<Rightarrow> k \<noteq> [] \<and> TrimSpace k = k \<and> TrimSpace v = v \<and> CHR '':'' \<notin> set k)"

lemma compose_header_line:
  assumes "header_pair_ok (k, v)"
  shows "compose_header (k @ '': '' @ v) hdr = HAdd k v hdr" "compose_header ('' '' @ k @ '': '' @ v) hdr = HAdd k v hdr"
  using assms header_line [of k v] by (auto simp: header_pair_ok_def compose_header_def TrimSpace_Cons_space)

lemma Join_Cons_hd: "Join ((c # v) # vs) sep = c # Join (v # vs) sep"
  by (cases vs) simp_all

lemma Join_comma_space:
  "ws \<noteq> [] \<Longrightarrow> Join ws '', '' = Join (hd ws # map (\<lambda>w. '' '' @ w) (tl ws)) '',''"
proof (induction ws)
  case (Cons w ws)
  show ?case
  proof (cases ws)
    case (Cons v vs)
    then show ?thesis using Cons.IH by (simp add: Join_Cons Join_Cons_hd)
  qed simp
qed simp

text \<open>The header line of the compose form, names and values separated by a colon and pairs by a
  comma and a blank, is read back pair by pair, as long as no name or value has a comma; a comma
  inside a value cuts it there and the rest is dropped.\<close>

theorem compose_headers_roundtrip:
  assumes "hs \<noteq> []" and "\<forall>(k, v) \<in> set hs. header_pair_ok (k, v) \<and> CHR '','' \<notin> set k \<and> CHR '','' \<notin> set v"
  shows "compose_headers (Join (map (\<lambda>(k, v). k @ '': '' @ v) hs) '', '') = fold (\<lambda>(k, v). HAdd k v) hs [] \<and>
    compose_headers ''Accept: text/html, text/plain'' = [(''Accept'', [''text/html''])]"
proof
  let ?line = "\<lambda>(k, v). k @ '': '' @ v :: string"
  have fold: "fold compose_header (map (\<lambda>w. '' '' @ w) (map ?line ps)) hdr = fold (\<lambda>(k, v). HAdd k v) ps hdr"
    if "set ps \<subseteq> set hs" for ps hdr
    using that assms(2) by (induction ps arbitrary: hdr) (auto simp: compose_header_line(2) [simplified])
  obtain k v ps where hs: "hs = (k, v) # ps" using assms(1) by (cases hs) auto
  let ?ws = "?line (k, v) # map (\<lambda>w. '' '' @ w) (map ?line ps)"
  have j: "Join (map ?line hs) '', '' = Join ?ws '',''" using Join_comma_space [of "map ?line hs"] hs by simp
  have A: "Split CHR '','' (Join ?ws '','') = ?ws"
    by (rule Split_Join) (use assms(2) hs in auto)
  have B: "Join ?ws '','' \<noteq> []" using assms(2) hs by (cases ps) (auto simp: header_pair_ok_def Join_Cons)
  have c0: "compose_header (?line (k, v)) [] = HAdd k v []"
    using assms(2) hs compose_header_line(1) [of k v "[]"] by simp
  have f: "fold compose_header (map (\<lambda>w. '' '' @ w) (map ?line ps)) (HAdd k v []) = fold (\<lambda>(k, v). HAdd k v) ps (HAdd k v [])"
    by (rule fold) (auto simp: hs)
  have C: "fold compose_header ?ws [] = fold (\<lambda>(k, v). HAdd k v) hs []"
    unfolding hs fold_simps c0 f by simp
  show "compose_headers (Join (map ?line hs) '', '') = fold (\<lambda>(k, v). HAdd k v) hs []"
    unfolding j compose_headers_def A C using B by (rule if_P)
  show "compose_headers ''Accept: text/html, text/plain'' = [(''Accept'', [''text/html''])]"
    by code_simp
qed

theorem compose_headers_roundtrip_witness:
  "compose_headers ''A: 1, B: 2'' = fold (\<lambda>(k, v). HAdd k v) [(''A'', ''1''), (''B'', ''2'')] []"
proof -
  have "header_pair_ok (''A'', ''1'') \<and> header_pair_ok (''B'', ''2'')" by code_simp
  then have "\<forall>(k, v) \<in> set [(''A'', ''1''), (''B'', ''2'')]. header_pair_ok (k, v) \<and> CHR '','' \<notin> set k \<and> CHR '','' \<notin> set v" by simp
  from compose_headers_roundtrip [OF _ this] show ?thesis by simp
qed

lemma sort_key_keys: "set (sort (remdups (map fst h))) = fst ` set h" "distinct (sort (remdups (map fst h)))"
  by simp_all

lemma TrimRightNL_lines:
  assumes "ls \<noteq> []" and "\<forall>l \<in> set ls. nl \<notin> set l \<and> l \<noteq> []"
  shows "TrimRightNL (concat (map (\<lambda>l. l @ [nl]) ls)) = Join ls [nl]"
proof -
  have j: "concat (map (\<lambda>l. l @ [nl]) ls) = Join ls [nl] @ [nl]" using assms(1)
  proof (induction ls)
    case (Cons l ls)
    then show ?case by (cases "ls = []") (simp_all add: Join_Cons)
  qed simp
  have "Join ls [nl] \<noteq> [] \<and> last (Join ls [nl]) \<noteq> nl" using assms
  proof (induction ls)
    case (Cons l ls)
    have l: "l \<noteq> []" "last l \<noteq> nl" using Cons.prems(2) by (simp, metis last_in_set list.set_intros(1))
    show ?case
    proof (cases "ls = []")
      case False
      with Cons.IH Cons.prems(2) show ?thesis by (simp add: Join_Cons last_append)
    qed (use l in simp)
  qed simp
  then show ?thesis unfolding TrimRightNL_def j by (simp add: dropWhile_hd_id hd_rev)
qed

text \<open>Headers shown in the breakpoint editor and saved without an edit come back as the same map,
  when no name has a colon, and no name or value has a line break or blanks at its ends.\<close>

theorem editor_headers_roundtrip:
  assumes "\<forall>(k, v) \<in> set h. header_pair_ok (k, v) \<and> nl \<notin> set k \<and> nl \<notin> set v"
  shows "map_of (parseHeadersFromEditor (formatHeadersForEditor h)) = map_of h"
proof (cases "h = []")
  case True
  then show ?thesis by (simp add: formatHeadersForEditor_def parseHeadersFromEditor_def parse_line_def)
next
  case False
  let ?ks = "sort (remdups (map fst h))" and ?line = "\<lambda>k. k @ '': '' @ smap_at h k"
  have ok: "header_pair_ok (k, smap_at h k) \<and> nl \<notin> set k \<and> nl \<notin> set (smap_at h k) \<and> map_of h k = Some (smap_at h k)"
    if "k \<in> set ?ks" for k
  proof -
    have "k \<in> fst ` set h" using that by (simp only: sort_key_keys)
    then obtain v where v: "map_of h k = Some v" by (cases "map_of h k") (auto simp: map_of_eq_None_iff)
    then have "(k, v) \<in> set h" by (rule map_of_SomeD)
    with assms v show ?thesis by (auto simp: smap_at_def)
  qed
  have ne: "?ks \<noteq> []" using False sort_key_keys(1) [of h] by (metis image_is_empty set_empty)
  have nosp: "nl \<noteq> CHR '':''" "nl \<noteq> CHR '' ''" by (simp_all add: nl_def)
  have shown: "formatHeadersForEditor h = Join (map ?line ?ks) [nl]"
    using TrimRightNL_lines [of "map ?line ?ks"] ok ne nosp False
    by (simp add: formatHeadersForEditor_def comp_def)
  have split: "Split nl (Join (map ?line ?ks) [nl]) = map ?line ?ks"
    by (rule Split_Join) (use ok ne nosp in auto)
  have one: "parse_line (?line k) res = AList.update k (smap_at h k) res" if "k \<in> set ?ks" for k res
    using ok [OF that] header_line [of k "smap_at h k"] by (auto simp: parse_line_def header_pair_ok_def Let_def)
  have "map_of (fold parse_line (map ?line ks) res) x = (if x \<in> set ks then map_of h x else map_of res x)"
    if "set ks \<subseteq> set ?ks" for ks res x
    using that
  proof (induction ks arbitrary: res)
    case (Cons k ks)
    have k: "k \<in> set ?ks" using Cons.prems by simp
    have "fold parse_line (map ?line (k # ks)) res = fold parse_line (map ?line ks) (AList.update k (smap_at h k) res)"
      using one [OF k] by simp
    with Cons.IH [of "AList.update k (smap_at h k) res"] Cons.prems ok [OF k] show ?case by (auto simp: update_conv')
  qed simp
  from this [OF order_refl, of "[]"] show ?thesis
    unfolding parseHeadersFromEditor_def shown split by (auto simp: fun_eq_iff map_of_eq_None_iff image_iff intro: sym)
qed

theorem editor_headers_roundtrip_witness:
  "map_of (parseHeadersFromEditor (formatHeadersForEditor [(''Host'', ''x.com''), (''Accept'', [])])) =
   map_of [(''Host'', ''x.com''), (''Accept'', [])]"
proof (rule editor_headers_roundtrip)
  have "header_pair_ok (''Host'', ''x.com'') \<and> header_pair_ok (''Accept'', [])" by code_simp
  then show "\<forall>(k, v) \<in> set [(''Host'', ''x.com''), (''Accept'', [])]. header_pair_ok (k, v) \<and> nl \<notin> set k \<and> nl \<notin> set v"
    by (simp add: nl_def)
qed

end
