(* ===== verification/Highlight.thy ===== *)
theory Highlight
  imports Go_Text
begin

section \<open>Display of bodies (internal/highlight)\<close>

text \<open>
  Which bodies are shown as text, and by which lexer.  The record \<open>chroma\<close> is what the libraries
  do: the media type that mime.ParseMediaType returns (empty for one it cannot parse), json.Indent,
  and the lexers of chroma: \<open>None\<close> for an unknown name, else a function from style and text to
  coloured text that fails when tokenising or formatting does.
\<close>

record chroma =
  ch_mediaType :: "string \<Rightarrow> string"
  ch_indent :: "string \<Rightarrow> string option"
  ch_lexer :: "string \<Rightarrow> (string \<Rightarrow> string \<Rightarrow> string option) option"

definition isJSON :: "string \<Rightarrow> bool" where
  "isJSON mt = (mt = ''application/json'' \<or> HasSuffix mt ''+json'')"

definition mimeToLexer :: "(string \<times> string) list" where
  "mimeToLexer = [(''application/json'', ''json''), (''application/ld+json'', ''json-ld''),
     (''application/xml'', ''xml''), (''application/xhtml+xml'', ''html''), (''application/javascript'', ''javascript''),
     (''application/x-javascript'', ''javascript''), (''application/graphql'', ''graphql''),
     (''application/soap+xml'', ''xml''), (''application/atom+xml'', ''xml''), (''application/rss+xml'', ''xml''),
     (''application/x-yaml'', ''yaml''), (''application/yaml'', ''yaml''), (''application/toml'', ''toml''),
     (''application/x-www-form-urlencoded'', ''http''), (''text/html'', ''html''), (''text/xml'', ''xml''),
     (''text/css'', ''css''), (''text/javascript'', ''javascript''), (''text/csv'', ''csv''), (''text/yaml'', ''yaml'')]"

definition binaryMIMEPrefixes :: "string list" where
  "binaryMIMEPrefixes = [''image/'', ''audio/'', ''video/'', ''font/'']"

definition binaryMIMETypes :: "string list" where
  "binaryMIMETypes = [''application/octet-stream'', ''application/zip'', ''application/gzip'', ''application/x-gzip'',
     ''application/x-tar'', ''application/x-bzip2'', ''application/x-7z-compressed'', ''application/x-rar-compressed'',
     ''application/pdf'', ''application/wasm'', ''application/x-shockwave-flash'', ''application/vnd.ms-fontobject'',
     ''application/x-font-ttf'', ''application/x-font-opentype'', ''application/x-executable'',
     ''application/x-mach-binary'', ''application/vnd.apple.pkpass'', ''application/vnd.ms-excel'',
     ''application/vnd.openxmlformats-officedocument.spreadsheetml.sheet'']"

definition magicHeaders :: "(string \<times> string) list" where
  "magicHeaders = [([CHR 0xFF, CHR 0xD8, CHR 0xFF], ''JPEG''), ([CHR 0x89, CHR 0x50, CHR 0x4E, CHR 0x47], ''PNG''),
     (''GIF87a'', ''GIF''), (''GIF89a'', ''GIF''), ([CHR 0x52, CHR 0x49, CHR 0x46, CHR 0x46], ''RIFF (WebP/AVI)''),
     ([CHR 0x50, CHR 0x4B, CHR 0x03, CHR 0x04], ''ZIP''), ([CHR 0x1F, CHR 0x8B], ''gzip''), (''%PDF'', ''PDF''),
     ([CHR 0x7F, CHR 0x45, CHR 0x4C, CHR 0x46], ''ELF''), ([CHR 0x00, CHR 0x61, CHR 0x73, CHR 0x6D], ''WebAssembly'')]"

definition binary_type :: "string \<Rightarrow> bool" where
  "binary_type mt = (list_ex (HasPrefix mt) binaryMIMEPrefixes \<or> mt \<in> set binaryMIMETypes)"

definition binary_bytes :: "string \<Rightarrow> bool" where
  "binary_bytes body = (list_ex (\<lambda>(magic, _). HasPrefix body magic) magicHeaders \<or> CHR 0x00 \<in> set body \<or> \<not> Utf8Valid body)"

definition IsBinary :: "chroma \<Rightarrow> string \<Rightarrow> string \<Rightarrow> bool" where
  "IsBinary C body contentType = (if binary_type (ch_mediaType C contentType) then True
     else if length body > 0 then binary_bytes body else False)"

definition formatBinarySize :: "nat \<Rightarrow> string" where
  "formatBinarySize n = (if n \<ge> 2 ^ 20 then one_decimal (int n) (2 ^ 20) @ '' MB''
     else if n \<ge> 2 ^ 10 then one_decimal (int n) (2 ^ 10) @ '' KB'' else Itoa (int n) @ '' B'')"

definition lexerForMIME :: "string \<Rightarrow> string" where
  "lexerForMIME mt = (case map_of mimeToLexer mt of Some name \<Rightarrow> name
     | None \<Rightarrow> if HasSuffix mt ''+json'' then ''json'' else if HasSuffix mt ''+xml'' then ''xml'' else [])"

definition Highlight :: "chroma \<Rightarrow> string \<Rightarrow> string \<Rightarrow> bool \<Rightarrow> bool \<Rightarrow> string" where
  "Highlight C body contentType darkBg prettyJSON =
     (if length body = 0 then []
      else if IsBinary C body contentType
      then ''[binary content: '' @ (if contentType \<noteq> [] then contentType else ''unknown'') @ '', '' @
        formatBinarySize (length body) @ '']''
      else
        let mt = ch_mediaType C contentType; name = lexerForMIME mt
        in if name = [] then body
           else (case ch_lexer C name of None \<Rightarrow> body
             | Some lexer \<Rightarrow>
                let text1 = (if prettyJSON \<and> isJSON mt then (case ch_indent C body of Some p \<Rightarrow> p | None \<Rightarrow> body) else body);
                    styleName = (if darkBg then ''monokai'' else ''github'')
                in (case lexer styleName text1 of None \<Rightarrow> text1
                  | Some out \<Rightarrow> TrimRightNL out)))"

subsection \<open>What is shown\<close>

text \<open>A body of printable ASCII text, line breaks included, is never taken for binary by its bytes
  unless it starts with one of the magic words.\<close>

lemma ascii_not_binary:
  assumes "\<forall>c \<in> set body. 0 < byte c \<and> byte c < 128" and "\<forall>m \<in> set magicHeaders. \<not> HasPrefix body (fst m)"
  shows "\<not> binary_bytes body"
proof -
  have "Utf8Valid s" if "\<forall>c \<in> set s. byte c < 128" for s
    using that by (induction s) (auto simp: Utf8Valid.simps utf8_len_def)
  then have "Utf8Valid body" using assms(1) by blast
  moreover have "CHR 0x00 \<notin> set body" using assms(1) by (auto simp: byte_def)
  ultimately show ?thesis using assms(2) by (auto simp: binary_bytes_def list_ex_iff)
qed

lemma plain_text_shown:
  assumes "body \<noteq> []" and "\<not> IsBinary C body ct" and "lexerForMIME (ch_mediaType C ct) = []"
  shows "Highlight C body ct dark pretty = body"
  using assms by (simp add: Highlight_def)

text \<open>An image is never shown as text, an SVG image, which is text, included.\<close>

lemma image_is_binary: "HasPrefix (ch_mediaType C ct) ''image/'' \<Longrightarrow> IsBinary C body ct"
  by (simp add: IsBinary_def binary_type_def binaryMIMEPrefixes_def)

end
