(* ===== verification/Tui_Detail.thy ===== *)
theory Tui_Detail
  imports Tui_Text Highlight Body_Decoder
begin

section \<open>The text of the detail view (internal/tui/detail.go)\<close>

text \<open>
  The two tabs of the detail view.  The record \<open>screen\<close> is what the libraries do to text: styles,
  styles at a width, placing a popup, the seconds of a duration, and the highlighter's \<open>chroma\<close>.
  A header map without entries is taken as nil.  The functions return what they write and the error of
  the decoder.
\<close>

record screen =
  sc_style :: style
  sc_wide :: "string \<Rightarrow> int \<Rightarrow> string \<Rightarrow> string"
  sc_place :: "int \<Rightarrow> int \<Rightarrow> string \<Rightarrow> string"
  sc_secs :: "int \<Rightarrow> string"
  sc_chroma :: chroma

record renderOpts =
  ro_DarkBg :: bool
  ro_PrettyJSON :: bool
  ro_Collapsed :: "string \<Rightarrow> bool"
  ro_Decoder :: "Registry option"

definition unlines_nl :: "string list \<Rightarrow> string" where
  "unlines_nl ls = concat (map (\<lambda>l. l @ [nl]) ls)"

definition sectionIcon :: "bool \<Rightarrow> string" where
  "sectionIcon collapsed = (if collapsed then [CHR 0xE2, CHR 0x96, CHR 0xB8] else [CHR 0xE2, CHR 0x96, CHR 0xBE])"

definition section_line :: "screen \<Rightarrow> bool \<Rightarrow> string \<Rightarrow> string" where
  "section_line S collapsed title = sc_style S ''Section'' (sectionIcon collapsed @ '' '' @ title)"

definition maxBodyLines :: nat where
  "maxBodyLines = 50"

definition header_lines_shown :: "header \<Rightarrow> string list" where
  "header_lines_shown h = concat (map (\<lambda>k. map (\<lambda>v. ''  '' @ k @ '': '' @ v)
     (case map_of h k of Some vs \<Rightarrow> vs | None \<Rightarrow> [])) (header_keys h))"

definition renderHeaders :: "screen \<Rightarrow> string \<Rightarrow> header \<Rightarrow> bool \<Rightarrow> string" where
  "renderHeaders S title h collapsed = unlines_nl
     (section_line S collapsed (title @ '' ('' @ Itoa (int (length (header_keys h))) @ '')'') #
      (if collapsed then [] else header_lines_shown h) @ [[]])"

definition maxCmdlineLen :: nat where
  "maxCmdlineLen = 100"

definition renderProcessSection :: "screen \<Rightarrow> FlowMeta \<Rightarrow> FlowData \<Rightarrow> bool \<Rightarrow> string" where
  "renderProcessSection S meta data collapsed = unlines_nl
     (section_line S collapsed ''Process'' #
      (if collapsed then [] else
         [''  Name: '' @ fm_Process meta, ''  PID:  '' @ Itoa (fd_ProcessPID data)] @
         (if fd_ProcessCmdline data \<noteq> []
          then [''  Cmd:  '' @ (if length (fd_ProcessCmdline data) > maxCmdlineLen
                 then take maxCmdlineLen (fd_ProcessCmdline data) @ ''...'' else fd_ProcessCmdline data)] else [])) @ [[]])"

text \<open>The text shown for a body and the error of its decoder, if that is not \<open>ErrNoDecoder\<close>.\<close>

definition decoded_body :: "screen \<Rightarrow> string \<Rightarrow> string \<Rightarrow> renderOpts \<Rightarrow> DecoderMetadata \<Rightarrow> string \<times> string" where
  "decoded_body S body contentType opts meta =
     (let (displayBody, displayCT, decErr) = (case ro_Decoder opts of None \<Rightarrow> (body, contentType, [])
        | Some reg \<Rightarrow> (case RegistryDecode reg body contentType meta of
            Inr (decoded, resultCT) \<Rightarrow> (decoded, resultCT, [])
          | Inl err \<Rightarrow> (body, contentType, if err \<noteq> ErrNoDecoder then err else [])))
      in (Highlight (sc_chroma S) displayBody displayCT (ro_DarkBg opts) (ro_PrettyJSON opts), decErr))"

definition cut_lines :: "screen \<Rightarrow> string list \<Rightarrow> string list" where
  "cut_lines S lines = (if length lines > maxBodyLines
     then take maxBodyLines lines @ [sc_style S ''Muted'' (''... truncated ('' @ Itoa (int (length lines)) @ '' lines total)'')]
     else lines)"

definition renderBody :: "screen \<Rightarrow> string \<Rightarrow> string \<Rightarrow> renderOpts \<Rightarrow> DecoderMetadata \<Rightarrow> string \<times> string" where
  "renderBody S body contentType opts meta =
     (case decoded_body S body contentType opts meta of (shown, decErr) \<Rightarrow>
        (unlines_nl (map (\<lambda>l. ''  '' @ l) (cut_lines S (Split nl shown)) @ [[]]), decErr))"

definition body_section :: "screen \<Rightarrow> string \<Rightarrow> string \<Rightarrow> renderOpts \<Rightarrow> DecoderMetadata \<Rightarrow> string \<times> string" where
  "body_section S body contentType opts dm =
     (let collapsed = ro_Collapsed opts ''body''; title = unlines_nl [section_line S collapsed ''Body''] in
      if length body = 0 then ([], [])
      else if collapsed then (title @ [nl], [])
      else (case renderBody S body contentType opts dm of (txt1, err) \<Rightarrow> (title @ txt1, err)))"

definition renderRequestDetail :: "screen \<Rightarrow> FlowMeta \<Rightarrow> FlowData option \<Rightarrow> renderOpts \<Rightarrow> string \<times> string" where
  "renderRequestDetail S meta data opts =
     (let collapsed = ro_Collapsed opts ''general'';
          general = unlines_nl (section_line S collapsed ''General'' # (if collapsed then [] else
             [''  Method: '' @ fm_Method meta, ''  URL: '' @ fm_Scheme meta @ ''://'' @ fm_Host meta @ fm_Path meta,
              ''  Scheme: '' @ fm_Scheme meta]) @ [[]])
      in case data of None \<Rightarrow> (general, [])
       | Some d \<Rightarrow>
          let proc = (if fd_ProcessPID d \<noteq> 0 then renderProcessSection S meta d (ro_Collapsed opts ''process'') else []);
              hdrs = (if fd_RequestHeaders d \<noteq> [] then renderHeaders S ''Request Headers'' (fd_RequestHeaders d)
                        (ro_Collapsed opts ''headers'') else []);
              (body, err) = body_section S (fd_RequestBody d) (HGet (fd_RequestHeaders d) ''Content-Type'') opts
                 \<lparr>dm_RequestPath = fm_Path meta, dm_Host = fm_Host meta, dm_IsRequest = True, dm_OriginalBody = []\<rparr>
          in (general @ proc @ hdrs @ body, err))"

definition renderResponseDetail :: "screen \<Rightarrow> FlowMeta \<Rightarrow> FlowData option \<Rightarrow> renderOpts \<Rightarrow> string \<times> string" where
  "renderResponseDetail S meta data opts =
     (if fm_State meta = StateInProgress then (unlines_nl [sc_style S ''Muted'' ''Awaiting response...''], [])
      else
       let collapsed = ro_Collapsed opts ''general'';
           general = unlines_nl (section_line S collapsed ''General'' # (if collapsed then [] else
             [''  Status: '' @ Itoa (fm_StatusCode meta), ''  Content-Type: '' @ fm_ContentType meta,
              ''  Duration: '' @ formatDuration (sc_secs S) (fm_Duration meta), ''  Size: '' @ formatSize (fm_SizeBytes meta)]) @ [[]])
       in case data of None \<Rightarrow> (general, [])
        | Some d \<Rightarrow>
           let hdrs = (if fd_ResponseHeaders d \<noteq> [] then renderHeaders S ''Response Headers'' (fd_ResponseHeaders d)
                         (ro_Collapsed opts ''headers'') else []);
               (body, err) = body_section S (fd_ResponseBody d) (fm_ContentType meta) opts
                 \<lparr>dm_RequestPath = fm_Path meta, dm_Host = fm_Host meta, dm_IsRequest = False, dm_OriginalBody = []\<rparr>
           in (general @ hdrs @ body, err))"

definition renderDetailBody :: "screen \<Rightarrow> FlowMeta \<Rightarrow> FlowData option \<Rightarrow> nat \<Rightarrow> renderOpts \<Rightarrow> string \<times> string" where
  "renderDetailBody S meta data tab opts =
     (if tab = 0 then renderRequestDetail S meta data opts else renderResponseDetail S meta data opts)"

subsection \<open>The body as it is shown\<close>

lemma Split_unlines: "\<forall>l \<in> set ls. nl \<notin> set l \<Longrightarrow> Split nl (unlines_nl ls) = ls @ [[]]"
  by (induction ls) (simp_all add: unlines_nl_def Split_append)

lemma shown_lines:
  assumes "\<forall>x. nl \<notin> set (sc_style S ''Muted'' x) \<or> nl \<in> set x"
  shows "Split nl (unlines_nl (map (\<lambda>l. ''  '' @ l) (cut_lines S (Split nl s)) @ [[]])) =
    map (\<lambda>l. ''  '' @ l) (cut_lines S (Split nl s)) @ [[], []]"
proof -
  have d: "nl \<notin> set (Itoa (int n))" for n
    using show_nat_digits [of n] by (auto simp: Itoa_def nl_def list_all_iff is_digit_def byte_def)
  have "nl \<notin> set (sc_style S ''Muted'' (''... truncated ('' @ Itoa (int n) @ '' lines total)''))" for n
    using assms d [of n] by (auto simp: nl_def)
  then have "\<forall>l \<in> set (cut_lines S (Split nl s)). nl \<notin> set l"
    using Split_no_sep [of _ nl s] by (auto simp: cut_lines_def dest: in_set_takeD)
  then have "\<forall>l \<in> set (map (\<lambda>l. ''  '' @ l) (cut_lines S (Split nl s)) @ [[]]). nl \<notin> set l"
    by (auto simp: nl_def)
  from Split_unlines [OF this] show ?thesis by simp
qed

text \<open>The detail view shows a body line by line behind two blanks: all its lines when there are at
  most fifty, else the first fifty and a note with their number, so never more than fifty-one; a
  text that no decoder takes, that is not binary and has no lexer is shown byte for byte, escape
  characters included.\<close>

theorem detail_body_shown:
  assumes "\<forall>x. nl \<notin> set (sc_style S ''Muted'' x) \<or> nl \<in> set x"
    and "renderBody S body ct opts dm = (out, err)" and "decoded_body S body ct opts dm = (shown, err1)"
  shows "err = err1 \<and> map (drop 2) (Split nl out) = cut_lines S (Split nl shown) @ [[], []] \<and>
    length (cut_lines S (Split nl shown)) \<le> 51 \<and>
    (length (Split nl shown) \<le> 50 \<longrightarrow> Join (cut_lines S (Split nl shown)) [nl] = shown) \<and>
    (body \<noteq> [] \<and> \<not> IsBinary (sc_chroma S) body ct \<and> lexerForMIME (ch_mediaType (sc_chroma S) ct) = [] \<and>
      (\<forall>reg. ro_Decoder opts = Some reg \<longrightarrow> RegistryDecode reg body ct dm = Inl ErrNoDecoder) \<longrightarrow> shown = body \<and> err = [])"
proof -
  have out: "out = unlines_nl (map (\<lambda>l. ''  '' @ l) (cut_lines S (Split nl shown)) @ [[]])" "err = err1"
    using assms(2,3) by (simp_all add: renderBody_def)
  have m: "map (drop 2) (Split nl out) = cut_lines S (Split nl shown) @ [[], []]"
    unfolding out(1) shown_lines [OF assms(1)] by (simp add: comp_def)
  have n: "length (cut_lines S (Split nl shown)) \<le> 51" by (simp add: cut_lines_def maxBodyLines_def)
  have j: "Join (cut_lines S (Split nl shown)) [nl] = shown" if "length (Split nl shown) \<le> 50"
    using that Join_Split [of nl shown] by (simp add: cut_lines_def maxBodyLines_def)
  have p: "shown = body \<and> err = []"
    if "body \<noteq> []" "\<not> IsBinary (sc_chroma S) body ct" "lexerForMIME (ch_mediaType (sc_chroma S) ct) = []"
      "\<forall>reg. ro_Decoder opts = Some reg \<longrightarrow> RegistryDecode reg body ct dm = Inl ErrNoDecoder"
    using assms(3) out(2) that(4) plain_text_shown [OF that(1-3)] by (auto simp: decoded_body_def split: option.splits)
  from out(2) m n j p show ?thesis by blast
qed

definition plain_screen :: screen where
  "plain_screen = \<lparr>sc_style = (\<lambda>_ s. s), sc_wide = (\<lambda>_ _ s. s), sc_place = (\<lambda>_ _ s. s), sc_secs = (\<lambda>_. []),
     sc_chroma = \<lparr>ch_mediaType = (\<lambda>s. s), ch_indent = (\<lambda>_. None), ch_lexer = (\<lambda>_. None)\<rparr>\<rparr>"

definition plain_opts :: renderOpts where
  "plain_opts = \<lparr>ro_DarkBg = True, ro_PrettyJSON = True, ro_Collapsed = (\<lambda>_. False), ro_Decoder = None\<rparr>"

theorem detail_body_shown_witness:
  "decoded_body plain_screen (CHR 0x1B # '']52;c;eA=='' @ [CHR 0x07]) ''text/plain'' plain_opts
     \<lparr>dm_RequestPath = [], dm_Host = [], dm_IsRequest = False, dm_OriginalBody = []\<rparr> = (CHR 0x1B # '']52;c;eA=='' @ [CHR 0x07], [])"
proof -
  let ?b = "CHR 0x1B # '']52;c;eA=='' @ [CHR 0x07]"
  let ?dm = "\<lparr>dm_RequestPath = [], dm_Host = [], dm_IsRequest = False, dm_OriginalBody = []\<rparr>"
  have "\<not> IsBinary (sc_chroma plain_screen) ?b ''text/plain''" "lexerForMIME (ch_mediaType (sc_chroma plain_screen) ''text/plain'') = []"
    by code_simp+
  moreover obtain out err shown err1 where r: "renderBody plain_screen ?b ''text/plain'' plain_opts ?dm = (out, err)"
    "decoded_body plain_screen ?b ''text/plain'' plain_opts ?dm = (shown, err1)" by (metis prod.exhaust)
  moreover have "\<forall>x. nl \<notin> set (sc_style plain_screen ''Muted'' x) \<or> nl \<in> set x" by (simp add: plain_screen_def)
  moreover have "\<forall>reg. ro_Decoder plain_opts = Some reg \<longrightarrow> RegistryDecode reg ?b ''text/plain'' ?dm = Inl ErrNoDecoder"
    by (simp add: plain_opts_def)
  ultimately have "shown = ?b \<and> err = []" "err = err1"
    using detail_body_shown [of plain_screen ?b "''text/plain''" plain_opts ?dm out err shown err1] by blast+
  with r(2) show ?thesis by simp
qed

end
