(* ===== verification/Tui_State.thy ===== *)
theory Tui_State
  imports Tui_Send Tui_Detail Flow_Filter Flow_Diff Config
begin

section \<open>The state of the terminal UI (internal/tui/app.go)\<close>

text \<open>
  \<open>App\<close> has the fields of the Go struct.  The components it was given (store, proxy as throttle
  port, script manager, breakpoint controller) are part of the state, with \<open>None\<close> for a nil
  interface; \<open>ap_disk\<close> is the file system of the configuration and the exports.  Bubble Tea's
  widgets have the type \<open>'w\<close> and the operations of \<open>ui_env\<close>, which also holds what else is outside:
  the order of equal groups, regular expressions, goja, os.CreateTemp, JSON, the clock, the image
  renderer, and the styles of lipgloss (\<open>screen\<close>).  A step ends with a new state and a command, or stops
  the program: \<open>Crash\<close> is a panic, \<open>Hang\<close> a send that blocks for ever.  A key is what
  \<open>KeyPressMsg.String\<close> returns, all that the code looks at.
\<close>

type_synonym key = string

datatype ui_msg = WindowSizeMsg int int | TickMsg | editorFinishedMsg | scriptEditorFinishedMsg
  | KeyPressMsg key | OtherMsg string

datatype cmd = NoCmd | Quit | TickCmd | Blink | Printf string | EditBody string string
  | EditScript string | SendReq wire_request | Clipboard string

datatype ui_stop = Crash go_panic | Hang

type_synonym 'a ui = "ui_stop + 'a"

datatype listMode = modeFlat | modeTree | modeFocus

datatype groupBy = groupByHost | groupByProcess

record 'w ui_env =
  ui_zero :: 'w
  ti_New :: 'w
  ti_Limit :: "nat \<Rightarrow> 'w \<Rightarrow> 'w"
  ti_Value :: "'w \<Rightarrow> string"
  ti_SetValue :: "string \<Rightarrow> 'w \<Rightarrow> 'w"
  ti_Focus :: "'w \<Rightarrow> 'w"
  ti_Blur :: "'w \<Rightarrow> 'w"
  ti_Focused :: "'w \<Rightarrow> bool"
  ti_Update :: "ui_msg \<Rightarrow> 'w \<Rightarrow> 'w"
  ti_View :: "'w \<Rightarrow> string"
  ta_New :: 'w
  ta_Value :: "'w \<Rightarrow> string"
  ta_SetValue :: "string \<Rightarrow> 'w \<Rightarrow> 'w"
  ta_Focus :: "'w \<Rightarrow> 'w"
  ta_Blur :: "'w \<Rightarrow> 'w"
  ta_Update :: "ui_msg \<Rightarrow> 'w \<Rightarrow> 'w"
  ta_View :: "'w \<Rightarrow> string"
  vp_New :: "int \<Rightarrow> int \<Rightarrow> 'w"
  vp_SetContent :: "string \<Rightarrow> 'w \<Rightarrow> 'w"
  vp_SetSize :: "int \<Rightarrow> int \<Rightarrow> 'w \<Rightarrow> 'w"
  vp_SetYOffset :: "int \<Rightarrow> 'w \<Rightarrow> 'w"
  vp_Scroll :: "int \<Rightarrow> 'w \<Rightarrow> 'w"
  vp_HalfPage :: "bool \<Rightarrow> 'w \<Rightarrow> 'w"
  vp_View :: "'w \<Rightarrow> string"
  vp_ScrollPct :: "'w \<Rightarrow> int"
  ue_sort :: group_sort
  ue_re :: regexp
  ue_goja :: goja
  ue_temp :: temp_name
  ue_unmarshal :: "string \<Rightarrow> Config or_err"
  ue_marshal :: "Config \<Rightarrow> string or_err"
  ue_har :: "HARLog \<Rightarrow> string or_err"
  ue_time :: "int \<Rightarrow> string"
  ue_now :: string
  ue_newreq :: "string \<Rightarrow> string \<Rightarrow> string option"
  ue_image :: "string \<Rightarrow> int \<Rightarrow> int \<Rightarrow> string option"
  ue_screen :: screen
  ue_darkBg :: bool

record menuItem =
  mi_label :: string
  mi_key :: key

record 'w App =
  ap_store :: RingBuffer
  ap_proxyAddr :: "string option"
  ap_caTrusted :: bool
  ap_showDetail :: bool
  ap_selectedID :: FlowID
  ap_selectedIdx :: int
  ap_flows :: "FlowMeta list"
  ap_totalFlows :: nat
  ap_listOffset :: int
  ap_filterInput :: 'w
  ap_filterText :: string
  ap_storeFilter :: "Filter option"
  ap_listMode :: listMode
  ap_treeGroupBy :: groupBy
  ap_focusKey :: string
  ap_groupExpanded :: "string \<Rightarrow> bool"
  ap_treeRows :: "treeRow list"
  ap_showMenu :: bool
  ap_menuItems :: "menuItem list"
  ap_menuCursor :: int
  ap_showHelp :: bool
  ap_showDiff :: bool
  ap_diffMarkID :: FlowID
  ap_diffContent :: string
  ap_showExport :: bool
  ap_exportInput :: 'w
  ap_exportSingle :: bool
  ap_showCompose :: bool
  ap_composeMethod :: string
  ap_composeURL :: 'w
  ap_composeHeaders :: 'w
  ap_composeBody :: 'w
  ap_composeFocus :: int
  ap_scripts :: "Manager option"
  ap_showScripts :: bool
  ap_scriptsCursor :: int
  ap_scriptsList :: "ScriptInfo list"
  ap_scriptsConfirmDelete :: bool
  ap_scriptsAddMapLocal :: bool
  ap_scriptsMLPattern :: 'w
  ap_scriptsMLPath :: 'w
  ap_scriptsMLFocus :: int
  ap_throttle :: "proxy option"
  ap_showThrottle :: bool
  ap_throttleCursor :: int
  ap_mcp :: "Server option"
  ap_dataDir :: string
  ap_disk :: fsys
  ap_showSettings :: bool
  ap_settingsCursor :: int
  ap_settingsEditing :: bool
  ap_settingsInput :: 'w
  ap_settingsConfig :: "Config option"
  ap_breakpoints :: "controller option"
  ap_showBreakpointQueue :: bool
  ap_breakpointCursor :: int
  ap_breakpointPending :: "BreakpointHit list"
  ap_editingBreakpoint :: "BreakpointHit option"
  ap_bpHeadersTA :: 'w
  ap_bpBodyTA :: 'w
  ap_bpFocusedPane :: nat
  ap_breakpointHitCount :: nat
  ap_breakpointSub :: "nat option"
  ap_detailSearch :: bool
  ap_searchInput :: 'w
  ap_searchQuery :: string
  ap_searchMatchCount :: int
  ap_searchMatchIdx :: int
  ap_detailTab :: nat
  ap_detailVP :: 'w
  ap_detailReady :: bool
  ap_detailRaw :: bool
  ap_detailImagePreview :: bool
  ap_detailCollapsed :: "string \<Rightarrow> bool"
  ap_detailDecodeErr :: string
  ap_bodyDecoder :: "Registry option"
  ap_darkBg :: bool
  ap_width :: int
  ap_height :: int
  ap_ready :: bool

text \<open>\<open>slices.IndexFunc\<close>, with \<open>None\<close> for -1, and a Go index expression on a slice.\<close>

fun IndexFunc :: "('a \<Rightarrow> bool) \<Rightarrow> 'a list \<Rightarrow> nat option" where
  "IndexFunc P [] = None"
| "IndexFunc P (x # xs) = (if P x then Some 0 else map_option Suc (IndexFunc P xs))"

lemma IndexFunc_Some: "IndexFunc P xs = Some i \<Longrightarrow> i < length xs \<and> P (xs ! i)"
  by (induction xs arbitrary: i) (auto split: if_splits)

lemma IndexFunc_None: "IndexFunc P xs = None \<longleftrightarrow> (\<forall>x \<in> set xs. \<not> P x)"
  by (induction xs) auto

definition at :: "'a list \<Rightarrow> int \<Rightarrow> 'a ui" where
  "at xs i = (if 0 \<le> i \<and> i < int (length xs) then Inr (xs ! nat i) else Inl (Crash IndexOutOfRange))"

definition and_then :: "'a ui \<Rightarrow> ('a \<Rightarrow> 'b ui) \<Rightarrow> 'b ui" where
  "and_then r f = (case r of Inl e \<Rightarrow> Inl e | Inr x \<Rightarrow> f x)"

definition chosen :: "'a list \<Rightarrow> int \<Rightarrow> ('a \<Rightarrow> 'b ui) \<Rightarrow> 'b ui \<Rightarrow> 'b ui" where
  "chosen xs i f otherwise = (if i < int (length xs) then and_then (at xs i) f else otherwise)"

text \<open>\<open>chosen\<close> is the pattern \<open>if i < len(xs) { x := xs[i]; ... }\<close>: a negative index passes the guard.\<close>

lemma and_then_simps [simp]: "and_then (Inl e) f = Inl e" "and_then (Inr x) f = f x"
  by (simp_all add: and_then_def)

lemma chosen_ok: "0 \<le> i \<Longrightarrow> chosen xs i f otherwise = (if i < int (length xs) then f (xs ! nat i) else otherwise)"
  by (simp add: chosen_def at_def)

lemma chosen_negative: "i < 0 \<Longrightarrow> chosen xs i f otherwise = Inl (Crash IndexOutOfRange)"
  by (simp add: chosen_def at_def)

definition stay :: "'w App \<Rightarrow> ('w App \<times> cmd) ui" where
  "stay a = Inr (a, NoCmd)"

definition openInEditor :: "string \<Rightarrow> string \<Rightarrow> cmd" where
  "openInEditor body ct = (if length body = 0 then NoCmd else EditBody body (contentTypeToExt ct))"

definition proxyAddr :: "'w App \<Rightarrow> string" where
  "proxyAddr a = (case ap_proxyAddr a of Some addr \<Rightarrow> addr | None \<Rightarrow> '':8080'')"

subsection \<open>The flow list\<close>

definition treeKeyFn :: "'w App \<Rightarrow> FlowMeta \<Rightarrow> string" where
  "treeKeyFn a = (if ap_treeGroupBy a = groupByProcess then processKey else hostKey)"

definition list_limit :: "'w App \<Rightarrow> int" where
  "list_limit a = (if ap_listMode a = modeFlat then max (ap_height a - 4) 50 else 0)"

definition refreshFlows :: "'w ui_env \<Rightarrow> 'w App \<Rightarrow> 'w App ui" where
  "refreshFlows U a = (case List (ap_storeFilter a) 0 (list_limit a) (ap_store a) of
       Inl p \<Rightarrow> Inl (Crash p)
     | Inr (fls, n) \<Rightarrow>
        let a1 = a\<lparr>ap_flows := fls, ap_totalFlows := n\<rparr>;
            groups = buildGroups (ue_sort U) fls (treeKeyFn a)
        in Inr (case ap_listMode a of modeFlat \<Rightarrow> a1
            | modeTree \<Rightarrow> a1\<lparr>ap_treeRows := flattenTree groups (ap_groupExpanded a)\<rparr>
            | modeFocus \<Rightarrow> let rows = flattenFocus groups (ap_focusKey a) in
                if length rows = 0
                then a1\<lparr>ap_listMode := modeTree, ap_treeRows := flattenTree groups (ap_groupExpanded a)\<rparr>
                else a1\<lparr>ap_treeRows := rows\<rparr>))"

definition applyFilter :: "'w ui_env \<Rightarrow> 'w App \<Rightarrow> 'w App" where
  "applyFilter U a = (let t = ti_Value U (ap_filterInput a) in
     a\<lparr>ap_filterText := t,
       ap_storeFilter := (case Compile (ue_re U) t of Some af \<Rightarrow> adv_iface (Some af) | None \<Rightarrow> None),
       ap_selectedIdx := 0, ap_listOffset := 0\<rparr>)"

definition visibleLen :: "'w App \<Rightarrow> int" where
  "visibleLen a = (if ap_listMode a = modeFlat then int (length (ap_flows a)) else int (length (ap_treeRows a)))"

definition pageSize :: "'w App \<Rightarrow> int" where
  "pageSize a = max (ap_height a - 5) 1"

text \<open>\<open>None\<close> when the key is not a movement.\<close>

definition handleListNav :: "key \<Rightarrow> 'w App \<Rightarrow> 'w App option" where
  "handleListNav k a = (let n = visibleLen a; i = ap_selectedIdx a in
     if k = ''j'' \<or> k = ''down'' then Some (if i < n - 1 then a\<lparr>ap_selectedIdx := i + 1\<rparr> else a)
     else if k = ''k'' \<or> k = ''up'' then Some (if i > 0 then a\<lparr>ap_selectedIdx := i - 1\<rparr> else a)
     else if k = ''pgdown'' \<or> k = ''ctrl+d'' then Some (a\<lparr>ap_selectedIdx := min (i + pageSize a) (n - 1)\<rparr>)
     else if k = ''pgup'' \<or> k = ''ctrl+u'' then Some (a\<lparr>ap_selectedIdx := max (i - pageSize a) 0\<rparr>)
     else if k = ''g'' \<or> k = ''home'' then Some (a\<lparr>ap_selectedIdx := 0, ap_listOffset := 0\<rparr>)
     else if k = ''G'' \<or> k = ''end'' then Some (if n > 0 then a\<lparr>ap_selectedIdx := n - 1\<rparr> else a)
     else None)"

text \<open>The rows that \<open>writeRows\<close> draws and the offset it leaves behind.\<close>

definition clampOffset :: "int \<Rightarrow> 'w App \<Rightarrow> int" where
  "clampOffset cnt a = (let maxRows = max (ap_height a - 5) 0; i = ap_selectedIdx a;
       o1 = (if maxRows > 0 \<and> i < ap_listOffset a then i else ap_listOffset a);
       o2 = (if maxRows > 0 \<and> i \<ge> o1 + maxRows then i - maxRows + 1 else o1)
     in if o2 > cnt - maxRows then max (cnt - maxRows) 0 else o2)"

fun render_rows :: "(int \<Rightarrow> 'b ui) \<Rightarrow> int \<Rightarrow> int \<Rightarrow> nat \<Rightarrow> 'b list ui" where
  "render_rows renderFn i cnt 0 = Inr []"
| "render_rows renderFn i cnt (Suc left) = (if i < cnt
     then and_then (renderFn i) (\<lambda>line. and_then (render_rows renderFn (i + 1) cnt left) (\<lambda>ls. Inr (line # ls)))
     else Inr [])"

definition writeRows :: "(int \<Rightarrow> 'b ui) \<Rightarrow> int \<Rightarrow> 'w App \<Rightarrow> ('b list \<times> 'w App) ui" where
  "writeRows renderFn cnt a = (let off = clampOffset cnt a in
     and_then (render_rows renderFn off cnt (nat (max (ap_height a - 5) 0)))
       (\<lambda>lines. Inr (lines, a\<lparr>ap_listOffset := off\<rparr>)))"

end
