(* ===== verification/Tui_Modals.thy ===== *)
theory Tui_Modals
  imports Tui_State
begin

section \<open>The modal screens (internal/tui: throttle, settings, scripts, breakpoint, compose, export)\<close>

text \<open>
  Each modal has the function that opens it and the function that handles a key while it is open.
  Throttle and settings change the proxy's throttle and the configuration; the scripts modal works
  on the script files; the breakpoint modal resumes paused flows; compose and export send a request
  and write a file.
\<close>

text \<open>Moving a cursor within a list of a given length.\<close>

definition cursor_down :: "int \<Rightarrow> int \<Rightarrow> int" where
  "cursor_down n c = (if c < n - 1 then c + 1 else c)"

definition cursor_up :: "int \<Rightarrow> int" where
  "cursor_up c = (if c > 0 then c - 1 else c)"

lemma cursor_moves: "0 \<le> c \<Longrightarrow> 0 \<le> cursor_down n c" "0 \<le> c \<Longrightarrow> 0 \<le> cursor_up c"
  "c < n \<Longrightarrow> cursor_down n c < n" "c < n \<Longrightarrow> cursor_up c < n"
  by (auto simp: cursor_down_def cursor_up_def)

subsection \<open>Throttle\<close>

record throttlePreset =
  tp_name :: string
  tp_bps :: int
  tp_latency :: int

definition throttlePresets :: "throttlePreset list" where
  "throttlePresets = [\<lparr>tp_name = ''None'', tp_bps = 0, tp_latency = 0\<rparr>,
     \<lparr>tp_name = ''3G (750 kbps, 100ms)'', tp_bps = PresetBandwidth ''3g'', tp_latency = 100000000\<rparr>,
     \<lparr>tp_name = ''4G (4 Mbps, 50ms)'', tp_bps = PresetBandwidth ''4g'', tp_latency = 50000000\<rparr>,
     \<lparr>tp_name = ''WiFi (30 Mbps, 5ms)'', tp_bps = PresetBandwidth ''wifi'', tp_latency = 5000000\<rparr>]"

definition activeThrottlePreset :: "'w App \<Rightarrow> int" where
  "activeThrottlePreset a = (case ap_throttle a of None \<Rightarrow> 0
     | Some px \<Rightarrow> (case IndexFunc (\<lambda>p. tp_bps p = GetThrottleBPS px) throttlePresets of
         Some i \<Rightarrow> int i | None \<Rightarrow> 0))"

definition initThrottle :: "'w App \<Rightarrow> 'w App" where
  "initThrottle a = a\<lparr>ap_showThrottle := True, ap_throttleCursor := activeThrottlePreset a\<rparr>"

definition updateThrottle :: "key \<Rightarrow> 'w App \<Rightarrow> ('w App \<times> cmd) ui" where
  "updateThrottle k a =
     (if k = ''esc'' \<or> k = ''T'' then stay (a\<lparr>ap_showThrottle := False\<rparr>)
      else if k = ''j'' \<or> k = ''down'' then stay (a\<lparr>ap_throttleCursor := cursor_down (int (length throttlePresets)) (ap_throttleCursor a)\<rparr>)
      else if k = ''k'' \<or> k = ''up'' then stay (a\<lparr>ap_throttleCursor := cursor_up (ap_throttleCursor a)\<rparr>)
      else if k = ''enter'' then
        (case ap_throttle a of None \<Rightarrow> stay (a\<lparr>ap_showThrottle := False\<rparr>)
         | Some px \<Rightarrow> chosen throttlePresets (ap_throttleCursor a)
             (\<lambda>p. stay (a\<lparr>ap_throttle := Some (p_SetThrottle (tp_bps p) (tp_latency p) px), ap_showThrottle := False\<rparr>))
             (stay (a\<lparr>ap_showThrottle := False\<rparr>)))
      else stay a)"

definition throttleStatusLabel :: "'w App \<Rightarrow> string" where
  "throttleStatusLabel a = (case ap_throttle a of None \<Rightarrow> []
     | Some px \<Rightarrow> let bps = GetThrottleBPS px in if bps \<le> 0 then []
         else case find (\<lambda>p. tp_bps p = bps) (tl throttlePresets) of Some p \<Rightarrow> tp_name p
           | None \<Rightarrow> Itoa bps @ '' B/s'')"

subsection \<open>Settings\<close>

record settingsField =
  sg_label :: string
  sg_kind :: string
  sg_options :: "string list"
  sg_restart :: bool
  sg_get :: "Config \<Rightarrow> string"
  sg_set :: "string \<Rightarrow> Config \<Rightarrow> Config"

definition settingsFields :: "settingsField list" where
  "settingsFields = [
     \<lparr>sg_label = ''Proxy Port'', sg_kind = ''int'', sg_options = [], sg_restart = True,
      sg_get = (\<lambda>c. Itoa (cf_ProxyPort c)),
      sg_set = (\<lambda>v c. case Atoi v of Some n \<Rightarrow> if n > 0 \<and> n \<le> 65535 then c\<lparr>cf_ProxyPort := n\<rparr> else c | None \<Rightarrow> c)\<rparr>,
     \<lparr>sg_label = ''MCP Enabled'', sg_kind = ''bool'', sg_options = [], sg_restart = True,
      sg_get = (\<lambda>c. show_bool (cf_MCPEnabled c)), sg_set = (\<lambda>v c. c\<lparr>cf_MCPEnabled := (v = ''true'')\<rparr>)\<rparr>,
     \<lparr>sg_label = ''MCP Address'', sg_kind = ''string'', sg_options = [], sg_restart = True,
      sg_get = cf_MCPAddr, sg_set = (\<lambda>v c. c\<lparr>cf_MCPAddr := v\<rparr>)\<rparr>,
     \<lparr>sg_label = ''Buffer Size'', sg_kind = ''int'', sg_options = [], sg_restart = True,
      sg_get = (\<lambda>c. Itoa (cf_BufferSize c)),
      sg_set = (\<lambda>v c. case Atoi v of Some n \<Rightarrow> if n > 0 then c\<lparr>cf_BufferSize := n\<rparr> else c | None \<Rightarrow> c)\<rparr>,
     \<lparr>sg_label = ''Throttle Preset'', sg_kind = ''enum'', sg_options = [[], ''3g'', ''4g'', ''wifi''], sg_restart = False,
      sg_get = cf_ThrottlePreset, sg_set = (\<lambda>v c. c\<lparr>cf_ThrottlePreset := v\<rparr>)\<rparr>,
     \<lparr>sg_label = ''List Mode'', sg_kind = ''enum'', sg_options = [[], ''flat'', ''tree''], sg_restart = False,
      sg_get = cf_ListMode, sg_set = (\<lambda>v c. c\<lparr>cf_ListMode := v\<rparr>)\<rparr>,
     \<lparr>sg_label = ''Tree Group By'', sg_kind = ''enum'', sg_options = [[], ''host'', ''process''], sg_restart = False,
      sg_get = cf_TreeGroupBy, sg_set = (\<lambda>v c. c\<lparr>cf_TreeGroupBy := v\<rparr>)\<rparr>]"

definition initSettings :: "'w ui_env \<Rightarrow> 'w App \<Rightarrow> 'w App" where
  "initSettings U a = (let a1 = a\<lparr>ap_showSettings := True, ap_settingsCursor := 0, ap_settingsEditing := False\<rparr>
     in case Load (ue_unmarshal U) (ap_dataDir a) (ap_disk a) of Inl _ \<Rightarrow> a1
      | Inr cfg \<Rightarrow> a1\<lparr>ap_settingsConfig := Some cfg\<rparr>)"

definition updateSettingsInput :: "'w ui_env \<Rightarrow> key \<Rightarrow> 'w App \<Rightarrow> ('w App \<times> cmd) ui" where
  "updateSettingsInput U k a =
     (if k = ''enter'' then
        (case ap_settingsConfig a of None \<Rightarrow> stay (a\<lparr>ap_settingsEditing := False\<rparr>)
         | Some c \<Rightarrow> and_then (at settingsFields (ap_settingsCursor a))
             (\<lambda>f. stay (a\<lparr>ap_settingsConfig := Some (sg_set f (ti_Value U (ap_settingsInput a)) c), ap_settingsEditing := False\<rparr>)))
      else if k = ''esc'' then stay (a\<lparr>ap_settingsEditing := False\<rparr>)
      else Inr (a\<lparr>ap_settingsInput := ti_Update U (KeyPressMsg k) (ap_settingsInput a)\<rparr>, Blink))"

text \<open>The next option of an enumeration, after the current one or after the first.\<close>

definition next_option :: "string list \<Rightarrow> string \<Rightarrow> string" where
  "next_option opts cur = (let idx = (case IndexFunc (\<lambda>x. x = cur) opts of Some i \<Rightarrow> i | None \<Rightarrow> 0)
     in opts ! ((idx + 1) mod length opts))"

definition enterSetting :: "'w ui_env \<Rightarrow> Config \<Rightarrow> settingsField \<Rightarrow> 'w App \<Rightarrow> ('w App \<times> cmd) ui" where
  "enterSetting U c f a =
     (if sg_kind f = ''bool'' then stay (a\<lparr>ap_settingsConfig := Some (sg_set f (show_bool (sg_get f c \<noteq> ''true'')) c)\<rparr>)
      else if sg_kind f = ''enum'' then stay (a\<lparr>ap_settingsConfig := Some (sg_set f (next_option (sg_options f) (sg_get f c)) c)\<rparr>)
      else if sg_kind f = ''int'' \<or> sg_kind f = ''string'' then
        Inr (a\<lparr>ap_settingsEditing := True,
               ap_settingsInput := ti_Focus U (ti_Limit U 64 (ti_SetValue U (sg_get f c) (ti_New U)))\<rparr>, Blink)
      else stay a)"

definition updateSettings :: "'w ui_env \<Rightarrow> key \<Rightarrow> 'w App \<Rightarrow> ('w App \<times> cmd) ui" where
  "updateSettings U k a =
     (if ap_settingsEditing a then updateSettingsInput U k a
      else if k = ''esc'' \<or> k = ''P'' then
        stay (a\<lparr>ap_disk := (case ap_settingsConfig a of None \<Rightarrow> ap_disk a
                  | Some c \<Rightarrow> snd (Save (ue_marshal U) c (ap_dataDir a) (ap_disk a))), ap_showSettings := False\<rparr>)
      else if k = ''j'' \<or> k = ''down'' then stay (a\<lparr>ap_settingsCursor := cursor_down (int (length settingsFields)) (ap_settingsCursor a)\<rparr>)
      else if k = ''k'' \<or> k = ''up'' then stay (a\<lparr>ap_settingsCursor := cursor_up (ap_settingsCursor a)\<rparr>)
      else if k = ''enter'' then
        (case ap_settingsConfig a of None \<Rightarrow> stay a
         | Some c \<Rightarrow> and_then (at settingsFields (ap_settingsCursor a)) (\<lambda>f. enterSetting U c f a))
      else stay a)"

subsection \<open>Scripts\<close>

definition with_manager :: "'w App \<Rightarrow> (Manager \<Rightarrow> 'b ui) \<Rightarrow> 'b ui" where
  "with_manager a f = (case ap_scripts a of None \<Rightarrow> Inl (Crash NilDeref) | Some m \<Rightarrow> f m)"

text \<open>\<open>a.scriptsList = a.scripts.Scripts()\<close>\<close>

definition relist :: "'w ui_env \<Rightarrow> Manager \<Rightarrow> 'w App \<Rightarrow> 'w App" where
  "relist U m a = (case m_Scripts (ue_goja U) m of (infos, m1) \<Rightarrow> a\<lparr>ap_scripts := Some m1, ap_scriptsList := infos\<rparr>)"

definition initScripts :: "'w ui_env \<Rightarrow> 'w App \<Rightarrow> 'w App" where
  "initScripts U a = (let a1 = a\<lparr>ap_showScripts := True, ap_scriptsCursor := 0, ap_scriptsConfirmDelete := False\<rparr>
     in case ap_scripts a of None \<Rightarrow> a1 | Some m \<Rightarrow> relist U (m_Reload (ue_goja U) m) a1)"

definition updateScriptsMapLocalAdd :: "'w ui_env \<Rightarrow> key \<Rightarrow> 'w App \<Rightarrow> ('w App \<times> cmd) ui" where
  "updateScriptsMapLocalAdd U k a =
     (if k = ''esc'' then stay (a\<lparr>ap_scriptsAddMapLocal := False\<rparr>)
      else if k = ''tab'' then
        (if ap_scriptsMLFocus a = 0
         then Inr (a\<lparr>ap_scriptsMLFocus := 1, ap_scriptsMLPattern := ti_Blur U (ap_scriptsMLPattern a),
                     ap_scriptsMLPath := ti_Focus U (ap_scriptsMLPath a)\<rparr>, Blink)
         else Inr (a\<lparr>ap_scriptsMLFocus := 0, ap_scriptsMLPath := ti_Blur U (ap_scriptsMLPath a),
                     ap_scriptsMLPattern := ti_Focus U (ap_scriptsMLPattern a)\<rparr>, Blink))
      else if k = ''enter'' then
        (let pattern = ti_Value U (ap_scriptsMLPattern a); localPath = ti_Value U (ap_scriptsMLPath a);
             a1 = (case ap_scripts a of None \<Rightarrow> a
               | Some m \<Rightarrow> if pattern \<noteq> [] \<and> localPath \<noteq> []
                   then relist U (snd (m_QuickAddMapLocal (ue_goja U) (ue_temp U) pattern localPath m)) a else a)
         in stay (a1\<lparr>ap_scriptsAddMapLocal := False\<rparr>))
      else if ap_scriptsMLFocus a = 0
      then Inr (a\<lparr>ap_scriptsMLPattern := ti_Update U (KeyPressMsg k) (ap_scriptsMLPattern a)\<rparr>, Blink)
      else Inr (a\<lparr>ap_scriptsMLPath := ti_Update U (KeyPressMsg k) (ap_scriptsMLPath a)\<rparr>, Blink))"

text \<open>The answer to the question whether to delete: only y deletes, and the cursor stays on the list.\<close>

definition confirmDelete :: "'w ui_env \<Rightarrow> key \<Rightarrow> 'w App \<Rightarrow> ('w App \<times> cmd) ui" where
  "confirmDelete U k a =
     (if k = ''y'' \<or> k = ''Y'' then
        chosen (ap_scriptsList a) (ap_scriptsCursor a)
          (\<lambda>info. with_manager a (\<lambda>m.
             let a1 = relist U (snd (m_Delete (ue_goja U) (si_FilePath info) m)) a;
                 n = int (length (ap_scriptsList a1))
             in stay (a1\<lparr>ap_scriptsCursor := (if ap_scriptsCursor a \<ge> n then max (n - 1) 0 else ap_scriptsCursor a),
                         ap_scriptsConfirmDelete := False\<rparr>)))
          (stay (a\<lparr>ap_scriptsConfirmDelete := False\<rparr>))
      else stay (a\<lparr>ap_scriptsConfirmDelete := False\<rparr>))"

definition updateScripts :: "'w ui_env \<Rightarrow> key \<Rightarrow> 'w App \<Rightarrow> ('w App \<times> cmd) ui" where
  "updateScripts U k a =
     (if ap_scriptsAddMapLocal a then updateScriptsMapLocalAdd U k a
      else if ap_scriptsConfirmDelete a then confirmDelete U k a
      else if k = ''esc'' \<or> k = ''S'' then stay (a\<lparr>ap_showScripts := False\<rparr>)
      else if k = ''j'' \<or> k = ''down'' then stay (a\<lparr>ap_scriptsCursor := cursor_down (int (length (ap_scriptsList a))) (ap_scriptsCursor a)\<rparr>)
      else if k = ''k'' \<or> k = ''up'' then stay (a\<lparr>ap_scriptsCursor := cursor_up (ap_scriptsCursor a)\<rparr>)
      else if k = ''space'' then
        chosen (ap_scriptsList a) (ap_scriptsCursor a)
          (\<lambda>info. with_manager a (\<lambda>m. stay (relist U (snd (m_Toggle (ue_goja U) (si_FilePath info) m)) a))) (stay a)
      else if k = ''e'' then
        chosen (ap_scriptsList a) (ap_scriptsCursor a) (\<lambda>info. Inr (a, EditScript (si_FilePath info))) (stay a)
      else if k = ''n'' then
        with_manager a (\<lambda>m. case m_CreateNew (ue_temp U) m of
            (Inl _, m1) \<Rightarrow> stay (a\<lparr>ap_scripts := Some m1\<rparr>)
          | (Inr path, m1) \<Rightarrow> Inr (a\<lparr>ap_scripts := Some m1\<rparr>, EditScript path))
      else if k = ''m'' then
        Inr (a\<lparr>ap_scriptsAddMapLocal := True, ap_scriptsMLFocus := 0,
               ap_scriptsMLPattern := ti_Focus U (ti_Limit U 256 (ti_New U)),
               ap_scriptsMLPath := ti_Limit U 512 (ti_New U)\<rparr>, Blink)
      else if k = ''d'' then
        stay (if ap_scriptsCursor a < int (length (ap_scriptsList a)) then a\<lparr>ap_scriptsConfirmDelete := True\<rparr> else a)
      else stay a)"

end
