(* ===== verification/Tui_Forms.thy ===== *)
theory Tui_Forms
  imports Tui_Modals Flow_Lifecycle
begin

section \<open>The breakpoint editor and the forms (internal/tui: breakpoint.go, compose.go, export.go)\<close>

text \<open>
  The queue of paused flows with its editor, the form that composes a request and the one that
  names an export file.  A resume is a send on a channel of the breakpoint controller; \<open>Hang\<close> is
  a send that cannot be made.
\<close>

subsection \<open>Breakpoints\<close>

text \<open>The select loop of \<open>drainBreakpointSub\<close>: receive until the buffer is empty.\<close>

function drain_sub :: "nat \<Rightarrow> nat \<times> controller \<Rightarrow> nat \<times> controller" where
  "drain_sub i (n, c) = (case sub_recv i c of None \<Rightarrow> (n, c) | Some (_, c1) \<Rightarrow> drain_sub i (n + 1, c1))"
  by pat_completeness auto
termination
  by (relation "measure (\<lambda>(i, (n, c)). length (c_subscribers c ! i))")
    (auto simp: sub_recv_def split: if_splits list.splits)

declare drain_sub.simps [simp del]

definition drainBreakpointSub :: "'w App \<Rightarrow> 'w App" where
  "drainBreakpointSub a = (case ap_breakpoints a of None \<Rightarrow> a
     | Some c \<Rightarrow>
        let (i, c1) = (case ap_breakpointSub a of Some i \<Rightarrow> (i, c) | None \<Rightarrow> Subscribe c);
            (n, c2) = drain_sub i (ap_breakpointHitCount a, c1)
        in a\<lparr>ap_breakpoints := Some c2, ap_breakpointSub := Some i, ap_breakpointHitCount := n\<rparr>)"

definition refreshBreakpointPending :: "'w App \<Rightarrow> 'w App" where
  "refreshBreakpointPending a = (case ap_breakpoints a of None \<Rightarrow> a
     | Some c \<Rightarrow> a\<lparr>ap_breakpointPending := sort_key bh_FlowID (Pending c)\<rparr>)"

definition initBreakpointQueue :: "'w App \<Rightarrow> 'w App" where
  "initBreakpointQueue a = refreshBreakpointPending
     (a\<lparr>ap_showBreakpointQueue := True, ap_breakpointCursor := 0, ap_editingBreakpoint := None\<rparr>)"

definition initBreakpointEditor :: "'w ui_env \<Rightarrow> BreakpointHit \<Rightarrow> 'w App \<Rightarrow> 'w App" where
  "initBreakpointEditor U hit a = a\<lparr>ap_editingBreakpoint := Some hit,
     ap_bpHeadersTA := ta_Focus U (ta_SetValue U (formatHeadersForEditor (bh_Headers hit)) (ta_New U)),
     ap_bpBodyTA := ta_SetValue U (bh_Body hit) (ta_New U), ap_bpFocusedPane := 0\<rparr>"

text \<open>Close the queue when nothing is pending.\<close>

definition close_if_idle :: "'w App \<Rightarrow> 'w App" where
  "close_if_idle a = (if length (ap_breakpointPending a) = 0 then a\<lparr>ap_showBreakpointQueue := False\<rparr> else a)"

text \<open>A call on the controller that ends, hangs, or dereferences nil.\<close>

definition with_controller :: "'w App \<Rightarrow> (controller \<Rightarrow> controller option) \<Rightarrow> ('w App \<Rightarrow> 'b ui) \<Rightarrow> 'b ui" where
  "with_controller a f k = (case ap_breakpoints a of None \<Rightarrow> Inl (Crash NilDeref)
     | Some c \<Rightarrow> (case f c of None \<Rightarrow> Inl Hang | Some c1 \<Rightarrow> k (a\<lparr>ap_breakpoints := Some c1\<rparr>)))"

definition resumeEdited :: "BreakpointHit \<Rightarrow> BreakpointResume \<Rightarrow> 'w App \<Rightarrow> ('w App \<times> cmd) ui" where
  "resumeEdited hit resp a = with_controller a (Resume (bh_FlowID hit) resp)
     (\<lambda>a1. stay (close_if_idle (refreshBreakpointPending (a1\<lparr>ap_editingBreakpoint := None\<rparr>))))"

definition updateBreakpointEditor :: "'w ui_env \<Rightarrow> key \<Rightarrow> BreakpointHit \<Rightarrow> 'w App \<Rightarrow> ('w App \<times> cmd) ui" where
  "updateBreakpointEditor U k hit a =
     (if k = ''esc'' then resumeEdited hit skip_resume a
      else if k = ''ctrl+s'' then
        resumeEdited hit \<lparr>br_Headers = parseHeadersFromEditor (ta_Value U (ap_bpHeadersTA a)),
          br_Body = Some (ta_Value U (ap_bpBodyTA a)), br_Skipped = False\<rparr> a
      else if k = ''tab'' then
        (if ap_bpFocusedPane a = 0
         then stay (a\<lparr>ap_bpFocusedPane := 1, ap_bpHeadersTA := ta_Blur U (ap_bpHeadersTA a), ap_bpBodyTA := ta_Focus U (ap_bpBodyTA a)\<rparr>)
         else stay (a\<lparr>ap_bpFocusedPane := 0, ap_bpBodyTA := ta_Blur U (ap_bpBodyTA a), ap_bpHeadersTA := ta_Focus U (ap_bpHeadersTA a)\<rparr>))
      else if k = ''E'' then Inr (a, openInEditor (ta_Value U (ap_bpBodyTA a)) (fm_ContentType (bh_Meta hit)))
      else if ap_bpFocusedPane a = 0
      then Inr (a\<lparr>ap_bpHeadersTA := ta_Update U (KeyPressMsg k) (ap_bpHeadersTA a)\<rparr>, Blink)
      else Inr (a\<lparr>ap_bpBodyTA := ta_Update U (KeyPressMsg k) (ap_bpBodyTA a)\<rparr>, Blink))"

definition clampBreakpointCursor :: "int \<Rightarrow> 'w App \<Rightarrow> 'w App" where
  "clampBreakpointCursor n a = (if ap_breakpointCursor a \<ge> n then a\<lparr>ap_breakpointCursor := max (n - 1) 0\<rparr> else a)"

definition updateBreakpointQueue :: "'w ui_env \<Rightarrow> key \<Rightarrow> 'w App \<Rightarrow> ('w App \<times> cmd) ui" where
  "updateBreakpointQueue U k a0 =
     (let a = refreshBreakpointPending a0; n = int (length (ap_breakpointPending a)) in
      if n = 0 \<or> k = ''esc'' \<or> k = ''B'' then stay (a\<lparr>ap_showBreakpointQueue := False\<rparr>)
      else and_then
        (if k = ''j'' \<or> k = ''down'' then Inr (a\<lparr>ap_breakpointCursor := cursor_down n (ap_breakpointCursor a)\<rparr>)
         else if k = ''k'' \<or> k = ''up'' then Inr (a\<lparr>ap_breakpointCursor := cursor_up (ap_breakpointCursor a)\<rparr>)
         else if k = ''enter'' then
           chosen (ap_breakpointPending a) (ap_breakpointCursor a) (\<lambda>hit. Inr (initBreakpointEditor U hit a)) (Inr a)
         else if k = ''A'' then
           (case ap_breakpoints a of None \<Rightarrow> Inr a
            | Some _ \<Rightarrow> with_controller a ResumeAll (\<lambda>a1. Inr (close_if_idle (refreshBreakpointPending a1))))
         else Inr a)
        (\<lambda>a1. stay (clampBreakpointCursor n a1)))"

definition updateBreakpoint :: "'w ui_env \<Rightarrow> key \<Rightarrow> 'w App \<Rightarrow> ('w App \<times> cmd) ui" where
  "updateBreakpoint U k a = (case ap_editingBreakpoint a of
     Some hit \<Rightarrow> updateBreakpointEditor U k hit a | None \<Rightarrow> updateBreakpointQueue U k a)"

subsection \<open>Compose\<close>

definition composeMethods :: "string list" where
  "composeMethods = [''GET'', ''POST'', ''PUT'', ''PATCH'', ''DELETE'', ''HEAD'', ''OPTIONS'']"

definition initCompose :: "'w ui_env \<Rightarrow> 'w App \<Rightarrow> 'w App" where
  "initCompose U a = a\<lparr>ap_showCompose := True, ap_composeMethod := ''GET'', ap_composeFocus := 0,
     ap_composeURL := ti_Focus U (ti_Limit U 1024 (ti_New U)), ap_composeHeaders := ti_Limit U 2048 (ti_New U),
     ap_composeBody := ti_Limit U 4096 (ti_New U)\<rparr>"

definition focusComposeField :: "'w ui_env \<Rightarrow> 'w App \<Rightarrow> 'w App" where
  "focusComposeField U a =
     (let a1 = a\<lparr>ap_composeURL := ti_Blur U (ap_composeURL a), ap_composeHeaders := ti_Blur U (ap_composeHeaders a),
                 ap_composeBody := ti_Blur U (ap_composeBody a)\<rparr>
      in if ap_composeFocus a = 0 then a1\<lparr>ap_composeURL := ti_Focus U (ap_composeURL a1)\<rparr>
         else if ap_composeFocus a = 1 then a1\<lparr>ap_composeHeaders := ti_Focus U (ap_composeHeaders a1)\<rparr>
         else if ap_composeFocus a = 2 then a1\<lparr>ap_composeBody := ti_Focus U (ap_composeBody a1)\<rparr> else a1)"

definition sendCompose :: "'w ui_env \<Rightarrow> 'w App \<Rightarrow> ('w App \<times> cmd) ui" where
  "sendCompose U a = (case compose_request (ue_newreq U) (ap_composeMethod a) (ti_Value U (ap_composeURL a))
        (ti_Value U (ap_composeHeaders a)) (ti_Value U (ap_composeBody a)) of
       Inl e \<Rightarrow> Inr (a, Printf e) | Inr req \<Rightarrow> Inr (a\<lparr>ap_showCompose := False\<rparr>, SendReq req))"

definition updateCompose :: "'w ui_env \<Rightarrow> key \<Rightarrow> 'w App \<Rightarrow> ('w App \<times> cmd) ui" where
  "updateCompose U k a =
     (if k = ''esc'' then stay (a\<lparr>ap_showCompose := False\<rparr>)
      else if k = ''tab'' then
        (case IndexFunc (\<lambda>m. m = ap_composeMethod a) composeMethods of None \<Rightarrow> stay a
         | Some i \<Rightarrow> stay (a\<lparr>ap_composeMethod := composeMethods ! ((i + 1) mod length composeMethods)\<rparr>))
      else if k = ''ctrl+j'' then stay (focusComposeField U (a\<lparr>ap_composeFocus := (ap_composeFocus a + 1) mod 3\<rparr>))
      else if k = ''ctrl+k'' then stay (focusComposeField U (a\<lparr>ap_composeFocus := (ap_composeFocus a + 2) mod 3\<rparr>))
      else if k = ''ctrl+s'' then sendCompose U a
      else if ap_composeFocus a = 0 then Inr (a\<lparr>ap_composeURL := ti_Update U (KeyPressMsg k) (ap_composeURL a)\<rparr>, Blink)
      else if ap_composeFocus a = 1 then Inr (a\<lparr>ap_composeHeaders := ti_Update U (KeyPressMsg k) (ap_composeHeaders a)\<rparr>, Blink)
      else if ap_composeFocus a = 2 then Inr (a\<lparr>ap_composeBody := ti_Update U (KeyPressMsg k) (ap_composeBody a)\<rparr>, Blink)
      else stay a)"

subsection \<open>Export\<close>

definition initExport :: "'w ui_env \<Rightarrow> bool \<Rightarrow> 'w App \<Rightarrow> 'w App" where
  "initExport U single a = a\<lparr>ap_showExport := True, ap_exportSingle := single,
     ap_exportInput := ti_Focus U (ti_Focus U (ti_SetValue U (''httpmon-'' @ ue_now U @ ''.har'') (ti_Limit U 512 (ti_New U))))\<rparr>"

definition fetchData :: "RingBuffer \<Rightarrow> FlowID \<Rightarrow> FlowData option" where
  "fetchData rb fid = (case Get fid rb of Inr (_, d) \<Rightarrow> d | Inl _ \<Rightarrow> None)"

text \<open>The export of the listed flows, or of the selected one; the form closes in every case.\<close>

definition doExportHAR :: "'w ui_env \<Rightarrow> 'w App \<Rightarrow> ('w App \<times> cmd) ui" where
  "doExportHAR U a =
     (let filename = ti_Value U (ap_exportInput a); a1 = a\<lparr>ap_showExport := False\<rparr>;
          write = (\<lambda>fls. case Export (ue_har U) (ue_time U) fls (fetchData (ap_store a)) of
              Inl e \<Rightarrow> Inr (a1, Printf (''HAR export failed: '' @ e))
            | Inr data \<Rightarrow> (case WriteFile filename data (ap_disk a) of
                (Some e, fs) \<Rightarrow> Inr (a1\<lparr>ap_disk := fs\<rparr>, Printf (''HAR write failed: '' @ e))
              | (None, fs) \<Rightarrow> Inr (a1\<lparr>ap_disk := fs\<rparr>, Printf (''Exported to '' @ filename))))
      in if filename = [] then Inr (a1, Printf ''filename is required'')
         else if ap_exportSingle a
         then (case Get (ap_selectedID a) (ap_store a) of Inl _ \<Rightarrow> stay a1 | Inr (meta, _) \<Rightarrow> write [meta])
         else write (ap_flows a))"

definition updateExport :: "'w ui_env \<Rightarrow> key \<Rightarrow> 'w App \<Rightarrow> ('w App \<times> cmd) ui" where
  "updateExport U k a =
     (if k = ''esc'' then stay (a\<lparr>ap_showExport := False\<rparr>)
      else if k = ''enter'' then doExportHAR U a
      else Inr (a\<lparr>ap_exportInput := ti_Update U (KeyPressMsg k) (ap_exportInput a)\<rparr>, Blink))"

end
