(* ===== verification/Tui_App.thy ===== *)
theory Tui_App
  imports Tui_Forms
begin

section \<open>The list, the detail view and the event loop (internal/tui: app.go, menu.go, diffview.go)\<close>

text \<open>
  Keys of the list in its three modes, of the detail view and of the action menu, and \<open>Update\<close>,
  which gives a message to the screen on top.  A tick refreshes the flows and counts new
  breakpoint hits.
\<close>

subsection \<open>Detail view\<close>

definition renderableImageTypes :: "string list" where
  "renderableImageTypes = [''image/jpeg'', ''image/png'', ''image/gif'', ''image/webp'', ''image/bmp'']"

definition isRenderableImage :: "string \<Rightarrow> bool" where
  "isRenderableImage ct = (media_part ct \<in> set renderableImageTypes)"

definition tab_headers :: "'w App \<Rightarrow> FlowData \<Rightarrow> header" where
  "tab_headers a d = (if ap_detailTab a = 0 then fd_RequestHeaders d else fd_ResponseHeaders d)"

definition tab_body :: "'w App \<Rightarrow> FlowData \<Rightarrow> string" where
  "tab_body a d = (if ap_detailTab a = 0 then fd_RequestBody d else fd_ResponseBody d)"

definition tab_type :: "'w App \<Rightarrow> FlowData \<Rightarrow> string" where
  "tab_type a d = HGet (tab_headers a d) ''Content-Type''"

definition detailBodyIsImage :: "'w App \<Rightarrow> bool" where
  "detailBodyIsImage a = (case fetchData (ap_store a) (ap_selectedID a) of None \<Rightarrow> False
     | Some d \<Rightarrow> isRenderableImage (tab_type a d))"

definition detail_opts :: "'w App \<Rightarrow> renderOpts" where
  "detail_opts a = \<lparr>ro_DarkBg = ap_darkBg a, ro_PrettyJSON = (\<not> ap_detailRaw a), ro_Collapsed = ap_detailCollapsed a,
     ro_Decoder = ap_bodyDecoder a\<rparr>"

definition updateDetailContent :: "'w ui_env \<Rightarrow> 'w App \<Rightarrow> 'w App" where
  "updateDetailContent U a = (case Get (ap_selectedID a) (ap_store a) of
       Inl _ \<Rightarrow> a\<lparr>ap_detailVP := vp_SetContent U ''Flow no longer available. Press Esc to return.'' (ap_detailVP a)\<rparr>
     | Inr (meta, data) \<Rightarrow>
        (let preview = ap_detailImagePreview a \<and> data \<noteq> None;
             shown = (case data of Some d \<Rightarrow> if preview then ue_image U (tab_body a d) (ap_width a) (ap_height a - 5) else None
                        | None \<Rightarrow> None)
         in case shown of Some out \<Rightarrow> a\<lparr>ap_detailVP := vp_SetContent U out (ap_detailVP a)\<rparr>
          | None \<Rightarrow> (case renderDetailBody (ue_screen U) meta data (ap_detailTab a) (detail_opts a) of
              (content, err) \<Rightarrow> a\<lparr>ap_detailImagePreview := (if preview then False else ap_detailImagePreview a),
                 ap_detailDecodeErr := err, ap_detailVP := vp_SetContent U content (ap_detailVP a)\<rparr>)))"

definition initDetailViewport :: "'w ui_env \<Rightarrow> 'w App \<Rightarrow> 'w App" where
  "initDetailViewport U a = updateDetailContent U
     (a\<lparr>ap_detailVP := vp_SetYOffset U 0 (vp_New U (ap_width a) (ap_height a - 5)), ap_detailReady := True\<rparr>)"

definition openFlowDetail :: "'w ui_env \<Rightarrow> FlowID \<Rightarrow> 'w App \<Rightarrow> 'w App" where
  "openFlowDetail U fid a = initDetailViewport U (a\<lparr>ap_selectedID := fid, ap_showDetail := True, ap_detailTab := 0\<rparr>)"

definition toggleImagePreview :: "'w App \<Rightarrow> 'w App" where
  "toggleImagePreview a = (if detailBodyIsImage a then a\<lparr>ap_detailImagePreview := \<not> ap_detailImagePreview a\<rparr> else a)"

definition nextFlow :: "'w ui_env \<Rightarrow> int \<Rightarrow> 'w App \<Rightarrow> 'w App" where
  "nextFlow U delta a = (case IndexFunc (\<lambda>f. fm_ID f = ap_selectedID a) (ap_flows a) of None \<Rightarrow> a
     | Some i \<Rightarrow> let j = int i + delta in
         if 0 \<le> j \<and> j < int (length (ap_flows a))
         then updateDetailContent U (a\<lparr>ap_selectedIdx := j, ap_selectedID := fm_ID (ap_flows a ! nat j), ap_detailImagePreview := False\<rparr>)
         else a)"

definition editBody :: "'w App \<Rightarrow> ('w App \<times> cmd) ui" where
  "editBody a = (case fetchData (ap_store a) (ap_selectedID a) of None \<Rightarrow> stay a
     | Some d \<Rightarrow> Inr (a, openInEditor (tab_body a d) (tab_type a d)))"

definition copyCurl :: "'w App \<Rightarrow> ('w App \<times> cmd) ui" where
  "copyCurl a = (case Get (ap_selectedID a) (ap_store a) of Inr (meta, Some d) \<Rightarrow>
       Inr (a, Clipboard (osc52Sequence (formatCurl (fm_Method meta)
         (fm_Scheme meta @ ''://'' @ fm_Host meta @ fm_Path meta) (fd_RequestHeaders d) (fd_RequestBody d))))
     | _ \<Rightarrow> stay a)"

definition repeatRequest :: "'w ui_env \<Rightarrow> 'w App \<Rightarrow> ('w App \<times> cmd) ui" where
  "repeatRequest U a = (case buildRepeatRequest (ue_newreq U) (ap_store a) (ap_selectedID a) of
     None \<Rightarrow> Inr (a, Printf ''Cannot repeat: flow data unavailable'') | Some req \<Rightarrow> Inr (a, SendReq req))"

text \<open>\<open>strings.Count\<close>: occurrences that do not overlap, one more than the runes for the empty word.\<close>

function str_count :: "string \<Rightarrow> string \<Rightarrow> nat" where
  "str_count s w = (if w = [] then RuneCount s + 1 else case s of [] \<Rightarrow> 0
     | c # t \<Rightarrow> if HasPrefix s w then Suc (str_count (drop (length w) s) w) else str_count t w)"
  by pat_completeness auto
termination
  by (relation "measure (\<lambda>(s, w). length s)") auto

declare str_count.simps [simp del]

definition applySearch :: "'w ui_env \<Rightarrow> 'w App \<Rightarrow> 'w App" where
  "applySearch U a = (let q = ti_Value U (ap_searchInput a); a1 = a\<lparr>ap_searchQuery := q\<rparr> in
     if q = [] then a1\<lparr>ap_searchMatchCount := 0, ap_searchMatchIdx := 0\<rparr>
     else let n = int (str_count (ToLower (vp_View U (ap_detailVP a))) (ToLower q)) in
       a1\<lparr>ap_searchMatchCount := n, ap_searchMatchIdx := (if ap_searchMatchIdx a \<ge> n then 0 else ap_searchMatchIdx a)\<rparr>)"

definition searchInputKey :: "'w ui_env \<Rightarrow> key \<Rightarrow> 'w App \<Rightarrow> ('w App \<times> cmd) ui" where
  "searchInputKey U k a = (if ti_Focused U (ap_searchInput a)
     then Inr (applySearch U (a\<lparr>ap_searchInput := ti_Update U (KeyPressMsg k) (ap_searchInput a)\<rparr>), Blink)
     else stay a)"

definition updateDetailSearch :: "'w ui_env \<Rightarrow> key \<Rightarrow> 'w App \<Rightarrow> ('w App \<times> cmd) ui" where
  "updateDetailSearch U k a =
     (if k = ''esc'' then stay (updateDetailContent U (a\<lparr>ap_detailSearch := False, ap_searchQuery := [],
          ap_searchMatchCount := 0, ap_searchMatchIdx := 0, ap_searchInput := ti_Blur U (ap_searchInput a)\<rparr>))
      else if k = ''enter'' then stay (a\<lparr>ap_searchInput := ti_Blur U (ap_searchInput a)\<rparr>)
      else if k = ''n'' \<and> \<not> ti_Focused U (ap_searchInput a) \<and> ap_searchMatchCount a > 0
      then stay (a\<lparr>ap_searchMatchIdx := (ap_searchMatchIdx a + 1) mod ap_searchMatchCount a\<rparr>)
      else if k = ''N'' \<and> \<not> ti_Focused U (ap_searchInput a) \<and> ap_searchMatchCount a > 0
      then stay (a\<lparr>ap_searchMatchIdx := (ap_searchMatchIdx a - 1 + ap_searchMatchCount a) mod ap_searchMatchCount a\<rparr>)
      else searchInputKey U k a)"

subsection \<open>Menu\<close>

definition mitem :: "string \<Rightarrow> key \<Rightarrow> menuItem" where
  "mitem l k = \<lparr>mi_label = l, mi_key = k\<rparr>"

definition listMenuItems :: "'w App \<Rightarrow> menuItem list" where
  "listMenuItems a = [mitem ''Open Detail'' ''enter'', mitem ''Export HAR'' ''x'', mitem ''Compose Request'' ''C'',
       mitem ''Mark for Diff'' ''d'', mitem ''Toggle Tree/Flat'' ''t''] @
     (if ap_listMode a = modeTree then [mitem ''Focus Host'' ''f''] else []) @
     (if ap_scripts a \<noteq> None then [mitem ''Scripts'' ''S''] else []) @
     (if ap_throttle a \<noteq> None then [mitem ''Throttle'' ''T''] else []) @
     (if ap_breakpoints a \<noteq> None then [mitem ''Breakpoints'' ''B''] else []) @ [mitem ''Settings'' ''P'']"

definition detailMenuItems :: "'w App \<Rightarrow> menuItem list" where
  "detailMenuItems a = [mitem ''Export HAR'' ''x'', mitem ''Copy cURL'' ''c'', mitem ''Repeat Request'' ''r'',
       mitem ''Open in Editor'' ''e'', mitem ''Toggle Pretty/Raw'' ''p''] @
     (if detailBodyIsImage a then [mitem ''Toggle Image Preview'' ''i''] else []) @
     (if ap_scripts a \<noteq> None then [mitem ''Scripts'' ''S''] else []) @
     (if ap_throttle a \<noteq> None then [mitem ''Throttle'' ''T''] else []) @ [mitem ''Settings'' ''P'']"

definition initMenu :: "'w App \<Rightarrow> 'w App" where
  "initMenu a = a\<lparr>ap_showMenu := True, ap_menuCursor := 0,
     ap_menuItems := (if ap_showDetail a then detailMenuItems a else listMenuItems a)\<rparr>"

text \<open>The keys S and T of the list and the detail view.\<close>

definition openScripts :: "'w ui_env \<Rightarrow> 'w App \<Rightarrow> 'w App" where
  "openScripts U a = (if ap_scripts a \<noteq> None then initScripts U a else a)"

definition openThrottle :: "'w App \<Rightarrow> 'w App" where
  "openThrottle a = (if ap_throttle a \<noteq> None then initThrottle a else a)"

definition flip :: "string \<Rightarrow> (string \<Rightarrow> bool) \<Rightarrow> string \<Rightarrow> bool" where
  "flip k f = f(k := \<not> f k)"

definition updateDetail :: "'w ui_env \<Rightarrow> key \<Rightarrow> 'w App \<Rightarrow> ('w App \<times> cmd) ui" where
  "updateDetail U k a =
     (if ap_detailSearch a then updateDetailSearch U k a
      else if k = ''space'' then stay (initMenu a)
      else if k = ''S'' then stay (openScripts U a)
      else if k = ''T'' then stay (openThrottle a)
      else if k = ''P'' then stay (initSettings U a)
      else if k = ''esc'' \<or> k = ''q'' then stay (a\<lparr>ap_showDetail := False, ap_detailImagePreview := False\<rparr>)
      else if k = ''ctrl+c'' then Inr (a, Quit)
      else if k = ''/'' then Inr (a\<lparr>ap_detailSearch := True, ap_searchInput := ti_Focus U (ti_SetValue U [] (ap_searchInput a)),
          ap_searchQuery := [], ap_searchMatchCount := 0, ap_searchMatchIdx := 0\<rparr>, Blink)
      else if k = ''1'' \<or> k = ''left'' then stay (updateDetailContent U (a\<lparr>ap_detailTab := 0, ap_detailImagePreview := False\<rparr>))
      else if k = ''2'' \<or> k = ''right'' then stay (updateDetailContent U (a\<lparr>ap_detailTab := 1, ap_detailImagePreview := False\<rparr>))
      else if k = ''i'' then stay (updateDetailContent U (toggleImagePreview a))
      else if k = ''j'' \<or> k = ''down'' then stay (a\<lparr>ap_detailVP := vp_Scroll U 1 (ap_detailVP a)\<rparr>)
      else if k = ''k'' \<or> k = ''up'' then stay (a\<lparr>ap_detailVP := vp_Scroll U (-1) (ap_detailVP a)\<rparr>)
      else if k = ''d'' then stay (a\<lparr>ap_detailVP := vp_HalfPage U True (ap_detailVP a)\<rparr>)
      else if k = ''u'' then stay (a\<lparr>ap_detailVP := vp_HalfPage U False (ap_detailVP a)\<rparr>)
      else if k = ''p'' then stay (updateDetailContent U (a\<lparr>ap_detailRaw := \<not> ap_detailRaw a\<rparr>))
      else if k = ''e'' then editBody a
      else if k = ''g'' then stay (updateDetailContent U (a\<lparr>ap_detailCollapsed := flip ''general'' (ap_detailCollapsed a)\<rparr>))
      else if k = ''h'' then stay (updateDetailContent U (a\<lparr>ap_detailCollapsed := flip ''headers'' (ap_detailCollapsed a)\<rparr>))
      else if k = ''b'' then stay (updateDetailContent U (a\<lparr>ap_detailCollapsed := flip ''body'' (ap_detailCollapsed a)\<rparr>))
      else if k = ''c'' then copyCurl a
      else if k = ''x'' then Inr (initExport U True a, Blink)
      else if k = ''r'' then repeatRequest U a
      else if k = ''n'' then stay (nextFlow U 1 a)
      else if k = ''N'' then stay (nextFlow U (-1) a)
      else stay a)"

subsection \<open>List\<close>

definition renderDiff :: "screen \<Rightarrow> diff_result \<Rightarrow> string" where
  "renderDiff S result = unlines_nl (map (\<lambda>l. if dl_Type l = ''add'' then sc_style S ''DiffAdd'' (''+ '' @ dl_Content l)
     else if dl_Type l = ''del'' then sc_style S ''DiffDel'' (''- '' @ dl_Content l) else ''  '' @ dl_Content l) result)"

definition handleDiffMark :: "'w ui_env \<Rightarrow> 'w App \<Rightarrow> ('w App \<times> cmd) ui" where
  "handleDiffMark U a = and_then
     (if ap_listMode a = modeFlat
      then chosen (ap_flows a) (ap_selectedIdx a) (\<lambda>f. Inr (fm_ID f)) (Inr [])
      else chosen (ap_treeRows a) (ap_selectedIdx a) (\<lambda>row. Inr (if tw_IsHeader row then [] else fm_ID (tw_Flow row))) (Inr []))
     (\<lambda>currentID. if currentID = [] then stay a
        else if ap_diffMarkID a = [] then stay (a\<lparr>ap_diffMarkID := currentID\<rparr>)
        else (case (Get (ap_diffMarkID a) (ap_store a), Get currentID (ap_store a)) of
            (Inr (meta1, data1), Inr (meta2, data2)) \<Rightarrow>
              stay (a\<lparr>ap_diffContent := renderDiff (ue_screen U) (Compare meta1 data1 meta2 data2), ap_showDiff := True, ap_diffMarkID := []\<rparr>)
          | _ \<Rightarrow> stay (a\<lparr>ap_diffMarkID := []\<rparr>)))"

definition jumpToParentGroup :: "string \<Rightarrow> 'w App \<Rightarrow> 'w App" where
  "jumpToParentGroup k a = (case IndexFunc (\<lambda>r. tw_IsHeader r \<and> tw_GroupKey r = k) (ap_treeRows a) of
     Some i \<Rightarrow> a\<lparr>ap_selectedIdx := int i\<rparr> | None \<Rightarrow> a)"

definition refreshed :: "'w ui_env \<Rightarrow> 'w App \<Rightarrow> ('w App \<times> cmd) ui" where
  "refreshed U a = and_then (refreshFlows U a) stay"

definition home :: "'w App \<Rightarrow> 'w App" where
  "home a = a\<lparr>ap_selectedIdx := 0, ap_listOffset := 0\<rparr>"

definition updateFlatList :: "'w ui_env \<Rightarrow> key \<Rightarrow> 'w App \<Rightarrow> ('w App \<times> cmd) ui" where
  "updateFlatList U k a =
     (if k = ''t'' then refreshed U (home (a\<lparr>ap_listMode := modeTree, ap_treeGroupBy := groupByHost\<rparr>))
      else if k = ''x'' then Inr (initExport U False a, Blink)
      else if k = ''enter'' then
        (if length (ap_flows a) > 0
         then chosen (ap_flows a) (ap_selectedIdx a) (\<lambda>f. stay (openFlowDetail U (fm_ID f) a)) (stay a) else stay a)
      else stay a)"

definition set_expanded :: "string \<Rightarrow> bool \<Rightarrow> 'w App \<Rightarrow> 'w App" where
  "set_expanded k b a = a\<lparr>ap_groupExpanded := (ap_groupExpanded a)(k := b)\<rparr>"

definition on_row :: "'w App \<Rightarrow> (treeRow \<Rightarrow> ('w App \<times> cmd) ui) \<Rightarrow> ('w App \<times> cmd) ui" where
  "on_row a f = chosen (ap_treeRows a) (ap_selectedIdx a) f (stay a)"

definition updateTreeList :: "'w ui_env \<Rightarrow> key \<Rightarrow> 'w App \<Rightarrow> ('w App \<times> cmd) ui" where
  "updateTreeList U k a =
     (if k = ''t'' then refreshed U (home (if ap_treeGroupBy a = groupByHost
          then a\<lparr>ap_treeGroupBy := groupByProcess\<rparr> else a\<lparr>ap_listMode := modeFlat\<rparr>))
      else if k = ''x'' then Inr (initExport U False a, Blink)
      else if k = ''right'' \<or> k = ''l'' then
        on_row a (\<lambda>row. if tw_IsHeader row then refreshed U (set_expanded (tw_GroupKey row) True a) else stay a)
      else if k = ''left'' \<or> k = ''h'' then
        on_row a (\<lambda>row. if tw_IsHeader row then refreshed U (set_expanded (tw_GroupKey row) False a)
          else stay (jumpToParentGroup (tw_GroupKey row) a))
      else if k = ''f'' then
        on_row a (\<lambda>row. refreshed U (a\<lparr>ap_focusKey := tw_GroupKey row, ap_listMode := modeFocus, ap_selectedIdx := 0\<rparr>))
      else if k = ''enter'' then
        on_row a (\<lambda>row. if tw_IsHeader row
          then refreshed U (set_expanded (tw_GroupKey row) (\<not> ap_groupExpanded a (tw_GroupKey row)) a)
          else stay (openFlowDetail U (fm_ID (tw_Flow row)) a))
      else stay a)"

definition updateFocusList :: "'w ui_env \<Rightarrow> key \<Rightarrow> 'w App \<Rightarrow> ('w App \<times> cmd) ui" where
  "updateFocusList U k a =
     (if k = ''esc'' then refreshed U (home (a\<lparr>ap_listMode := modeTree\<rparr>))
      else if k = ''t'' then stay (home (a\<lparr>ap_listMode := modeFlat\<rparr>))
      else if k = ''x'' then Inr (initExport U False a, Blink)
      else if k = ''enter'' then on_row a (\<lambda>row. stay (openFlowDetail U (fm_ID (tw_Flow row)) a))
      else stay a)"

definition filterKey :: "'w ui_env \<Rightarrow> key \<Rightarrow> 'w App \<Rightarrow> ('w App \<times> cmd) ui" where
  "filterKey U k a =
     (if k = ''esc'' then stay (a\<lparr>ap_filterInput := ti_Blur U (ap_filterInput a)\<rparr>)
      else if k = ''enter'' then let a1 = applyFilter U a in stay (a1\<lparr>ap_filterInput := ti_Blur U (ap_filterInput a1)\<rparr>)
      else Inr (applyFilter U (a\<lparr>ap_filterInput := ti_Update U (KeyPressMsg k) (ap_filterInput a)\<rparr>), Blink))"

definition updateList :: "'w ui_env \<Rightarrow> key \<Rightarrow> 'w App \<Rightarrow> ('w App \<times> cmd) ui" where
  "updateList U k a =
     (if ti_Focused U (ap_filterInput a) then filterKey U k a
      else if k = ''q'' \<or> k = ''ctrl+c'' then Inr (a, Quit)
      else if k = ''/'' then Inr (a\<lparr>ap_filterInput := ti_Focus U (ap_filterInput a)\<rparr>, Blink)
      else if k = ''C'' then let a1 = initCompose U a in Inr (a1\<lparr>ap_composeURL := ti_Focus U (ap_composeURL a1)\<rparr>, Blink)
      else if k = ''d'' then handleDiffMark U a
      else if k = ''space'' then stay (initMenu a)
      else if k = ''S'' then stay (openScripts U a)
      else if k = ''T'' then stay (openThrottle a)
      else if k = ''P'' then stay (initSettings U a)
      else if k = ''B'' then stay (if ap_breakpoints a \<noteq> None then initBreakpointQueue a else a)
      else (case handleListNav k a of Some a1 \<Rightarrow> stay a1
        | None \<Rightarrow> (case ap_listMode a of modeTree \<Rightarrow> updateTreeList U k a
            | modeFocus \<Rightarrow> updateFocusList U k a | modeFlat \<Rightarrow> updateFlatList U k a)))"

subsection \<open>The event loop\<close>

definition dispatchMenuAction :: "'w ui_env \<Rightarrow> 'w App \<Rightarrow> ('w App \<times> cmd) ui" where
  "dispatchMenuAction U a = chosen (ap_menuItems a) (ap_menuCursor a)
     (\<lambda>item. if ap_showDetail a then updateDetail U (mi_key item) (a\<lparr>ap_showMenu := False\<rparr>)
             else updateList U (mi_key item) (a\<lparr>ap_showMenu := False\<rparr>))
     (stay (a\<lparr>ap_showMenu := False\<rparr>))"

definition updateMenu :: "'w ui_env \<Rightarrow> key \<Rightarrow> 'w App \<Rightarrow> ('w App \<times> cmd) ui" where
  "updateMenu U k a =
     (if k = ''esc'' \<or> k = ''space'' then stay (a\<lparr>ap_showMenu := False\<rparr>)
      else if k = ''j'' \<or> k = ''down'' then stay (a\<lparr>ap_menuCursor := cursor_down (int (length (ap_menuItems a))) (ap_menuCursor a)\<rparr>)
      else if k = ''k'' \<or> k = ''up'' then stay (a\<lparr>ap_menuCursor := cursor_up (ap_menuCursor a)\<rparr>)
      else if k = ''enter'' then dispatchMenuAction U a
      else stay a)"

definition keyPress :: "'w ui_env \<Rightarrow> key \<Rightarrow> 'w App \<Rightarrow> ('w App \<times> cmd) ui" where
  "keyPress U k a =
     (if ap_showHelp a then stay (if k = ''?'' \<or> k = ''esc'' then a\<lparr>ap_showHelp := False\<rparr> else a)
      else if k = ''?'' then stay (a\<lparr>ap_showHelp := True\<rparr>)
      else if ap_showBreakpointQueue a then updateBreakpoint U k a
      else if ap_showSettings a then updateSettings U k a
      else if ap_showThrottle a then updateThrottle k a
      else if ap_showScripts a then updateScripts U k a
      else if ap_showMenu a then updateMenu U k a
      else if ap_showDiff a then stay (if k = ''esc'' \<or> k = ''q'' then a\<lparr>ap_showDiff := False\<rparr> else a)
      else if ap_showExport a then updateExport U k a
      else if ap_showCompose a then updateCompose U k a
      else if ap_showDetail a then updateDetail U k a
      else updateList U k a)"

primrec ui_update :: "'w ui_env \<Rightarrow> ui_msg \<Rightarrow> 'w App \<Rightarrow> ('w App \<times> cmd) ui" where
  "ui_update U (WindowSizeMsg w h) a = (let a1 = a\<lparr>ap_width := w, ap_height := h, ap_ready := True\<rparr>
     in stay (if ap_showDetail a then a1\<lparr>ap_detailVP := vp_SetSize U w (h - 5) (ap_detailVP a)\<rparr> else a1))"
| "ui_update U TickMsg a = and_then (refreshFlows U a) (\<lambda>a1. Inr (drainBreakpointSub a1, TickCmd))"
| "ui_update U editorFinishedMsg a = stay a"
| "ui_update U scriptEditorFinishedMsg a = stay (case ap_scripts a of None \<Rightarrow> a
     | Some m \<Rightarrow> relist U (m_Reload (ue_goja U) m) a)"
| "ui_update U (KeyPressMsg k) a = keyPress U k a"
| "ui_update U (OtherMsg s) a = (if ti_Focused U (ap_filterInput a)
     then Inr (a\<lparr>ap_filterInput := ti_Update U (OtherMsg s) (ap_filterInput a)\<rparr>, Blink) else stay a)"

subsection \<open>Start\<close>

record AppConfig =
  ac_Store :: RingBuffer
  ac_Proxy :: "string option"
  ac_CATrusted :: bool
  ac_Scripts :: "Manager option"
  ac_Throttle :: "proxy option"
  ac_Breakpoints :: "controller option"
  ac_MCP :: "Server option"
  ac_BodyDecoder :: "Registry option"
  ac_DataDir :: string
  ac_Disk :: fsys
  ac_InitialFilter :: string

definition NewApp :: "'w ui_env \<Rightarrow> AppConfig \<Rightarrow> 'w App" where
  "NewApp U cfg =
     (let ti = ti_Limit U 256 (ti_New U); si = ti_Limit U 256 (ti_New U);
          ti1 = (if ac_InitialFilter cfg \<noteq> [] then ti_SetValue U (ac_InitialFilter cfg) ti else ti);
          z = ui_zero U;
          app = \<lparr>ap_store = ac_Store cfg, ap_proxyAddr = ac_Proxy cfg, ap_caTrusted = ac_CATrusted cfg, ap_showDetail = False, ap_selectedID = [],
            ap_selectedIdx = 0, ap_flows = [], ap_totalFlows = 0, ap_listOffset = 0, ap_filterInput = ti1,
            ap_filterText = [], ap_storeFilter = None, ap_listMode = modeFlat, ap_treeGroupBy = groupByHost,
            ap_focusKey = [], ap_groupExpanded = (\<lambda>_. False), ap_treeRows = [], ap_showMenu = False,
            ap_menuItems = [], ap_menuCursor = 0, ap_showHelp = False, ap_showDiff = False, ap_diffMarkID = [],
            ap_diffContent = [], ap_showExport = False, ap_exportInput = z, ap_exportSingle = False,
            ap_showCompose = False, ap_composeMethod = [], ap_composeURL = z, ap_composeHeaders = z,
            ap_composeBody = z, ap_composeFocus = 0, ap_scripts = ac_Scripts cfg, ap_showScripts = False,
            ap_scriptsCursor = 0, ap_scriptsList = [], ap_scriptsConfirmDelete = False,
            ap_scriptsAddMapLocal = False, ap_scriptsMLPattern = z, ap_scriptsMLPath = z, ap_scriptsMLFocus = 0,
            ap_throttle = ac_Throttle cfg, ap_showThrottle = False, ap_throttleCursor = 0, ap_mcp = ac_MCP cfg,
            ap_dataDir = ac_DataDir cfg, ap_disk = ac_Disk cfg, ap_showSettings = False, ap_settingsCursor = 0,
            ap_settingsEditing = False, ap_settingsInput = z, ap_settingsConfig = None,
            ap_breakpoints = ac_Breakpoints cfg, ap_showBreakpointQueue = False, ap_breakpointCursor = 0,
            ap_breakpointPending = [], ap_editingBreakpoint = None, ap_bpHeadersTA = z, ap_bpBodyTA = z,
            ap_bpFocusedPane = 0, ap_breakpointHitCount = 0, ap_breakpointSub = None, ap_detailSearch = False,
            ap_searchInput = si, ap_searchQuery = [], ap_searchMatchCount = 0, ap_searchMatchIdx = 0,
            ap_detailTab = 0, ap_detailVP = z, ap_detailReady = False, ap_detailRaw = False,
            ap_detailImagePreview = False, ap_detailCollapsed = (\<lambda>_. False), ap_detailDecodeErr = [],
            ap_bodyDecoder = ac_BodyDecoder cfg, ap_darkBg = ue_darkBg U,
            ap_width = 0, ap_height = 0, ap_ready = False\<rparr>
      in if ac_InitialFilter cfg \<noteq> [] then applyFilter U app else app)"

end
