(* ===== verification/Tui_View.thy ===== *)
theory Tui_View
  imports Tui_App
begin

section \<open>What is drawn (internal/tui: the view functions)\<close>

text \<open>
  The text of every screen.  Styles and the placing of popups come from \<open>screen\<close>; the text of a
  widget from \<open>ui_env\<close>.  Drawing the list moves its offset, so the view of the list returns a
  state; the other views only read it.  A negative width makes \<open>strings.Repeat\<close> panic.
\<close>

subsection \<open>Pieces\<close>

definition lift_res :: "'a res \<Rightarrow> 'a ui" where
  "lift_res r = (case r of Inl p \<Rightarrow> Inl (Crash p) | Inr x \<Rightarrow> Inr x)"

abbreviation sty :: "'w ui_env \<Rightarrow> style" where
  "sty U \<equiv> sc_style (ue_screen U)"

definition rule_line :: "'w App \<Rightarrow> string ui" where
  "rule_line a = (if ap_width a < 0 then Inl (Crash NegativeRepeat)
     else Inr (concat (replicate (nat (ap_width a)) [CHR 0xE2, CHR 0x94, CHR 0x80])))"

definition blanks :: "'w App \<Rightarrow> nat \<Rightarrow> string list" where
  "blanks a used = replicate (nat (ap_height a - 1 - int used)) []"

definition status_bar :: "'w ui_env \<Rightarrow> 'w App \<Rightarrow> string \<Rightarrow> string" where
  "status_bar U a s = sc_wide (ue_screen U) ''StatusBar'' (ap_width a) s"

definition popup :: "'w ui_env \<Rightarrow> 'w App \<Rightarrow> string \<Rightarrow> string" where
  "popup U a s = sc_place (ue_screen U) (ap_width a) (ap_height a) (sty U ''MenuBorder'' s)"

text \<open>A titled full screen: title, rule, a blank line, the content, and the bar at the bottom.\<close>

definition titled :: "'w ui_env \<Rightarrow> 'w App \<Rightarrow> string \<Rightarrow> string list \<Rightarrow> nat \<Rightarrow> string \<Rightarrow> string ui" where
  "titled U a title content used bar = and_then (rule_line a)
     (\<lambda>r. Inr (unlines_nl ([sty U ''Header'' title, r, []] @ content @ blanks a used) @ status_bar U a bar))"

subsection \<open>Status line\<close>

definition mode_help :: "'w App \<Rightarrow> string" where
  "mode_help a = (case ap_listMode a of
       modeTree \<Rightarrow> if ap_treeGroupBy a = groupByHost then ''t:proc  f:focus  /:filter  Space:actions''
         else ''t:flat  f:focus  /:filter  Space:actions''
     | modeFocus \<Rightarrow> ''t:flat  Esc:unfocus  /:filter  Space:actions''
     | modeFlat \<Rightarrow> ''t:host  /:filter  Space:actions'')"

definition status_warning :: "'w ui_env \<Rightarrow> 'w App \<Rightarrow> string" where
  "status_warning U a = (if ap_caTrusted a then [] else sty U ''Warning'' ''CA NOT TRUSTED'' @ ''  '')"

definition pause_sign :: string where
  "pause_sign = [CHR 0xE2, CHR 0x8F, CHR 0xB8]"

definition status_info :: "'w ui_env \<Rightarrow> 'w App \<Rightarrow> string" where
  "status_info U a = Itoa (int (ap_totalFlows a)) @ '' flows | Proxy '' @ proxyAddr a @
     (case ap_mcp a of Some s \<Rightarrow> if sv_running s then '' | MCP :'' @ Itoa (Port s) else [] | None \<Rightarrow> []) @
     (let label = throttleStatusLabel a in if label \<noteq> [] then '' | '' @ sty U ''Warning'' (''Throttle: '' @ label) else []) @
     (case ap_breakpoints a of None \<Rightarrow> []
      | Some c \<Rightarrow> let n = length (Pending c) in
          if n > 0 then '' | '' @ sty U ''Warning'' (pause_sign @ '' '' @ Itoa (int n)) else [])"

definition status_line :: "'w ui_env \<Rightarrow> 'w App \<Rightarrow> string" where
  "status_line U a = (let warning = status_warning U a; info = status_info U a; help = mode_help a;
       gap = max (ap_width a - int (length warning) - int (length info) - int (length help)) 2
     in warning @ info @ pad_left (nat gap) help)"

definition statusText :: "'w ui_env \<Rightarrow> 'w App \<Rightarrow> string" where
  "statusText U a = status_bar U a (status_line U a)"

subsection \<open>The list\<close>

definition filter_bar :: "'w ui_env \<Rightarrow> 'w App \<Rightarrow> string" where
  "filter_bar U a = (if ti_Focused U (ap_filterInput a) then ti_View U (ap_filterInput a)
     else if ap_filterText a \<noteq> [] then sty U ''Muted'' (''Filter: '' @ ap_filterText a)
     else sty U ''Muted'' ''/ to filter...'')"

definition column_header :: "'w ui_env \<Rightarrow> 'w App \<Rightarrow> string \<Rightarrow> string list ui" where
  "column_header U a hdr = and_then (lift_res (Tui_Text.truncate hdr (ap_width a)))
     (\<lambda>h. and_then (rule_line a) (\<lambda>r. Inr [sty U ''Header'' h, r]))"

definition empty_message :: "'w ui_env \<Rightarrow> nat \<Rightarrow> string \<Rightarrow> string list" where
  "empty_message U n msg = (if n = 0 then [sty U ''Muted'' msg] else [])"

text \<open>The rows with the one under the cursor highlighted.\<close>

definition mark_selected :: "'w ui_env \<Rightarrow> 'w App \<Rightarrow> string list \<Rightarrow> string list" where
  "mark_selected U a ls = map (\<lambda>(i, line). if ap_listOffset a + int i = ap_selectedIdx a
     then sc_wide (ue_screen U) ''Selected'' (ap_width a) line else line) (enumerate 0 ls)"

definition list_screen :: "'w ui_env \<Rightarrow> string list \<Rightarrow> (int \<Rightarrow> string ui) \<Rightarrow> int \<Rightarrow> 'w App \<Rightarrow> (string \<times> 'w App) ui" where
  "list_screen U head renderFn cnt a = and_then (writeRows renderFn cnt a)
     (\<lambda>(ls, a1). Inr (unlines_nl (head @ mark_selected U a1 ls @ blanks a (4 + length ls)) @ statusText U a1, a1))"

definition columns :: "(nat \<times> string) list \<Rightarrow> string" where
  "columns cs = Join (map (\<lambda>(w, s). pad_right w s) cs @ [pad_left 8 ''DUR'', pad_left 8 ''SIZE'']) '' ''"

definition waiting :: "'w App \<Rightarrow> string" where
  "waiting a = ''Waiting for traffic... proxy at '' @ proxyAddr a"

definition viewFlatList :: "'w ui_env \<Rightarrow> 'w App \<Rightarrow> (string \<times> 'w App) ui" where
  "viewFlatList U a = (case columnWidths (ap_width a) of (hostW, pathW) \<Rightarrow>
     and_then (column_header U a (columns [(7, ''METHOD''), (6, ''STATUS''), (nat hostW, ''HOST''), (nat pathW, ''PATH''),
        (12, ''TYPE''), (15, ''PROCESS'')]))
      (\<lambda>hd. list_screen U (filter_bar U a # hd @ empty_message U (length (ap_flows a)) (waiting a))
        (\<lambda>i. and_then (at (ap_flows a) i) (\<lambda>f. Inr (renderFlowRow (sty U) (sc_secs (ue_screen U)) f hostW pathW)))
        (int (length (ap_flows a))) a))"

definition renderGroupNode :: "'w App \<Rightarrow> string \<Rightarrow> string" where
  "renderGroupNode a k = (if ap_groupExpanded a k then [CHR 0xE2, CHR 0x96, CHR 0xBE] else [CHR 0xE2, CHR 0x96, CHR 0xB8]) @
     '' '' @ k @ '' ('' @ Itoa (int (length (filter (\<lambda>f. treeKeyFn a f = k) (ap_flows a)))) @ '')''"

definition process_column :: "FlowMeta \<Rightarrow> string" where
  "process_column f = truncPad (processLabel (fm_Process f) (fm_ProcessPID f)) 15"

definition renderTreeRow :: "'w ui_env \<Rightarrow> 'w App \<Rightarrow> int \<Rightarrow> treeRow \<Rightarrow> string" where
  "renderTreeRow U a pathW row = (if tw_IsHeader row then renderGroupNode a (tw_GroupKey row)
     else ''    '' @ renderFlowColumns (sty U) (sc_secs (ue_screen U)) (tw_Flow row) pathW [] (process_column (tw_Flow row)))"

definition viewTreeList :: "'w ui_env \<Rightarrow> 'w App \<Rightarrow> (string \<times> 'w App) ui" where
  "viewTreeList U a = (let pathW = treePathWidth (ap_width a) in
     and_then (column_header U a (''    '' @ columns [(7, ''METHOD''), (6, ''STATUS''), (nat pathW, ''PATH''), (12, ''TYPE''), (15, ''PROCESS'')]))
      (\<lambda>hd. list_screen U (filter_bar U a # hd @ empty_message U (length (ap_treeRows a)) (waiting a))
        (\<lambda>i. and_then (at (ap_treeRows a) i) (\<lambda>row. Inr (renderTreeRow U a pathW row)))
        (int (length (ap_treeRows a))) a))"

definition viewFocusList :: "'w ui_env \<Rightarrow> 'w App \<Rightarrow> (string \<times> 'w App) ui" where
  "viewFocusList U a = (let pathW = focusPathWidth (ap_width a) in
     and_then (column_header U a (columns [(7, ''METHOD''), (6, ''STATUS''), (nat pathW, ''PATH''), (12, ''TYPE''), (15, ''PROCESS'')]))
      (\<lambda>hd. list_screen U ((sty U ''Header'' (''['' @ ap_focusKey a @ '']'') @ ''  '' @ sty U ''Muted'' ''Esc to unfocus'') # hd @
          empty_message U (length (ap_treeRows a)) ''No flows for this host'')
        (\<lambda>i. and_then (at (ap_treeRows a) i) (\<lambda>row. Inr (renderFlowColumns (sty U) (sc_secs (ue_screen U)) (tw_Flow row) pathW []
           (process_column (tw_Flow row))))) (int (length (ap_treeRows a))) a))"

definition viewList :: "'w ui_env \<Rightarrow> 'w App \<Rightarrow> (string \<times> 'w App) ui" where
  "viewList U a = (case ap_listMode a of modeTree \<Rightarrow> viewTreeList U a | modeFocus \<Rightarrow> viewFocusList U a
     | modeFlat \<Rightarrow> viewFlatList U a)"

subsection \<open>Detail, diff and help\<close>

definition renderTab :: "'w ui_env \<Rightarrow> string \<Rightarrow> bool \<Rightarrow> string" where
  "renderTab U label active = (if active then sty U ''ActiveTab'' (''['' @ label @ '']'') else sty U ''InactiveTab'' label)"

definition detail_bar :: "'w ui_env \<Rightarrow> 'w App \<Rightarrow> string" where
  "detail_bar U a = (let scrollPct = Itoa (vp_ScrollPct U (ap_detailVP a)) @ ''%'' in
     if ap_detailSearch a then
       (let matchInfo = (if ap_searchMatchCount a = 0 then ''0 matches''
              else Itoa (ap_searchMatchIdx a + 1) @ ''/'' @ Itoa (ap_searchMatchCount a) @ '' matches'')
        in if ti_Focused U (ap_searchInput a)
           then ''/'' @ ti_Value U (ap_searchInput a) @ ''  '' @ matchInfo @ ''  Enter:commit  Esc:cancel''
           else ''search: '' @ ap_searchQuery a @ ''  '' @ matchInfo @ ''  n/N:next/prev  Esc:clear'')
     else if ap_detailDecodeErr a \<noteq> [] then ''proto: '' @ ap_detailDecodeErr a @ ''  '' @ scrollPct
     else ''1/2 tabs  p:'' @ (if ap_detailRaw a then ''raw'' else ''pretty'') @ ''  e:edit'' @
        (if detailBodyIsImage a then (if ap_detailImagePreview a then ''  i:text'' else ''  i:image'') else []) @
        ''  g/h/b:sections  Space:actions  Esc back  '' @ scrollPct)"

definition viewDetail :: "'w ui_env \<Rightarrow> 'w App \<Rightarrow> string ui" where
  "viewDetail U a = (case Get (ap_selectedID a) (ap_store a) of
       Inl _ \<Rightarrow> Inr ''Flow no longer available. Press any key to return.''
     | Inr (meta, _) \<Rightarrow>
        (let hdr = ''< Esc    '' @ fm_Method meta @ '' '' @ Itoa (fm_StatusCode meta) @ '' '' @ fm_Scheme meta @ ''://'' @
               fm_Host meta @ fm_Path meta @ ''    '' @ formatDuration (sc_secs (ue_screen U)) (fm_Duration meta) @ ''  '' @
               formatSize (fm_SizeBytes meta)
         in and_then (lift_res (Tui_Text.truncate hdr (ap_width a))) (\<lambda>h. and_then (rule_line a)
            (\<lambda>r. and_then (lift_res (Tui_Text.truncate (detail_bar U a) (ap_width a)))
              (\<lambda>bar. Inr (unlines_nl [sty U ''DetailHeader'' h, r,
                 renderTab U ''Request'' (ap_detailTab a = 0) @ ''  '' @ renderTab U ''Response'' (ap_detailTab a = 1), [],
                 vp_View U (ap_detailVP a)] @ status_bar U a bar))))))"

definition viewDiff :: "'w ui_env \<Rightarrow> 'w App \<Rightarrow> string ui" where
  "viewDiff U a = and_then (rule_line a) (\<lambda>r. Inr (unlines_nl [sty U ''Header'' ''Flow Diff'', r, []] @ ap_diffContent a @
     unlines_nl (blanks a (3 + str_count (ap_diffContent a) [nl])) @ status_bar U a ''Esc:back  + added  - removed''))"

text \<open>Arrows up, down, right and left.\<close>

definition arrow :: "nat \<Rightarrow> string" where
  "arrow n = [CHR 0xE2, CHR 0x86, char_of n]"

definition helpGroups :: "(string \<times> (string \<times> string) list) list" where
  "helpGroups = [
     (''Navigation'', [(''j/k  '' @ arrow 0x91 @ ''/'' @ arrow 0x93, ''Move cursor up/down''), (''g/G'', ''Jump to first/last''),
        (''Ctrl+D/U'', ''Page down/up''), (''Enter'', ''Open detail / toggle host'')]),
     (''List View'', [(''t'', ''Cycle flat/host/process tree''), (''f'', ''Focus group (tree mode)''),
        (''l/h  '' @ arrow 0x92 @ ''/'' @ arrow 0x90, ''Expand/collapse group'')]),
     (''Detail View'', [(''1/2  '' @ arrow 0x90 @ ''/'' @ arrow 0x92, ''Request/Response tab''), (''j/k'', ''Scroll up/down''),
        (''d/u'', ''Half-page down/up''), (''n/N'', ''Next/prev flow''), (''p'', ''Toggle pretty/raw''), (''e'', ''Open in editor''),
        (''i'', ''Toggle image preview''), (''g/h/b'', ''Collapse general/headers/body'')]),
     (''Filter'', [(''/'', ''Focus filter input''), (''Enter'', ''Apply filter''), (''Esc'', ''Dismiss filter'')]),
     (''Global'', [(''?'', ''Toggle this help''), (''P'', ''Settings''), (''S'', ''Scripts manager''), (''T'', ''Throttle settings''),
        (''q / Ctrl+C'', ''Quit''), (''Esc'', ''Back / dismiss'')])]"

definition viewHelp :: "'w ui_env \<Rightarrow> 'w App \<Rightarrow> string ui" where
  "viewHelp U a = titled U a ''Keybindings''
     (concat (map (\<lambda>(title, kbs). sty U ''Section'' title # map (\<lambda>(k, d). ''  '' @ pad_right 16 k @ '' '' @ d) kbs @ [[]]) helpGroups))
     (3 + sum_list (map (\<lambda>(_, kbs). 2 + length kbs) helpGroups)) ''? or Esc to dismiss''"

subsection \<open>Modals\<close>

definition hit_phase :: "BreakpointHit \<Rightarrow> string \<Rightarrow> string \<Rightarrow> string" where
  "hit_phase hit req rsp = (if bh_Phase hit = PhaseResponse then rsp else req)"

definition viewBreakpointQueue :: "'w ui_env \<Rightarrow> 'w App \<Rightarrow> string ui" where
  "viewBreakpointQueue U a = titled U a ''Breakpoint Queue''
     (if length (ap_breakpointPending a) = 0 then [''  No paused flows'']
      else map (\<lambda>(i, hit). let line = ''  '' @ hit_phase hit ''REQ'' ''RSP'' @ ''  '' @ fm_Method (bh_Meta hit) @ '' '' @
              fm_Host (bh_Meta hit) @ fm_Path (bh_Meta hit)
            in if int i = ap_breakpointCursor a then sty U ''Selected'' line else line) (enumerate 0 (ap_breakpointPending a)))
     (4 + length (ap_breakpointPending a)) ''Enter:edit  A:resume-all  Esc:back''"

definition pane_label :: "'w App \<Rightarrow> nat \<Rightarrow> string \<Rightarrow> string" where
  "pane_label a pane s = (if ap_bpFocusedPane a = pane then [CHR 0xE2, CHR 0x96, CHR 0xB8] @ '' '' @ s else s)"

definition viewBreakpointEditor :: "'w ui_env \<Rightarrow> BreakpointHit \<Rightarrow> 'w App \<Rightarrow> string ui" where
  "viewBreakpointEditor U hit a = and_then (rule_line a) (\<lambda>r. Inr (unlines_nl
     [sty U ''Header'' (''Breakpoint: '' @ fm_Method (bh_Meta hit) @ '' '' @ fm_Host (bh_Meta hit) @ fm_Path (bh_Meta hit) @
        '' ('' @ hit_phase hit ''Request'' ''Response'' @ '')''), r,
      sty U ''Section'' (pane_label a 0 ''Headers''), ta_View U (ap_bpHeadersTA a), [],
      sty U ''Section'' (pane_label a 1 ''Body''), ta_View U (ap_bpBodyTA a)] @
     status_bar U a ''Ctrl+S:resume  Tab:switch-pane  E:editor  Esc:skip''))"

definition viewBreakpoint :: "'w ui_env \<Rightarrow> 'w App \<Rightarrow> string ui" where
  "viewBreakpoint U a = (case ap_editingBreakpoint a of Some hit \<Rightarrow> viewBreakpointEditor U hit a | None \<Rightarrow> viewBreakpointQueue U a)"

definition settingsFieldDisplay :: "'w ui_env \<Rightarrow> settingsField \<Rightarrow> string \<Rightarrow> nat \<Rightarrow> 'w App \<Rightarrow> string" where
  "settingsFieldDisplay U f val idx a =
     (if ap_settingsEditing a \<and> int idx = ap_settingsCursor a then ti_View U (ap_settingsInput a)
      else if sg_kind f = ''bool'' then (if val = ''true'' then sty U ''Enabled'' ''on'' else sty U ''Muted'' ''off'')
      else if val = [] then sty U ''Muted'' ''(default)'' else val)"

definition viewSettings :: "'w ui_env \<Rightarrow> 'w App \<Rightarrow> string" where
  "viewSettings U a = popup U a (unlines_nl ([sty U ''MenuTitle'' '' Settings '', []] @
     map (\<lambda>(i, f). let val = (case ap_settingsConfig a of Some c \<Rightarrow> sg_get f c | None \<Rightarrow> []);
            line = '' '' @ pad_right 18 (sg_label f) @ '' '' @ settingsFieldDisplay U f val i a @
              (if sg_restart f then sty U ''Muted'' '' (restart)'' else [])
          in if int i = ap_settingsCursor a \<and> \<not> ap_settingsEditing a then sty U ''MenuSelected'' line else line)
       (enumerate 0 settingsFields) @ [[]]) @
     sty U ''Muted'' '' j/k navigate  Enter edit/toggle  Esc save & close '')"

definition viewThrottle :: "'w ui_env \<Rightarrow> 'w App \<Rightarrow> string" where
  "viewThrottle U a = popup U a (unlines_nl (sty U ''MenuTitle'' '' Throttle '' #
     map (\<lambda>(i, p). let marker = (if int i = activeThrottlePreset a then sty U ''Green'' [CHR 0xE2, CHR 0x97, CHR 0x8F, CHR '' ''] else ''  '');
            line = '' '' @ marker @ pad_right 28 (tp_name p)
          in if int i = ap_throttleCursor a then sty U ''MenuSelected'' line else line) (enumerate 0 throttlePresets) @ [[]]) @
     sty U ''Muted'' '' j/k navigate  Enter apply  Esc close '')"

definition category_name :: "ScriptCategory \<Rightarrow> string" where
  "category_name c = (case c of CategoryScript \<Rightarrow> ''Script'' | CategoryMapLocal \<Rightarrow> ''Map Local'' | CategoryBreakpoint \<Rightarrow> ''Breakpoint'')"

definition categoryBadges :: "'w ui_env \<Rightarrow> ScriptCategory list \<Rightarrow> string" where
  "categoryBadges U cats = concat (map (\<lambda>c. sty U ''Muted'' (''['' @ category_name c @ '']'')) cats)"

definition script_line :: "'w ui_env \<Rightarrow> ScriptInfo \<Rightarrow> string" where
  "script_line U info =
     (let icon = (if si_Error info \<noteq> [] then sty U ''Warning'' ''!'' else if si_Enabled info then sty U ''Enabled'' ''+''
            else sty U ''Muted'' ''-'');
          detail = (if si_Error info \<noteq> [] then sty U ''Warning'' ''error''
            else case si_Matches info of [] \<Rightarrow> []
              | m # ms \<Rightarrow> m @ (if ms \<noteq> [] then sty U ''Muted'' ('' +'' @ Itoa (int (length ms))) else []));
          name = (if length (si_Name info) > 24 then take 21 (si_Name info) @ ''...'' else si_Name info)
      in '' '' @ icon @ '' '' @ categoryBadges U (si_Categories info) @ '' '' @ pad_right 24 name @ '' '' @ detail @ '' '')"

definition script_list_lines :: "'w ui_env \<Rightarrow> 'w App \<Rightarrow> string list ui" where
  "script_list_lines U a = (if length (ap_scriptsList a) = 0
     then with_manager a (\<lambda>m. Inr [sty U ''Muted'' ''  No scripts found'', sty U ''Muted'' (''  Dir: '' @ m_dir m), []])
     else Inr (map (\<lambda>(i, info). let line = script_line U info
        in if int i = ap_scriptsCursor a then sty U ''MenuSelected'' line else line) (enumerate 0 (ap_scriptsList a))))"

definition script_prompt :: "'w ui_env \<Rightarrow> 'w App \<Rightarrow> string" where
  "script_prompt U a =
     (if ap_scriptsAddMapLocal a then
        unlines_nl [[], ''  Pattern: '' @ ti_View U (ap_scriptsMLPattern a), ''  File:    '' @ ti_View U (ap_scriptsMLPath a), []] @
        sty U ''Muted'' '' Tab:switch  Enter:save  Esc:cancel ''
      else if ap_scriptsConfirmDelete a then nl # sty U ''Warning'' '' Delete this script? (y/N) ''
      else nl # sty U ''Muted'' '' n:new  m:map-local  e:edit  space:toggle  d:delete  esc:close '')"

definition viewScripts :: "'w ui_env \<Rightarrow> 'w App \<Rightarrow> string ui" where
  "viewScripts U a = and_then (script_list_lines U a)
     (\<lambda>ls. Inr (popup U a (unlines_nl (sty U ''MenuTitle'' '' Scripts '' # ls) @ script_prompt U a)))"

definition displayKey :: "menuItem \<Rightarrow> string" where
  "displayKey m = (if mi_key m = ''enter'' then ''Enter'' else mi_key m)"

definition viewMenu :: "'w ui_env \<Rightarrow> 'w App \<Rightarrow> string" where
  "viewMenu U a = popup U a (unlines_nl (sty U ''MenuTitle'' '' Actions '' #
     map (\<lambda>(i, item). let line = '' '' @ pad_right 22 (mi_label item) @ '' '' @ sty U ''Muted'' (displayKey item) @ '' ''
       in if int i = ap_menuCursor a then sty U ''MenuSelected'' line else line) (enumerate 0 (ap_menuItems a))) @
     sty U ''Muted'' '' j/k navigate  Enter select  Esc close '')"

definition viewExport :: "'w ui_env \<Rightarrow> 'w App \<Rightarrow> string ui" where
  "viewExport U a = titled U a ''Export HAR''
     [sty U ''Section'' ([CHR 0xE2, CHR 0x96, CHR 0xB8] @ '' Filename''), ''  '' @ ti_View U (ap_exportInput a), [],
      sty U ''Muted'' (if ap_exportSingle a then ''  Exporting selected flow''
        else ''  Exporting '' @ Itoa (int (length (ap_flows a))) @ '' flows'')] 7 ''Enter:export  Esc:cancel''"

definition focus_label :: "'w App \<Rightarrow> int \<Rightarrow> string \<Rightarrow> string" where
  "focus_label a idx name = (if ap_composeFocus a = idx then [CHR 0xE2, CHR 0x96, CHR 0xB8] @ '' '' @ name else name)"

definition viewCompose :: "'w ui_env \<Rightarrow> 'w App \<Rightarrow> string ui" where
  "viewCompose U a = titled U a ''Compose Request''
     [sty U ''Section'' ''Method'' @ ''  '' @ ap_composeMethod a @ ''  (Tab to cycle)'', [],
      sty U ''Section'' (focus_label a 0 ''URL''), ''  '' @ ti_View U (ap_composeURL a), [],
      sty U ''Section'' (focus_label a 1 ''Headers''), ''  '' @ ti_View U (ap_composeHeaders a), [],
      sty U ''Section'' (focus_label a 2 ''Body''), ''  '' @ ti_View U (ap_composeBody a), []]
     12 ''Ctrl+S:send  Ctrl+J/K:navigate  Tab:method  Esc:cancel''"

subsection \<open>The screen on top\<close>

definition keeping :: "'w App \<Rightarrow> string ui \<Rightarrow> (string \<times> 'w App) ui" where
  "keeping a r = and_then r (\<lambda>s. Inr (s, a))"

definition viewContent :: "'w ui_env \<Rightarrow> 'w App \<Rightarrow> (string \<times> 'w App) ui" where
  "viewContent U a =
     (if \<not> ap_ready a then Inr (''Loading...'', a)
      else if ap_showBreakpointQueue a then keeping a (viewBreakpoint U a)
      else if ap_showDiff a then keeping a (viewDiff U a)
      else if ap_showHelp a then keeping a (viewHelp U a)
      else if ap_showSettings a then Inr (viewSettings U a, a)
      else if ap_showThrottle a then Inr (viewThrottle U a, a)
      else if ap_showScripts a then keeping a (viewScripts U a)
      else if ap_showMenu a then Inr (viewMenu U a, a)
      else if ap_showExport a then keeping a (viewExport U a)
      else if ap_showCompose a then keeping a (viewCompose U a)
      else if ap_showDetail a then keeping a (viewDetail U a)
      else viewList U a)"

end
