(* ===== verification/Tui_Safety.thy ===== *)
theory Tui_Safety
  imports Tui_View
begin

section \<open>The terminal UI as a machine: what keeps it running\<close>

text \<open>
  The invariant of the App under all messages and under what happens around it (traffic that
  changes the store, flows that are paused), and the one movement that breaks it.
\<close>

definition filter_total :: "Filter option \<Rightarrow> bool" where
  "filter_total f \<longleftrightarrow> (\<forall>m. \<exists>b. run_filter f m = Inr b)"

text \<open>A controller on which no send can block: the channels of pending flows are distinct and empty.\<close>

definition ctl_ok :: "controller \<Rightarrow> bool" where
  "ctl_ok c \<longleftrightarrow> distinct (map fst (c_pending c)) \<and> distinct (pend_chans c) \<and> (\<forall>ch \<in> set (pend_chans c). c_chans c ch = [])"

definition ui_ok :: "'w App \<Rightarrow> bool" where
  "ui_ok a \<longleftrightarrow> 0 \<le> ap_width a \<and> 0 \<le> ap_selectedIdx a \<and> 0 \<le> ap_listOffset a \<and> filter_total (ap_storeFilter a) \<and> 0 \<le> ap_throttleCursor a \<and>
     (0 \<le> ap_settingsCursor a \<and> ap_settingsCursor a < int (length settingsFields)) \<and>
     0 \<le> ap_scriptsCursor a \<and> 0 \<le> ap_menuCursor a \<and> 0 \<le> ap_breakpointCursor a \<and>
     (ap_showScripts a \<longrightarrow> ap_scripts a \<noteq> None) \<and> (ap_showBreakpointQueue a \<longrightarrow> ap_breakpoints a \<noteq> None) \<and>
     (\<forall>c. ap_breakpoints a = Some c \<longrightarrow> ctl_ok c) \<and>
     (\<forall>m \<in> set (ap_menuItems a). mi_key m \<noteq> ''pgdown'' \<and> mi_key m \<noteq> ''ctrl+d'')"

subsection \<open>The parts\<close>

text \<open>The filter of the list: none for a blank expression.\<close>

interpretation listing: list_filter "\<lambda>t. case Compile re t of Some af \<Rightarrow> adv_iface (Some af) | None \<Rightarrow> None" "\<lambda>_. True"
  "\<lambda>t m. TrimSpace t = [] \<or> expr_accepts re t m" for re
proof unfold_locales
  show "run_filter (case Compile re t of Some af \<Rightarrow> adv_iface (Some af) | None \<Rightarrow> None) m = Inr (TrimSpace t = [] \<or> expr_accepts re t m)" for t m
    using Compile_match(1) [of re t] adv.runs [of t re m] by (cases "Compile re t") (auto simp: run_filter_def)
qed

lemma applyFilter_total: "filter_total (ap_storeFilter (applyFilter U a))"
  using listing.runs by (auto simp: applyFilter_def Let_def filter_total_def)

lemma List_total:
  assumes "filter_total f" and "0 \<le> off"
  shows "\<exists>fls n. List f off lim rb = Inr (fls, n)"
proof -
  obtain g where "run_filter f m = Inr (g m)" for m
    using assms(1) unfolding filter_total_def by metis
  then have "\<forall>m \<in> set (flows rb). run_filter f m = Inr (g m)" by blast
  from List_refines [OF this assms(2)] show ?thesis by simp
qed

lemma refreshFlows_ok:
  assumes "ui_ok a"
  shows "\<exists>a1. refreshFlows U a = Inr a1 \<and> ui_ok a1 \<and> ap_breakpoints a1 = ap_breakpoints a"
proof -
  have tf: "filter_total (ap_storeFilter a)" using assms by (simp add: ui_ok_def)
  obtain fls n where l: "List (ap_storeFilter a) 0 (list_limit a) (ap_store a) = Inr (fls, n)"
    using List_total [OF tf order_refl] by blast
  show ?thesis using assms
    by (cases "ap_listMode a") (simp_all add: refreshFlows_def l Let_def ui_ok_def)
qed

lemma refreshed_ok: "ui_ok a \<Longrightarrow> \<exists>a1 c. refreshed U a = Inr (a1, c) \<and> ui_ok a1"
  using refreshFlows_ok [of a U] by (auto simp: refreshed_def stay_def)

lemma pend_chans_delete:
  assumes "distinct (map fst (c_pending c))"
  shows "set (pend_chans (c\<lparr>c_pending := AList.delete k (c_pending c)\<rparr>)) \<subseteq> set (pend_chans c)"
    and "distinct (pend_chans c) \<Longrightarrow> distinct (pend_chans (c\<lparr>c_pending := AList.delete k (c_pending c)\<rparr>))"
    and "distinct (pend_chans c) \<Longrightarrow> map_of (c_pending c) k = Some ph \<Longrightarrow>
      ph_respCh ph \<notin> set (pend_chans (c\<lparr>c_pending := AList.delete k (c_pending c)\<rparr>))"
proof -
  show "set (pend_chans (c\<lparr>c_pending := AList.delete k (c_pending c)\<rparr>)) \<subseteq> set (pend_chans c)"
    by (auto simp: pend_chans_def AList.delete_eq)
  show "distinct (pend_chans c) \<Longrightarrow> distinct (pend_chans (c\<lparr>c_pending := AList.delete k (c_pending c)\<rparr>))"
    by (simp add: pend_chans_def AList.delete_eq distinct_map_filter)
  assume d: "distinct (pend_chans c)" and m: "map_of (c_pending c) k = Some ph"
  obtain as bs where "c_pending c = as @ (k, ph) # bs" "AList.delete k (c_pending c) = as @ bs"
    by (rule delete_split [OF assms m])
  with d show "ph_respCh ph \<notin> set (pend_chans (c\<lparr>c_pending := AList.delete k (c_pending c)\<rparr>))"
    by (simp add: pend_chans_def)
qed

lemma Resume_ok:
  assumes "ctl_ok c"
  shows "\<exists>c1. Resume fid r c = Some c1 \<and> ctl_ok c1"
proof (cases "map_of (c_pending c) fid")
  case None
  then show ?thesis using assms by (simp add: Resume_def Resume_take_def)
next
  case (Some ph)
  let ?c = "c\<lparr>c_pending := AList.delete fid (c_pending c)\<rparr>"
  have ph: "ph_respCh ph \<in> set (pend_chans c)"
    using map_of_SomeD [OF Some] by (force simp: pend_chans_def)
  have d: "distinct (map fst (c_pending c))" "distinct (pend_chans c)" using assms by (auto simp: ctl_ok_def)
  have "c_chans ?c (ph_respCh ph) = []" using assms ph by (simp add: ctl_ok_def)
  then have "Resume fid r c = Some (?c\<lparr>c_chans := (c_chans c)(ph_respCh ph := [r])\<rparr>)"
    by (simp add: Resume_def Resume_take_def Some chan_send_def)
  moreover have "ctl_ok (?c\<lparr>c_chans := (c_chans c)(ph_respCh ph := [r])\<rparr>)"
  proof -
    note del = pend_chans_delete [OF d(1), of fid]
    have pc: "pend_chans (?c\<lparr>c_chans := f\<rparr>) = pend_chans ?c" for f by (simp add: pend_chans_def)
    have "c_chans (?c\<lparr>c_chans := (c_chans c)(ph_respCh ph := [r])\<rparr>) ch = []" if "ch \<in> set (pend_chans ?c)" for ch
    proof -
      have "ch \<in> set (pend_chans c)" "ch \<noteq> ph_respCh ph" using that del(1) del(3) [OF d(2) Some] by blast+
      with assms show ?thesis by (simp add: ctl_ok_def)
    qed
    with del(2) [OF d(2)] d(1) show ?thesis unfolding ctl_ok_def pc by (simp add: distinct_delete)
  qed
  ultimately show ?thesis by blast
qed

lemma send_all_ok:
  assumes "distinct (map ph_respCh phs)" and "\<forall>ph \<in> set phs. c_chans c (ph_respCh ph) = []" and "c_pending c = []"
  shows "\<exists>c1. send_all phs c = Some c1 \<and> c_pending c1 = []"
  using assms
proof (induction phs arbitrary: c)
  case (Cons ph phs)
  let ?c = "c\<lparr>c_chans := (c_chans c)(ph_respCh ph := [skip_resume])\<rparr>"
  have "chan_send (ph_respCh ph) skip_resume c = Some ?c" using Cons.prems(2) by (simp add: chan_send_def)
  moreover have "\<exists>c1. send_all phs ?c = Some c1 \<and> c_pending c1 = []"
    by (rule Cons.IH) (use Cons.prems in \<open>auto simp: image_iff\<close>)
  ultimately show ?case by simp
qed simp

lemma ResumeAll_ok: "ctl_ok c \<Longrightarrow> \<exists>c1. ResumeAll c = Some c1 \<and> ctl_ok c1"
  using send_all_ok [of "map snd (c_pending c)" "c\<lparr>c_pending := []\<rparr>"]
  by (auto simp: ResumeAll_def ResumeAll_take_def ctl_ok_def pend_chans_def comp_def)

lemma sub_recv_keeps: "sub_recv i c = Some (h, c1) \<Longrightarrow> c_pending c1 = c_pending c \<and> c_chans c1 = c_chans c"
  by (auto simp: sub_recv_def split: if_splits list.splits)

lemma drain_sub_keeps: "drain_sub i (n, c) = (m, c1) \<Longrightarrow> c_pending c1 = c_pending c \<and> c_chans c1 = c_chans c"
proof (induction i "(n, c)" arbitrary: n c rule: drain_sub.induct)
  case (1 i n c)
  then show ?case
    by (subst (asm) (2) drain_sub.simps) (auto split: option.splits dest: sub_recv_keeps)
qed

lemma drainBreakpointSub_ok:
  assumes "ui_ok a"
  shows "ui_ok (drainBreakpointSub a)"
proof (cases "ap_breakpoints a")
  case (Some c)
  obtain i c1 where s: "(case ap_breakpointSub a of Some i \<Rightarrow> (i, c) | None \<Rightarrow> Subscribe c) = (i, c1)"
    by (metis prod.exhaust)
  then have c1: "c_pending c1 = c_pending c" "c_chans c1 = c_chans c"
    by (auto simp: Subscribe_def split: option.splits)
  obtain n c2 where d: "drain_sub i (ap_breakpointHitCount a, c1) = (n, c2)" by (metis prod.exhaust)
  from drain_sub_keeps [OF d] c1 have "ctl_ok c2 = ctl_ok c" by (simp add: ctl_ok_def pend_chans_def)
  moreover have "drainBreakpointSub a = a\<lparr>ap_breakpoints := Some c2, ap_breakpointSub := Some i, ap_breakpointHitCount := n\<rparr>"
    by (simp add: drainBreakpointSub_def Some s d)
  ultimately show ?thesis using assms Some by (simp add: ui_ok_def)
qed (use assms in \<open>simp add: drainBreakpointSub_def\<close>)

subsection \<open>The modals\<close>

text \<open>What a key handler has to do: end in a state that keeps the invariant, with some command.\<close>

definition ends_ok :: "('w App \<times> cmd) ui \<Rightarrow> bool" where
  "ends_ok r \<longleftrightarrow> (\<exists>a c. r = Inr (a, c) \<and> ui_ok a)"

lemma ends_ok_Inr [simp]: "ends_ok (Inr (a, c)) = ui_ok a"
  by (simp add: ends_ok_def)

lemma ends_ok_stay [simp]: "ends_ok (stay a) = ui_ok a"
  by (simp add: stay_def)

lemma if_ends: "(b \<Longrightarrow> ends_ok r) \<Longrightarrow> (\<not> b \<Longrightarrow> ends_ok r1) \<Longrightarrow> ends_ok (if b then r else r1)"
  by simp

lemma ends_ok_refreshed: "ui_ok a \<Longrightarrow> ends_ok (refreshed U a)"
  using refreshed_ok by (auto simp: ends_ok_def)

lemma ends_ok_chosen:
  assumes "0 \<le> i" and "\<And>x. x \<in> set xs \<Longrightarrow> ends_ok (f x)" and "ends_ok r"
  shows "ends_ok (chosen xs i f r)"
  using assms by (simp add: chosen_ok)

lemma updateThrottle_ok: "ui_ok a \<Longrightarrow> ends_ok (updateThrottle k a)"
proof -
  assume ok: "ui_ok a"
  then have c: "0 \<le> ap_throttleCursor a" by (simp add: ui_ok_def)
  have "ends_ok (chosen throttlePresets (ap_throttleCursor a)
      (\<lambda>p. stay (a\<lparr>ap_throttle := Some (p_SetThrottle (tp_bps p) (tp_latency p) px), ap_showThrottle := False\<rparr>))
      (stay (a\<lparr>ap_showThrottle := False\<rparr>)))" for px
    by (rule ends_ok_chosen [OF c]) (use ok in \<open>simp_all add: ui_ok_def\<close>)
  with ok cursor_moves(1,2) [OF c] show ?thesis
    by (auto simp: updateThrottle_def ui_ok_def split: option.split)
qed

lemma updateSettings_ok: "ui_ok a \<Longrightarrow> ends_ok (updateSettings U k a)"
proof -
  assume ok: "ui_ok a"
  then have c: "0 \<le> ap_settingsCursor a" "ap_settingsCursor a < int (length settingsFields)" by (simp_all add: ui_ok_def)
  have at: "at settingsFields (ap_settingsCursor a) = Inr (settingsFields ! nat (ap_settingsCursor a))"
    using c by (simp add: at_def)
  have enter: "ends_ok (enterSetting U cfg f a)" for cfg f
    using ok by (simp add: enterSetting_def ui_ok_def)
  have input: "ends_ok (updateSettingsInput U k a)"
    using ok by (auto simp: updateSettingsInput_def at ui_ok_def split: option.split)
  show ?thesis
    using ok enter input cursor_moves(1,2) [OF c(1)] cursor_moves(3,4) [OF c(2)]
    by (auto simp: updateSettings_def at ui_ok_def split: option.split)
qed

lemma relist_fields:
  "ap_scriptsCursor (relist U m a) = ap_scriptsCursor a" "ap_scripts (relist U m a) \<noteq> None"
  "ui_ok a \<Longrightarrow> ui_ok (relist U m a)"
  by (auto simp: relist_def ui_ok_def split: prod.split)

lemma initScripts_ok: "ui_ok a \<Longrightarrow> ap_scripts a \<noteq> None \<Longrightarrow> ui_ok (initScripts U a)"
  by (auto simp: initScripts_def Let_def intro!: relist_fields(3) split: option.split) (auto simp: ui_ok_def)

lemma updateScripts_ok:
  assumes ok: "ui_ok a" and m: "ap_scripts a \<noteq> None"
  shows "ends_ok (updateScripts U k a)"
proof -
  obtain mg where mg: "ap_scripts a = Some mg" using m by auto
  have c: "0 \<le> ap_scriptsCursor a" using ok by (simp add: ui_ok_def)
  have re: "ui_ok (relist U m1 a)" for m1 using ok by (rule relist_fields(3))
  have add: "ends_ok (updateScriptsMapLocalAdd U k a)"
    using ok re by (auto simp: updateScriptsMapLocalAdd_def Let_def mg ui_ok_def)
  have del: "ends_ok (confirmDelete U k a)"
    unfolding confirmDelete_def with_manager_def mg
    using ok re c by (auto simp: Let_def ui_ok_def intro!: ends_ok_chosen)
  have toggle: "ends_ok (chosen (ap_scriptsList a) (ap_scriptsCursor a)
      (\<lambda>info. with_manager a (\<lambda>m. stay (relist U (snd (m_Toggle (ue_goja U) (si_FilePath info) m)) a))) (stay a))"
    using ok re c by (auto simp: with_manager_def mg intro!: ends_ok_chosen)
  have edit: "ends_ok (chosen (ap_scriptsList a) (ap_scriptsCursor a) (\<lambda>info. Inr (a, EditScript (si_FilePath info))) (stay a))"
    using ok c by (auto intro!: ends_ok_chosen)
  have new: "ends_ok (with_manager a (\<lambda>m. case m_CreateNew (ue_temp U) m of
            (Inl _, m1) \<Rightarrow> stay (a\<lparr>ap_scripts := Some m1\<rparr>)
          | (Inr path, m1) \<Rightarrow> Inr (a\<lparr>ap_scripts := Some m1\<rparr>, EditScript path)))"
    using ok by (auto simp: with_manager_def mg ui_ok_def split: prod.split sum.split)
  show ?thesis
    unfolding updateScripts_def
    using ok add del toggle edit new cursor_moves(1,2) [OF c] by (auto simp: ui_ok_def)
qed

lemma refreshPending_ok [simp]: "ui_ok (refreshBreakpointPending a) = ui_ok a"
  "ap_breakpoints (refreshBreakpointPending a) = ap_breakpoints a"
  "ap_breakpointCursor (refreshBreakpointPending a) = ap_breakpointCursor a"
  by (auto simp: refreshBreakpointPending_def ui_ok_def split: option.split)

lemma close_if_idle_ok [simp]: "ui_ok a \<Longrightarrow> ui_ok (close_if_idle a)"
  "ap_breakpoints (close_if_idle a) = ap_breakpoints a"
  by (simp_all add: close_if_idle_def ui_ok_def)

lemma clampBreakpointCursor_ok: "ui_ok a \<Longrightarrow> ui_ok (clampBreakpointCursor n a)"
  by (simp add: clampBreakpointCursor_def ui_ok_def)

text \<open>A call on the controller that never blocks.\<close>

definition call_ok :: "(controller \<Rightarrow> controller option) \<Rightarrow> bool" where
  "call_ok f \<longleftrightarrow> (\<forall>c. ctl_ok c \<longrightarrow> (\<exists>c1. f c = Some c1 \<and> ctl_ok c1))"

lemma calls_ok: "call_ok (Resume fid r)" "call_ok ResumeAll"
  unfolding call_ok_def using Resume_ok ResumeAll_ok by blast+

lemma with_controller_ok:
  assumes "ui_ok a" and "ap_breakpoints a \<noteq> None" and "call_ok f"
  shows "\<exists>a1. with_controller a f k = k a1 \<and> ui_ok a1 \<and> ap_breakpoints a1 \<noteq> None"
proof -
  obtain c where c: "ap_breakpoints a = Some c" using assms(2) by auto
  then have "ctl_ok c" using assms(1) by (simp add: ui_ok_def)
  with assms(3) obtain c1 where c1: "f c = Some c1" "ctl_ok c1" unfolding call_ok_def by blast
  have "ui_ok (a\<lparr>ap_breakpoints := Some c1\<rparr>)" using assms(1) c1(2) by (simp add: ui_ok_def)
  then show ?thesis by (intro exI [of _ "a\<lparr>ap_breakpoints := Some c1\<rparr>"]) (simp add: with_controller_def c c1)
qed

lemma resumeEdited_ok:
  assumes "ui_ok a" and "ap_breakpoints a \<noteq> None"
  shows "ends_ok (resumeEdited hit r a)"
proof -
  from with_controller_ok [OF assms calls_ok(1)] obtain a1 where
    "resumeEdited hit r a = stay (close_if_idle (refreshBreakpointPending (a1\<lparr>ap_editingBreakpoint := None\<rparr>)))"
    and "ui_ok a1" "ap_breakpoints a1 \<noteq> None" unfolding resumeEdited_def by blast
  moreover from \<open>ui_ok a1\<close> have "ui_ok (a1\<lparr>ap_editingBreakpoint := None\<rparr>)" by (simp add: ui_ok_def)
  ultimately show ?thesis by simp
qed

lemma updateBreakpointEditor_ok:
  assumes "ui_ok a" and "ap_breakpoints a \<noteq> None"
  shows "ends_ok (updateBreakpointEditor U k hit a)"
  using resumeEdited_ok [OF assms] assms(1) by (auto simp: updateBreakpointEditor_def ui_ok_def)

lemma updateBreakpointQueue_ok:
  assumes ok: "ui_ok a0" and b: "ap_breakpoints a0 \<noteq> None"
  shows "ends_ok (updateBreakpointQueue U k a0)"
proof -
  let ?a = "refreshBreakpointPending a0"
  let ?n = "int (length (ap_breakpointPending ?a))"
  have ok1: "ui_ok ?a" using ok by simp
  have b1: "ap_breakpoints ?a \<noteq> None" using b by simp
  have c: "0 \<le> ap_breakpointCursor ?a" using ok1 by (simp only: ui_ok_def)
  have clamp: "ends_ok (and_then (Inr a1) (\<lambda>a1. stay (clampBreakpointCursor ?n a1)))" if "ui_ok a1" for a1
    using that clampBreakpointCursor_ok by (simp del: refreshPending_ok)
  have moved: "ui_ok (?a\<lparr>ap_breakpointCursor := cursor_down ?n (ap_breakpointCursor ?a)\<rparr>)"
      "ui_ok (?a\<lparr>ap_breakpointCursor := cursor_up (ap_breakpointCursor ?a)\<rparr>)" "ui_ok (?a\<lparr>ap_showBreakpointQueue := False\<rparr>)"
    using ok1 cursor_moves(1,2) [OF c] by (auto simp: ui_ok_def)
  have edit: "\<exists>a1. chosen (ap_breakpointPending ?a) (ap_breakpointCursor ?a) (\<lambda>hit. Inr (initBreakpointEditor U hit ?a)) (Inr ?a) = Inr a1 \<and> ui_ok a1"
    using ok1 b1 unfolding chosen_ok [OF c] by (auto simp: initBreakpointEditor_def ui_ok_def)
  obtain a2 where all: "with_controller ?a ResumeAll (\<lambda>a1. Inr (close_if_idle (refreshBreakpointPending a1))) =
      Inr (close_if_idle (refreshBreakpointPending a2))" "ui_ok a2"
    using with_controller_ok [OF ok1 b1 calls_ok(2)] by blast
  obtain cc where cc: "ap_breakpoints ?a = Some cc" using b1 by auto
  have close: "ui_ok (close_if_idle (refreshBreakpointPending a2))" using all(2) by simp
  have pick: "ends_ok (and_then (if b then r else r1) f)" if "b \<Longrightarrow> ends_ok (and_then r f)" "\<not> b \<Longrightarrow> ends_ok (and_then r1 f)"
    for b :: bool and r r1 :: "'a App ui" and f
    using that by simp
  from edit obtain a3 where a3: "chosen (ap_breakpointPending ?a) (ap_breakpointCursor ?a)
      (\<lambda>hit. Inr (initBreakpointEditor U hit ?a)) (Inr ?a) = Inr a3" "ui_ok a3" by blast
  show ?thesis
    unfolding updateBreakpointQueue_def Let_def cc option.case all(1) a3(1)
    by (cases "?n = 0 \<or> k = ''esc'' \<or> k = ''B''", simp only: if_True ends_ok_stay moved(3), simp only: if_False)
      (intro pick clamp moved(1) moved(2) a3(2) close ok1)
qed

lemma updateBreakpoint_ok: "ui_ok a \<Longrightarrow> ap_breakpoints a \<noteq> None \<Longrightarrow> ends_ok (updateBreakpoint U k a)"
  by (auto simp: updateBreakpoint_def split: option.split intro: updateBreakpointEditor_ok updateBreakpointQueue_ok)

lemma focusComposeField_ok: "ui_ok a \<Longrightarrow> ui_ok (focusComposeField U a)"
  by (simp add: focusComposeField_def Let_def ui_ok_def)

lemma sendCompose_ok: "ui_ok a \<Longrightarrow> ends_ok (sendCompose U a)"
  by (simp add: sendCompose_def ui_ok_def split: sum.split)

lemma updateCompose_ok:
  assumes "ui_ok a"
  shows "ends_ok (updateCompose U k a)"
proof -
  have f: "ui_ok (focusComposeField U (a\<lparr>ap_composeFocus := n\<rparr>))" for n
    by (rule focusComposeField_ok) (use assms in \<open>simp add: ui_ok_def\<close>)
  have u: "ui_ok (a\<lparr>ap_showCompose := b\<rparr>)" "ui_ok (a\<lparr>ap_composeMethod := m\<rparr>)" "ui_ok (a\<lparr>ap_composeURL := w\<rparr>)"
      "ui_ok (a\<lparr>ap_composeHeaders := w\<rparr>)" "ui_ok (a\<lparr>ap_composeBody := w\<rparr>)" for b m w
    using assms by (simp_all add: ui_ok_def)
  show ?thesis unfolding updateCompose_def
    by (simp add: f u assms sendCompose_ok split: option.split)
qed

lemma updateExport_ok:
  assumes "ui_ok a"
  shows "ends_ok (updateExport U k a)"
proof -
  have u: "ui_ok (a\<lparr>ap_showExport := b\<rparr>)" "ui_ok (a\<lparr>ap_showExport := b, ap_disk := d\<rparr>)" "ui_ok (a\<lparr>ap_exportInput := w\<rparr>)" for b d w
    using assms by (simp_all add: ui_ok_def)
  show ?thesis unfolding updateExport_def doExportHAR_def Let_def
    by (simp add: u split: option.split sum.split prod.split)
qed

subsection \<open>List, detail view and menu\<close>

text \<open>Fields the invariant does not mention.\<close>

lemma ui_frame [simp]:
  "ui_ok (a\<lparr>ap_showDetail := x_showDetail\<rparr>) = ui_ok a"
  "ui_ok (a\<lparr>ap_selectedID := x_selectedID\<rparr>) = ui_ok a"
  "ui_ok (a\<lparr>ap_flows := x_flows\<rparr>) = ui_ok a"
  "ui_ok (a\<lparr>ap_totalFlows := x_totalFlows\<rparr>) = ui_ok a"
  "ui_ok (a\<lparr>ap_filterInput := x_filterInput\<rparr>) = ui_ok a"
  "ui_ok (a\<lparr>ap_filterText := x_filterText\<rparr>) = ui_ok a"
  "ui_ok (a\<lparr>ap_listMode := x_listMode\<rparr>) = ui_ok a"
  "ui_ok (a\<lparr>ap_treeGroupBy := x_treeGroupBy\<rparr>) = ui_ok a"
  "ui_ok (a\<lparr>ap_focusKey := x_focusKey\<rparr>) = ui_ok a"
  "ui_ok (a\<lparr>ap_groupExpanded := x_groupExpanded\<rparr>) = ui_ok a"
  "ui_ok (a\<lparr>ap_treeRows := x_treeRows\<rparr>) = ui_ok a"
  "ui_ok (a\<lparr>ap_showMenu := x_showMenu\<rparr>) = ui_ok a"
  "ui_ok (a\<lparr>ap_showHelp := x_showHelp\<rparr>) = ui_ok a"
  "ui_ok (a\<lparr>ap_showDiff := x_showDiff\<rparr>) = ui_ok a"
  "ui_ok (a\<lparr>ap_diffMarkID := x_diffMarkID\<rparr>) = ui_ok a"
  "ui_ok (a\<lparr>ap_diffContent := x_diffContent\<rparr>) = ui_ok a"
  "ui_ok (a\<lparr>ap_detailSearch := x_detailSearch\<rparr>) = ui_ok a"
  "ui_ok (a\<lparr>ap_searchInput := x_searchInput\<rparr>) = ui_ok a"
  "ui_ok (a\<lparr>ap_searchQuery := x_searchQuery\<rparr>) = ui_ok a"
  "ui_ok (a\<lparr>ap_searchMatchCount := x_searchMatchCount\<rparr>) = ui_ok a"
  "ui_ok (a\<lparr>ap_searchMatchIdx := x_searchMatchIdx\<rparr>) = ui_ok a"
  "ui_ok (a\<lparr>ap_detailTab := x_detailTab\<rparr>) = ui_ok a"
  "ui_ok (a\<lparr>ap_detailVP := x_detailVP\<rparr>) = ui_ok a"
  "ui_ok (a\<lparr>ap_detailReady := x_detailReady\<rparr>) = ui_ok a"
  "ui_ok (a\<lparr>ap_detailRaw := x_detailRaw\<rparr>) = ui_ok a"
  "ui_ok (a\<lparr>ap_detailImagePreview := x_detailImagePreview\<rparr>) = ui_ok a"
  "ui_ok (a\<lparr>ap_detailCollapsed := x_detailCollapsed\<rparr>) = ui_ok a"
  "ui_ok (a\<lparr>ap_detailDecodeErr := x_detailDecodeErr\<rparr>) = ui_ok a"
  "ui_ok (a\<lparr>ap_height := x_height\<rparr>) = ui_ok a"
  "ui_ok (a\<lparr>ap_ready := x_ready\<rparr>) = ui_ok a"
  "ui_ok (a\<lparr>ap_showThrottle := x_showThrottle\<rparr>) = ui_ok a"
  "ui_ok (a\<lparr>ap_showSettings := x_showSettings\<rparr>) = ui_ok a"
  "ui_ok (a\<lparr>ap_showExport := x_showExport\<rparr>) = ui_ok a"
  "ui_ok (a\<lparr>ap_exportInput := x_exportInput\<rparr>) = ui_ok a"
  "ui_ok (a\<lparr>ap_exportSingle := x_exportSingle\<rparr>) = ui_ok a"
  "ui_ok (a\<lparr>ap_showCompose := x_showCompose\<rparr>) = ui_ok a"
  "ui_ok (a\<lparr>ap_composeMethod := x_composeMethod\<rparr>) = ui_ok a"
  "ui_ok (a\<lparr>ap_composeURL := x_composeURL\<rparr>) = ui_ok a"
  "ui_ok (a\<lparr>ap_composeHeaders := x_composeHeaders\<rparr>) = ui_ok a"
  "ui_ok (a\<lparr>ap_composeBody := x_composeBody\<rparr>) = ui_ok a"
  "ui_ok (a\<lparr>ap_composeFocus := x_composeFocus\<rparr>) = ui_ok a"
  "ui_ok (a\<lparr>ap_store := x_store\<rparr>) = ui_ok a"
  "ui_ok (a\<lparr>ap_disk := x_disk\<rparr>) = ui_ok a"
  "ui_ok (a\<lparr>ap_settingsEditing := x_settingsEditing\<rparr>) = ui_ok a"
  "ui_ok (a\<lparr>ap_settingsInput := x_settingsInput\<rparr>) = ui_ok a"
  "ui_ok (a\<lparr>ap_settingsConfig := x_settingsConfig\<rparr>) = ui_ok a"
  "ui_ok (a\<lparr>ap_throttle := x_throttle\<rparr>) = ui_ok a"
  by (simp_all add: ui_ok_def)

lemma ui_ok_selected: "ui_ok a \<Longrightarrow> 0 \<le> i \<Longrightarrow> ui_ok (a\<lparr>ap_selectedIdx := i\<rparr>)"
  by (simp add: ui_ok_def)

lemma updateDetailContent_ok [simp]: "ui_ok (updateDetailContent U a) = ui_ok a"
  by (simp add: updateDetailContent_def Let_def split: sum.split prod.split option.split)

lemma openFlowDetail_ok [simp]: "ui_ok (openFlowDetail U fid a) = ui_ok a"
  by (simp add: openFlowDetail_def initDetailViewport_def)

lemma toggleImagePreview_ok [simp]: "ui_ok (toggleImagePreview a) = ui_ok a"
  by (simp add: toggleImagePreview_def)

lemma applySearch_ok [simp]: "ui_ok (applySearch U a) = ui_ok a"
  by (simp add: applySearch_def Let_def)

lemma nextFlow_ok: "ui_ok a \<Longrightarrow> ui_ok (nextFlow U delta a)"
  by (simp add: nextFlow_def Let_def ui_ok_selected split: option.split)

lemma updateDetailSearch_ok: "ui_ok a \<Longrightarrow> ends_ok (updateDetailSearch U k a)"
  by (simp add: updateDetailSearch_def searchInputKey_def)

lemma initMenu_ok: "ui_ok a \<Longrightarrow> ui_ok (initMenu a)"
  by (auto simp: initMenu_def ui_ok_def listMenuItems_def detailMenuItems_def mitem_def)

lemma open_ok: "ui_ok a \<Longrightarrow> ui_ok (openScripts U a)" "ui_ok a \<Longrightarrow> ui_ok (openThrottle a)"
  "ui_ok a \<Longrightarrow> ui_ok (initSettings U a)" "ui_ok a \<Longrightarrow> ui_ok (initExport U b a)" "ui_ok a \<Longrightarrow> ui_ok (initCompose U a)"
proof -
  assume ok: "ui_ok a"
  show "ui_ok (openScripts U a)" using initScripts_ok [OF ok] ok by (auto simp: openScripts_def)
  have "0 \<le> activeThrottlePreset a" by (simp add: activeThrottlePreset_def split: option.split)
  with ok show "ui_ok (openThrottle a)" by (simp add: openThrottle_def initThrottle_def ui_ok_def)
  have "ui_ok (a\<lparr>ap_showSettings := True, ap_settingsCursor := 0, ap_settingsEditing := False\<rparr>)"
    using ok by (simp add: ui_ok_def settingsFields_def)
  then show "ui_ok (initSettings U a)" by (simp add: initSettings_def Let_def split: sum.split)
  show "ui_ok (initExport U b a)" "ui_ok (initCompose U a)" using ok by (simp_all add: initExport_def initCompose_def)
qed

lemma updateDetail_ok: "ui_ok a \<Longrightarrow> ends_ok (updateDetail U k a)"
  by (simp add: updateDetail_def updateDetailSearch_ok initMenu_ok open_ok nextFlow_ok editBody_def copyCurl_def
      repeatRequest_def split: option.split sum.split prod.split)

lemma ends_ok_on_row:
  assumes "ui_ok a" and "\<And>row. ends_ok (f row)"
  shows "ends_ok (on_row a f)"
proof -
  have "0 \<le> ap_selectedIdx a" using assms(1) by (simp add: ui_ok_def)
  then show ?thesis unfolding on_row_def by (rule ends_ok_chosen) (use assms in simp_all)
qed

lemma home_ok: "ui_ok a \<Longrightarrow> ui_ok (home a)"
  by (simp add: home_def ui_ok_def)

lemma list_keys_ok:
  assumes ok: "ui_ok a"
  shows "ends_ok (updateFlatList U k a)" "ends_ok (updateTreeList U k a)" "ends_ok (updateFocusList U k a)"
proof -
  have i: "0 \<le> ap_selectedIdx a" using ok by (simp add: ui_ok_def)
  have "ends_ok (chosen (ap_flows a) (ap_selectedIdx a) (\<lambda>f. stay (openFlowDetail U (fm_ID f) a)) (stay a))"
    by (rule ends_ok_chosen [OF i]) (use ok in simp_all)
  with ok show "ends_ok (updateFlatList U k a)"
    by (simp add: updateFlatList_def ends_ok_refreshed home_ok open_ok)
  have e: "ui_ok (set_expanded g b a)" for g b using ok by (simp add: set_expanded_def)
  have j: "ui_ok (jumpToParentGroup g a)" for g
    using ok by (simp add: jumpToParentGroup_def ui_ok_selected split: option.split)
  show "ends_ok (updateTreeList U k a)" unfolding updateTreeList_def
    by (intro if_ends ends_ok_on_row ends_ok_refreshed home_ok ok) (simp_all add: ok e j open_ok ui_ok_selected)
  show "ends_ok (updateFocusList U k a)" unfolding updateFocusList_def
    by (intro if_ends ends_ok_on_row ends_ok_refreshed home_ok ok) (simp_all add: ok home_ok open_ok)
qed

lemma handleDiffMark_ok:
  assumes "ui_ok a"
  shows "ends_ok (handleDiffMark U a)"
proof -
  have i: "0 \<le> ap_selectedIdx a" using assms by (simp add: ui_ok_def)
  show ?thesis using assms unfolding handleDiffMark_def chosen_ok [OF i]
    by (simp split: sum.split prod.split)
qed

text \<open>The movement that can leave the list: a page down when there is nothing to move on.\<close>

definition page_down_on_empty :: "key \<Rightarrow> 'w App \<Rightarrow> bool" where
  "page_down_on_empty k a = ((k = ''pgdown'' \<or> k = ''ctrl+d'') \<and> visibleLen a = 0)"

definition nav_ok :: "'w App option \<Rightarrow> bool" where
  "nav_ok r \<longleftrightarrow> (\<forall>a. r = Some a \<longrightarrow> ui_ok a)"

lemma nav_ok_if: "(b \<Longrightarrow> nav_ok r) \<Longrightarrow> (\<not> b \<Longrightarrow> nav_ok r1) \<Longrightarrow> nav_ok (if b then r else r1)"
  by simp

lemma handleListNav_ok:
  assumes ok: "ui_ok a" and k: "\<not> page_down_on_empty k a"
  shows "nav_ok (handleListNav k a)"
proof -
  have v: "0 \<le> visibleLen a" "0 \<le> pageSize a" "0 \<le> ap_selectedIdx a"
    using ok by (simp_all add: visibleLen_def pageSize_def ui_ok_def)
  have n: "nav_ok None" "ui_ok b \<Longrightarrow> nav_ok (Some b)" for b :: "'a App" by (simp_all add: nav_ok_def)
  show ?thesis unfolding handleListNav_def Let_def
  proof (intro nav_ok_if n)
    assume "k = ''pgdown'' \<or> k = ''ctrl+d''"
    with k v have "0 \<le> min (ap_selectedIdx a + pageSize a) (visibleLen a - 1)" by (auto simp: page_down_on_empty_def)
    with ok show "ui_ok (a\<lparr>ap_selectedIdx := min (ap_selectedIdx a + pageSize a) (visibleLen a - 1)\<rparr>)"
      by (rule ui_ok_selected)
  next
    show "ui_ok (a\<lparr>ap_selectedIdx := 0, ap_listOffset := 0\<rparr>)" using ok by (simp add: ui_ok_def)
  qed (use ok v in \<open>simp_all add: ui_ok_selected\<close>)
qed

lemma applyFilter_ok: "ui_ok a \<Longrightarrow> ui_ok (applyFilter U a)"
  using applyFilter_total [of U a] by (simp add: applyFilter_def Let_def ui_ok_def)

lemma updateList_ok:
  assumes ok: "ui_ok a" and k: "\<not> page_down_on_empty k a"
  shows "ends_ok (updateList U k a)"
proof -
  have "ends_ok (filterKey U k a)" using ok by (simp add: filterKey_def Let_def applyFilter_ok)
  moreover have "ap_breakpoints a \<noteq> None \<Longrightarrow> ui_ok (initBreakpointQueue a)"
    using ok unfolding initBreakpointQueue_def refreshPending_ok(1) by (simp add: ui_ok_def)
  moreover have "ends_ok (case handleListNav k a of Some a1 \<Rightarrow> stay a1
        | None \<Rightarrow> (case ap_listMode a of modeTree \<Rightarrow> updateTreeList U k a
            | modeFocus \<Rightarrow> updateFocusList U k a | modeFlat \<Rightarrow> updateFlatList U k a))"
    using handleListNav_ok [OF ok k] list_keys_ok [OF ok] by (simp add: nav_ok_def split: option.split listMode.split)
  ultimately show ?thesis unfolding updateList_def
    using ok by (simp add: Let_def open_ok initMenu_ok handleDiffMark_ok)
qed

lemma updateMenu_ok:
  assumes ok: "ui_ok a"
  shows "ends_ok (updateMenu U k a)"
proof -
  have c: "0 \<le> ap_menuCursor a" using ok by (simp add: ui_ok_def)
  have "ends_ok (dispatchMenuAction U a)" unfolding dispatchMenuAction_def
  proof (rule ends_ok_chosen [OF c])
    fix item assume "item \<in> set (ap_menuItems a)"
    then have "\<not> page_down_on_empty (mi_key item) (a\<lparr>ap_showMenu := False\<rparr>)"
      using ok by (auto simp: ui_ok_def page_down_on_empty_def)
    with ok show "ends_ok (if ap_showDetail a then updateDetail U (mi_key item) (a\<lparr>ap_showMenu := False\<rparr>)
        else updateList U (mi_key item) (a\<lparr>ap_showMenu := False\<rparr>))"
      by (simp add: updateDetail_ok updateList_ok)
  qed (use ok in simp)
  moreover have "ui_ok (a\<lparr>ap_menuCursor := cursor_down n (ap_menuCursor a)\<rparr>)" "ui_ok (a\<lparr>ap_menuCursor := cursor_up (ap_menuCursor a)\<rparr>)" for n
    using ok cursor_moves(1,2) [OF c] by (auto simp: ui_ok_def)
  ultimately show ?thesis using ok by (simp add: updateMenu_def)
qed

lemma keyPress_ok:
  assumes ok: "ui_ok a" and k: "\<not> page_down_on_empty k a"
  shows "ends_ok (keyPress U k a)"
proof -
  have b: "ap_showBreakpointQueue a \<Longrightarrow> ap_breakpoints a \<noteq> None" and m: "ap_showScripts a \<Longrightarrow> ap_scripts a \<noteq> None"
    using ok by (auto simp: ui_ok_def)
  show ?thesis unfolding keyPress_def
    by (intro if_ends updateBreakpoint_ok [OF ok b] updateSettings_ok updateThrottle_ok updateScripts_ok [OF ok m]
        updateMenu_ok updateExport_ok updateCompose_ok updateDetail_ok updateList_ok ok k)
      (simp_all add: ok)
qed

definition safe_msg :: "ui_msg \<Rightarrow> 'w App \<Rightarrow> bool" where
  "safe_msg msg a = (case msg of KeyPressMsg k \<Rightarrow> \<not> page_down_on_empty k a
     | WindowSizeMsg w h \<Rightarrow> 0 \<le> w | _ \<Rightarrow> True)"

lemma ui_update_ok:
  assumes ok: "ui_ok a" and "safe_msg msg a"
  shows "ends_ok (ui_update U msg a)"
proof (cases msg)
  case TickMsg
  obtain a1 where "refreshFlows U a = Inr a1" "ui_ok a1" using refreshFlows_ok [OF ok] by blast
  with TickMsg show ?thesis by (simp add: drainBreakpointSub_ok)
next
  case scriptEditorFinishedMsg
  then show ?thesis using ok relist_fields(3) [OF ok] by (simp split: option.split)
next
  case (KeyPressMsg k)
  then show ?thesis using assms keyPress_ok [OF ok] by (simp add: safe_msg_def)
next
  case (WindowSizeMsg w h)
  with assms have "0 \<le> w" by (simp add: safe_msg_def)
  then have "ui_ok (a\<lparr>ap_width := w\<rparr>)" using ok by (simp add: ui_ok_def)
  then have "ui_ok (a\<lparr>ap_width := w, ap_height := h, ap_ready := True\<rparr>)" by simp
  then show ?thesis using WindowSizeMsg by (simp add: Let_def)
qed (use ok in \<open>simp_all add: Let_def\<close>)

subsection \<open>Drawing\<close>

lemma and_then_Inr [simp]: "and_then r Inr = r"
  by (cases r) simp_all

lemma clampOffset_bounds:
  assumes "0 \<le> ap_selectedIdx a" and "0 \<le> ap_listOffset a" and "0 \<le> cnt"
  shows "0 \<le> clampOffset cnt a"
    and "5 < ap_height a \<Longrightarrow> ap_selectedIdx a < cnt \<Longrightarrow>
      clampOffset cnt a \<le> ap_selectedIdx a \<and> ap_selectedIdx a < clampOffset cnt a + (ap_height a - 5)"
  using assms by (auto simp: clampOffset_def Let_def max_def)

lemma render_rows_at:
  "0 \<le> i \<Longrightarrow> render_rows (\<lambda>i. and_then (at xs i) (\<lambda>x. Inr (f x))) i (int (length xs)) n = Inr (map f (take n (drop (nat i) xs)))"
proof (induction n arbitrary: i)
  case (Suc n)
  show ?case
  proof (cases "i < int (length xs)")
    case True
    then have "at xs i = Inr (xs ! nat i)" "drop (nat i) xs = xs ! nat i # drop (nat (i + 1)) xs"
      using Suc.prems by (simp_all add: at_def Cons_nth_drop_Suc nat_add_distrib)
    with True Suc.IH [of "i + 1"] Suc.prems show ?thesis by simp
  qed (use Suc.prems in simp)
qed simp

text \<open>The rows of the list, whatever its mode, and those the screen shows.\<close>

definition list_rows :: "'w App \<Rightarrow> treeRow list" where
  "list_rows a = (if ap_listMode a = modeFlat
     then map (\<lambda>f. \<lparr>tw_IsHeader = False, tw_GroupKey = [], tw_Flow = f\<rparr>) (ap_flows a) else ap_treeRows a)"

lemma length_list_rows: "int (length (list_rows a)) = visibleLen a"
  by (simp add: list_rows_def visibleLen_def)

definition window :: "'w App \<Rightarrow> 'b list \<Rightarrow> 'b list" where
  "window a xs = take (nat (max (ap_height a - 5) 0)) (drop (nat (clampOffset (visibleLen a) a)) xs)"

definition scrolled :: "'w App \<Rightarrow> 'w App" where
  "scrolled a = a\<lparr>ap_listOffset := clampOffset (visibleLen a) a\<rparr>"

lemma writeRows_at:
  assumes "ui_ok a" and "int (length xs) = visibleLen a"
  shows "writeRows (\<lambda>i. and_then (at xs i) (\<lambda>x. Inr (f x))) (int (length xs)) a = Inr (map f (window a xs), scrolled a)"
proof -
  have "0 \<le> clampOffset (visibleLen a) a"
    using clampOffset_bounds(1) [of a "visibleLen a"] assms(1) by (auto simp: ui_ok_def visibleLen_def)
  from render_rows_at [OF this, of xs f] show ?thesis
    by (simp add: writeRows_def Let_def window_def scrolled_def assms(2))
qed

lemma scrolled_ok: "ui_ok a \<Longrightarrow> ui_ok (scrolled a)"
  using clampOffset_bounds(1) [of a "visibleLen a"] by (auto simp: ui_ok_def visibleLen_def scrolled_def)

text \<open>The text of a row in the current mode.\<close>

definition row_text :: "'w ui_env \<Rightarrow> 'w App \<Rightarrow> treeRow \<Rightarrow> string" where
  "row_text U a row = (case ap_listMode a of
       modeFlat \<Rightarrow> (case columnWidths (ap_width a) of (hostW, pathW) \<Rightarrow>
          renderFlowRow (sty U) (sc_secs (ue_screen U)) (tw_Flow row) hostW pathW)
     | modeTree \<Rightarrow> renderTreeRow U a (treePathWidth (ap_width a)) row
     | modeFocus \<Rightarrow> renderFlowColumns (sty U) (sc_secs (ue_screen U)) (tw_Flow row) (focusPathWidth (ap_width a)) []
          (process_column (tw_Flow row)))"

lemma truncate_ok: "0 \<le> w \<Longrightarrow> \<exists>t. lift_res (Tui_Text.truncate s w) = Inr t"
  by (auto simp: Tui_Text.truncate_def lift_res_def Let_def)

lemma rule_line_ok: "0 \<le> ap_width a \<Longrightarrow> \<exists>r. rule_line a = Inr r"
  by (simp add: rule_line_def)

lemma column_header_ok: "0 \<le> ap_width a \<Longrightarrow> \<exists>h r. column_header U a hdr = Inr [h, r]"
  using truncate_ok [of "ap_width a" hdr] rule_line_ok [of a] by (auto simp: column_header_def)

lemma length_empty_message: "length (empty_message U n msg) = (if n = 0 then 1 else 0)"
  by (simp add: empty_message_def)

lemma viewList_eq:
  assumes "ui_ok a"
  shows "\<exists>head. viewList U a = Inr (unlines_nl (head @ mark_selected U (scrolled a) (map (row_text U a) (window a (list_rows a))) @
       blanks a (4 + length (window a (list_rows a)))) @ statusText U (scrolled a), scrolled a) \<and>
     length head = (if list_rows a = [] then 4 else 3)"
proof -
  have w: "0 \<le> ap_width a" using assms by (simp add: ui_ok_def)
  show ?thesis
  proof (cases "ap_listMode a")
    case modeFlat
    obtain hostW pathW where cw: "columnWidths (ap_width a) = (hostW, pathW)" by (cases "columnWidths (ap_width a)")
    have n: "int (length (ap_flows a)) = visibleLen a" using modeFlat by (simp add: visibleLen_def)
    note wr = writeRows_at [OF assms n, of "\<lambda>f. renderFlowRow (sty U) (sc_secs (ue_screen U)) f hostW pathW"]
    have m: "map (row_text U a) (window a (list_rows a)) =
        map (\<lambda>f. renderFlowRow (sty U) (sc_secs (ue_screen U)) f hostW pathW) (window a (ap_flows a))"
      using modeFlat cw by (simp add: list_rows_def window_def row_text_def drop_map take_map)
    have l: "length (window a (list_rows a)) = length (window a (ap_flows a))" "list_rows a = [] \<longleftrightarrow> ap_flows a = []"
      using modeFlat by (simp_all add: list_rows_def window_def)
    obtain h r where "column_header U a (columns [(7, ''METHOD''), (6, ''STATUS''), (nat hostW, ''HOST''), (nat pathW, ''PATH''),
        (12, ''TYPE''), (15, ''PROCESS'')]) = Inr [h, r]" using column_header_ok [OF w] by blast
    then show ?thesis using modeFlat wr unfolding m l
      by (intro exI [of _ "filter_bar U a # [h, r] @ empty_message U (length (ap_flows a)) (waiting a)"])
        (simp add: viewList_def viewFlatList_def cw list_screen_def length_empty_message)
  next
    case modeTree
    have n: "int (length (ap_treeRows a)) = visibleLen a" using modeTree by (simp add: visibleLen_def)
    have r: "row_text U a = renderTreeRow U a (treePathWidth (ap_width a))" using modeTree by (simp add: row_text_def fun_eq_iff)
    note wr = writeRows_at [OF assms n, of "row_text U a", unfolded r]
    obtain h ln where "column_header U a (''    '' @ columns [(7, ''METHOD''), (6, ''STATUS''), (nat (treePathWidth (ap_width a)), ''PATH''),
        (12, ''TYPE''), (15, ''PROCESS'')]) = Inr [h, ln]" using column_header_ok [OF w] by blast
    then show ?thesis using modeTree wr unfolding r
      by (intro exI [of _ "filter_bar U a # [h, ln] @ empty_message U (length (ap_treeRows a)) (waiting a)"])
        (simp add: viewList_def viewTreeList_def Let_def list_screen_def length_empty_message list_rows_def)
  next
    case modeFocus
    let ?g = "\<lambda>row. renderFlowColumns (sty U) (sc_secs (ue_screen U)) (tw_Flow row) (focusPathWidth (ap_width a)) [] (process_column (tw_Flow row))"
    have n: "int (length (ap_treeRows a)) = visibleLen a" using modeFocus by (simp add: visibleLen_def)
    have r: "row_text U a = ?g" using modeFocus by (simp add: row_text_def fun_eq_iff)
    note wr = writeRows_at [OF assms n, of ?g]
    obtain h ln where "column_header U a (columns [(7, ''METHOD''), (6, ''STATUS''), (nat (focusPathWidth (ap_width a)), ''PATH''),
        (12, ''TYPE''), (15, ''PROCESS'')]) = Inr [h, ln]" using column_header_ok [OF w] by blast
    then show ?thesis using modeFocus wr unfolding r
      by (intro exI [of _ "(sty U ''Header'' (''['' @ ap_focusKey a @ '']'') @ ''  '' @ sty U ''Muted'' ''Esc to unfocus'') # [h, ln] @
            empty_message U (length (ap_treeRows a)) ''No flows for this host''"])
        (simp add: viewList_def viewFocusList_def Let_def list_screen_def length_empty_message list_rows_def)
  qed
qed

lemma titled_ok: "0 \<le> ap_width a \<Longrightarrow> \<exists>s. titled U a title content used bar = Inr s"
  using rule_line_ok [of a] by (auto simp: titled_def)

text \<open>Every screen can be drawn; only the list changes the App, by its offset.\<close>

definition draws :: "'w App \<Rightarrow> (string \<times> 'w App) ui \<Rightarrow> bool" where
  "draws a r \<longleftrightarrow> (\<exists>s. r = Inr (s, a) \<or> r = Inr (s, scrolled a))"

lemma draws_intros:
  "draws a (Inr (s, a))" "\<exists>s. v = Inr s \<Longrightarrow> draws a (keeping a v)"
  "(c \<Longrightarrow> draws a r1) \<Longrightarrow> (\<not> c \<Longrightarrow> draws a r2) \<Longrightarrow> draws a (if c then r1 else r2)"
  by (auto simp: draws_def keeping_def)

lemma viewContent_ok:
  assumes "ui_ok a"
  shows "draws a (viewContent U a)"
proof -
  have w: "0 \<le> ap_width a" and m: "ap_showScripts a \<Longrightarrow> ap_scripts a \<noteq> None" using assms by (auto simp: ui_ok_def)
  obtain r where r: "rule_line a = Inr r" using rule_line_ok [OF w] by blast
  have b: "\<exists>s. viewBreakpoint U a = Inr s"
    using titled_ok [OF w] r by (auto simp: viewBreakpoint_def viewBreakpointQueue_def viewBreakpointEditor_def split: option.split)
  have d: "\<exists>s. viewDetail U a = Inr s"
  proof (cases "Get (ap_selectedID a) (ap_store a)")
    case (Inr x)
    obtain meta dat where x: "x = (meta, dat)" by (cases x)
    let ?hdr = "''< Esc    '' @ fm_Method meta @ '' '' @ Itoa (fm_StatusCode meta) @ '' '' @ fm_Scheme meta @ ''://'' @
        fm_Host meta @ fm_Path meta @ ''    '' @ formatDuration (sc_secs (ue_screen U)) (fm_Duration meta) @ ''  '' @
        formatSize (fm_SizeBytes meta)"
    obtain t1 t2 where "lift_res (Tui_Text.truncate ?hdr (ap_width a)) = Inr t1"
      "lift_res (Tui_Text.truncate (detail_bar U a) (ap_width a)) = Inr t2" using truncate_ok [OF w] by meson
    then show ?thesis using r Inr x unfolding viewDetail_def by (simp add: Let_def)
  qed (simp add: viewDetail_def)
  have s: "\<exists>s. viewScripts U a = Inr s" if "ap_showScripts a"
    using m [OF that] by (auto simp: viewScripts_def script_list_lines_def with_manager_def)
  have f: "\<exists>s. viewDiff U a = Inr s" "\<exists>s. viewHelp U a = Inr s" "\<exists>s. viewExport U a = Inr s" "\<exists>s. viewCompose U a = Inr s"
    using r by (simp_all add: viewDiff_def viewHelp_def viewExport_def viewCompose_def titled_def)
  have l: "draws a (viewList U a)" using viewList_eq [OF assms, of U] by (auto simp: draws_def)
  show ?thesis unfolding viewContent_def
    by (intro draws_intros b d s f l)
qed

end
