(* ===== verification/Tui_Run.thy ===== *)
theory Tui_Run
  imports Tui_Safety
begin

section \<open>Runs of the terminal UI\<close>

text \<open>
  A run is a sequence of events: a message for \<open>Update\<close>, traffic that leaves another store,
  goroutines that pause flows, and a drawing of the screen, which moves the list's offset.  The
  locale states what any such machine needs; it is interpreted on the App.
\<close>

primrec run_machine :: "('e \<Rightarrow> 's \<Rightarrow> 'x + 's) \<Rightarrow> 'e list \<Rightarrow> 's \<Rightarrow> 'x + 's" where
  "run_machine step [] s = Inr s"
| "run_machine step (e # es) s = (case step e s of Inl x \<Rightarrow> Inl x | Inr s1 \<Rightarrow> run_machine step es s1)"

text \<open>Every event of the run is allowed in the state it meets.\<close>

primrec all_allowed :: "('e \<Rightarrow> 's \<Rightarrow> 'x + 's) \<Rightarrow> ('e \<Rightarrow> 's \<Rightarrow> bool) \<Rightarrow> 'e list \<Rightarrow> 's \<Rightarrow> bool" where
  "all_allowed step allowed [] s = True"
| "all_allowed step allowed (e # es) s = (allowed e s \<and>
     (case step e s of Inl _ \<Rightarrow> True | Inr s1 \<Rightarrow> all_allowed step allowed es s1))"

locale event_machine =
  fixes step :: "'e \<Rightarrow> 's \<Rightarrow> 'x + 's"
    and invar :: "'s \<Rightarrow> bool"
    and allowed :: "'e \<Rightarrow> 's \<Rightarrow> bool"
  assumes step_ok: "invar s \<Longrightarrow> allowed e s \<Longrightarrow> \<exists>s1. step e s = Inr s1 \<and> invar s1"
begin

lemma run_ok: "invar s \<Longrightarrow> all_allowed step allowed es s \<Longrightarrow> \<exists>s1. run_machine step es s = Inr s1 \<and> invar s1"
proof (induction es arbitrary: s)
  case (Cons e es)
  from step_ok [OF Cons.prems(1), of e] Cons.prems(2) obtain s1 where "step e s = Inr s1" "invar s1" by auto
  with Cons.IH [of s1] Cons.prems(2) show ?case by simp
qed simp

end

datatype ui_event = Input ui_msg | Traffic RingBuffer | Paused controller | Draw

text \<open>The list has the keys when nothing lies over it.\<close>

definition list_on_top :: "'w App \<Rightarrow> bool" where
  "list_on_top a = (\<not> ap_showBreakpointQueue a \<and> \<not> ap_showDiff a \<and> \<not> ap_showHelp a \<and> \<not> ap_showSettings a \<and>
     \<not> ap_showThrottle a \<and> \<not> ap_showScripts a \<and> \<not> ap_showMenu a \<and> \<not> ap_showExport a \<and> \<not> ap_showCompose a \<and> \<not> ap_showDetail a)"

definition draw :: "'w ui_env \<Rightarrow> 'w App \<Rightarrow> 'w App ui" where
  "draw U a = and_then (viewContent U a) (\<lambda>(_, a1). Inr a1)"

primrec event_step :: "'w ui_env \<Rightarrow> ui_event \<Rightarrow> 'w App \<Rightarrow> 'w App ui" where
  "event_step U (Input msg) a = and_then (ui_update U msg a) (\<lambda>(a1, _). Inr a1)"
| "event_step U (Traffic rb) a = Inr (a\<lparr>ap_store := rb\<rparr>)"
| "event_step U (Paused c) a = Inr (a\<lparr>ap_breakpoints := map_option (\<lambda>_. c) (ap_breakpoints a)\<rparr>)"
| "event_step U Draw a = draw U a"

primrec allowed_event :: "ui_event \<Rightarrow> 'w App \<Rightarrow> bool" where
  "allowed_event (Input msg) a = safe_msg msg a"
| "allowed_event (Traffic rb) a = True"
| "allowed_event (Paused c) a = (\<exists>w. breach w \<and> c = w_ctl w)"
| "allowed_event Draw a = True"

lemma breach_ctl_ok: "breach w \<Longrightarrow> ctl_ok (w_ctl w)"
proof -
  assume "breach w"
  then have inv: "bp_inv w" by (rule breach_inv)
  then have "distinct (owed w)" "set (owed w) \<inter> full_chans w = {}" "distinct (map fst (c_pending (w_ctl w)))"
    by (auto simp only: bp_inv_def)
  then show ?thesis by (auto simp: ctl_ok_def owed_def full_chans_def)
qed

lemma draw_ok: "ui_ok a \<Longrightarrow> \<exists>a1. draw U a = Inr a1 \<and> ui_ok a1"
  using viewContent_ok [of a U] scrolled_ok [of a] by (auto simp: draw_def draws_def)

interpretation app: event_machine "event_step U" ui_ok allowed_event for U
proof unfold_locales
  fix a :: "'a App" and e
  assume ok: "ui_ok a" and al: "allowed_event e a"
  show "\<exists>a1. event_step U e a = Inr a1 \<and> ui_ok a1"
  proof (cases e)
    case (Input msg)
    with ui_update_ok [OF ok, of msg U] al show ?thesis by (auto simp: ends_ok_def)
  next
    case (Paused c)
    with ok al breach_ctl_ok show ?thesis by (auto simp: ui_ok_def)
  next
    case Draw
    with draw_ok [OF ok, of U] show ?thesis by simp
  qed (use ok in simp_all)
qed

lemma NewApp_ok:
  assumes "\<forall>c. ac_Breakpoints cfg = Some c \<longrightarrow> ctl_ok c"
  shows "ui_ok (NewApp U cfg)"
  using assms by (auto simp: NewApp_def Let_def intro!: applyFilter_ok)
    (auto simp: ui_ok_def filter_total_def run_filter_def settingsFields_def)

text \<open>C11: From its start the terminal UI handles every sequence of messages, drawings, changes of the
  store and pauses of flows without a panic and without blocking on a resume, as long as no page
  down is pressed while the list is empty.\<close>

theorem tui_keeps_running:
  assumes "ac_Breakpoints cfg = Some (w_ctl w)" and "breach w"
    and "all_allowed (event_step U) allowed_event es (NewApp U cfg)"
  shows "\<exists>a. run_machine (event_step U) es (NewApp U cfg) = Inr a \<and> ui_ok a"
proof -
  have "ui_ok (NewApp U cfg)" by (rule NewApp_ok) (use assms(1,2) breach_ctl_ok in auto)
  from app.run_ok [OF this assms(3)] show ?thesis .
qed

text \<open>A world of text fields for examples: a field is its value and whether it has the focus.\<close>

definition demo_ui :: "(string \<times> bool) ui_env" where
  "demo_ui = \<lparr>ui_zero = ([], False), ti_New = ([], False), ti_Limit = (\<lambda>_ w. w), ti_Value = fst,
     ti_SetValue = (\<lambda>v w. (v, snd w)), ti_Focus = (\<lambda>w. (fst w, True)), ti_Blur = (\<lambda>w. (fst w, False)),
     ti_Focused = snd, ti_Update = (\<lambda>m w. case m of KeyPressMsg k \<Rightarrow> (fst w @ k, snd w) | _ \<Rightarrow> w), ti_View = fst,
     ta_New = ([], False), ta_Value = fst, ta_SetValue = (\<lambda>v w. (v, snd w)), ta_Focus = (\<lambda>w. (fst w, True)),
     ta_Blur = (\<lambda>w. (fst w, False)), ta_Update = (\<lambda>m w. case m of KeyPressMsg k \<Rightarrow> (fst w @ k, snd w) | _ \<Rightarrow> w), ta_View = fst,
     vp_New = (\<lambda>_ _. ([], False)), vp_SetContent = (\<lambda>c w. (c, snd w)), vp_SetSize = (\<lambda>_ _ w. w),
     vp_SetYOffset = (\<lambda>_ w. w), vp_Scroll = (\<lambda>_ w. w), vp_HalfPage = (\<lambda>_ w. w), vp_View = fst, vp_ScrollPct = (\<lambda>_. 0),
     ue_sort = newest_first, ue_re = (\<lambda>_. None), ue_goja = idle_goja, ue_temp = (\<lambda>d p x ns. d @ ''/'' @ p @ ''1'' @ x),
     ue_unmarshal = (\<lambda>_. Inl ''no''), ue_marshal = (\<lambda>_. Inl ''no''), ue_har = (\<lambda>_. Inr ''har''), ue_time = (\<lambda>_. []),
     ue_now = ''now'', ue_newreq = (\<lambda>_ _. None), ue_image = (\<lambda>_ _ _. None), ue_screen = plain_screen, ue_darkBg = True\<rparr>"

definition demo_app_cfg :: AppConfig where
  "demo_app_cfg = \<lparr>ac_Store = buf1, ac_Proxy = None, ac_CATrusted = True, ac_Scripts = None, ac_Throttle = None,
     ac_Breakpoints = Some NewController, ac_MCP = None, ac_BodyDecoder = None, ac_DataDir = ''d'', ac_Disk = demo_fs [], ac_InitialFilter = []\<rparr>"

theorem tui_keeps_running_witness:
  "\<exists>a. run_machine (event_step demo_ui) [Input TickMsg, Input (KeyPressMsg ''?''), Traffic buf1] (NewApp demo_ui demo_app_cfg) = Inr a \<and> ui_ok a"
proof (rule tui_keeps_running [of _ start_world])
  show "ac_Breakpoints demo_app_cfg = Some (w_ctl start_world)" by (simp add: demo_app_cfg_def start_world_def)
  show "breach start_world" by (rule breach_start)
  show "all_allowed (event_step demo_ui) allowed_event [Input TickMsg, Input (KeyPressMsg ''?''), Traffic buf1] (NewApp demo_ui demo_app_cfg)"
    by (simp add: safe_msg_def page_down_on_empty_def split: sum.split)
qed

subsection \<open>The cursor of the list\<close>

text \<open>C36: When the list is drawn on a terminal with room for rows, its lines fill the screen: all but
  the last line of it, the status line included; among them is the row under the cursor, drawn
  selected, and the other rows are those of the list around it, at an offset that is never negative.\<close>

theorem cursor_on_screen:
  assumes "ui_ok a" and "ap_selectedIdx a < visibleLen a" and "5 < ap_height a"
  shows "\<exists>head rows rest a1. viewList U a = Inr (unlines_nl (head @ rows @ rest) @ statusText U a1, a1) \<and>
     int (length (head @ rows @ rest)) = ap_height a - 2 \<and> length head = 3 \<and>
     0 \<le> ap_listOffset a1 \<and> ap_listOffset a1 \<le> ap_selectedIdx a \<and> ap_selectedIdx a - ap_listOffset a1 < int (length rows) \<and>
     (\<forall>i < length rows. let row = row_text U a (list_rows a ! (nat (ap_listOffset a1) + i)) in
        rows ! i = (if ap_listOffset a1 + int i = ap_selectedIdx a then sc_wide (ue_screen U) ''Selected'' (ap_width a) row else row))"
proof -
  let ?o = "clampOffset (visibleLen a) a" and ?w = "window a (list_rows a)"
  have s: "0 \<le> ap_selectedIdx a" "0 \<le> ap_listOffset a" "0 \<le> visibleLen a"
    using assms(1) by (auto simp: ui_ok_def visibleLen_def)
  note b = clampOffset_bounds(1) [OF s] clampOffset_bounds(2) [OF s assms(3,2)]
  have ne: "list_rows a \<noteq> []" using length_list_rows [of a] assms(2) s(1) by auto
  obtain head where v: "viewList U a = Inr (unlines_nl (head @ mark_selected U (scrolled a) (map (row_text U a) ?w) @
      blanks a (4 + length ?w)) @ statusText U (scrolled a), scrolled a)" "length head = 3"
    using viewList_eq [OF assms(1), of U] ne by auto
  have lw: "int (length ?w) = min (ap_height a - 5) (visibleLen a - ?o)" "?o \<le> visibleLen a"
    using assms(2,3) b s length_list_rows [of a] by (auto simp: window_def)
  have "nat ?o \<le> length (list_rows a)" using lw(2) length_list_rows [of a] by linarith
  then have nth: "?w ! i = list_rows a ! (nat ?o + i)" if "i < length ?w" for i
    using that by (simp add: window_def)
  let ?rows = "mark_selected U (scrolled a) (map (row_text U a) ?w)" and ?rest = "blanks a (4 + length ?w)"
  have "int (length (head @ ?rows @ ?rest)) = ap_height a - 2"
    using lw assms(3) v(2) by (simp add: mark_selected_def blanks_def)
  moreover have "ap_selectedIdx a - ?o < int (length ?rows)"
    using lw b assms(2) by (simp add: mark_selected_def)
  moreover have "?rows ! i = (if ?o + int i = ap_selectedIdx a then sc_wide (ue_screen U) ''Selected'' (ap_width a)
      (row_text U a (list_rows a ! (nat ?o + i))) else row_text U a (list_rows a ! (nat ?o + i)))" if "i < length ?rows" for i
    using that nth [of i] by (simp add: mark_selected_def scrolled_def nth_enumerate_eq)
  moreover have "ap_listOffset (scrolled a) = ?o" by (simp add: scrolled_def)
  ultimately show ?thesis using v b
    by (intro exI [of _ head] exI [of _ ?rows] exI [of _ ?rest] exI [of _ "scrolled a"]) (simp add: Let_def)
qed

theorem cursor_on_screen_witness:
  "\<exists>head rows rest a1. viewList demo_ui ((NewApp demo_ui demo_app_cfg)\<lparr>ap_flows := [zero_meta], ap_height := 24\<rparr>) =
     Inr (unlines_nl (head @ rows @ rest) @ statusText demo_ui a1, a1) \<and> int (length (head @ rows @ rest)) = 22"
proof -
  have "ui_ok (NewApp demo_ui demo_app_cfg)"
    by (rule NewApp_ok) (simp add: demo_app_cfg_def ctl_ok_def pend_chans_def NewController_def)
  then have "ui_ok ((NewApp demo_ui demo_app_cfg)\<lparr>ap_flows := [zero_meta], ap_height := 24\<rparr>)" by simp
  moreover have "ap_selectedIdx ((NewApp demo_ui demo_app_cfg)\<lparr>ap_flows := [zero_meta], ap_height := 24\<rparr>) <
      visibleLen ((NewApp demo_ui demo_app_cfg)\<lparr>ap_flows := [zero_meta], ap_height := 24\<rparr>)"
    by (simp add: NewApp_def demo_app_cfg_def visibleLen_def Let_def)
  ultimately show ?thesis using cursor_on_screen [of "(NewApp demo_ui demo_app_cfg)\<lparr>ap_flows := [zero_meta], ap_height := 24\<rparr>" demo_ui]
    by simp blast
qed

lemma drain_form: "\<exists>b s n. drainBreakpointSub a = a\<lparr>ap_breakpoints := b, ap_breakpointSub := s, ap_breakpointHitCount := n\<rparr>"
proof (cases "ap_breakpoints a")
  case None
  then have "drainBreakpointSub a = a\<lparr>ap_breakpoints := ap_breakpoints a, ap_breakpointSub := ap_breakpointSub a,
      ap_breakpointHitCount := ap_breakpointHitCount a\<rparr>" by (simp add: drainBreakpointSub_def)
  then show ?thesis by blast
qed (auto simp: drainBreakpointSub_def Let_def split: prod.split)

text \<open>C17: A page down on the empty flat list puts the cursor at -1; when traffic arrives, the next tick
  lists it, and enter then indexes the flows with -1: the program panics.\<close>

theorem page_down_crash:
  assumes "list_on_top a" and "\<not> ti_Focused U (ap_filterInput a)" and "ap_listMode a = modeFlat" and "ap_flows a = []"
    and "ap_storeFilter a = None" and "0 \<le> ap_selectedIdx a" and "0 < rb_count rb"
  shows "run_machine (event_step U) [Input (KeyPressMsg ''pgdown''), Traffic rb, Input TickMsg, Input (KeyPressMsg ''enter'')] a =
     Inl (Crash IndexOutOfRange)"
proof -
  have "min (ap_selectedIdx a + pageSize a) (-1) = -1" using assms(6) by (simp add: pageSize_def)
  then have 1: "event_step U (Input (KeyPressMsg ''pgdown'')) a = Inr (a\<lparr>ap_selectedIdx := -1\<rparr>)"
    using assms by (simp add: list_on_top_def keyPress_def updateList_def handleListNav_def Let_def visibleLen_def stay_def)
  let ?b = "a\<lparr>ap_selectedIdx := -1, ap_store := rb\<rparr>"
  have "List None 0 (list_limit ?b) rb = Inr (page 0 (list_limit ?b) (rev (flows rb)), length (flows rb))"
    using List_refines [of rb None "\<lambda>_. True" 0] by (simp add: run_filter_def)
  moreover have "list_limit ?b > 0" using assms(3) by (simp add: list_limit_def)
  moreover have "flows rb \<noteq> []" using assms(7) by (simp add: flows_def)
  ultimately obtain fls n where l: "List None 0 (list_limit ?b) rb = Inr (fls, n)" "fls \<noteq> []"
    by (auto simp: page_def)
  obtain b s h where d: "drainBreakpointSub (?b\<lparr>ap_flows := fls, ap_totalFlows := n\<rparr>) =
      ?b\<lparr>ap_flows := fls, ap_totalFlows := n, ap_breakpoints := b, ap_breakpointSub := s, ap_breakpointHitCount := h\<rparr>"
    using drain_form by blast
  let ?c = "?b\<lparr>ap_flows := fls, ap_totalFlows := n, ap_breakpoints := b, ap_breakpointSub := s, ap_breakpointHitCount := h\<rparr>"
  have 2: "event_step U (Input TickMsg) ?b = Inr ?c"
    using l d assms(3,5) by (simp add: refreshFlows_def)
  have 3: "event_step U (Input (KeyPressMsg ''enter'')) ?c = Inl (Crash IndexOutOfRange)"
    using assms(1-3) l(2) by (simp add: list_on_top_def keyPress_def updateList_def handleListNav_def updateFlatList_def chosen_negative)
  show ?thesis using 1 2 3 by simp
qed

theorem page_down_crash_witness:
  "run_machine (event_step demo_ui) [Input (KeyPressMsg ''pgdown''), Traffic buf1, Input TickMsg, Input (KeyPressMsg ''enter'')]
     (NewApp demo_ui demo_app_cfg) = Inl (Crash IndexOutOfRange)"
  by (rule page_down_crash) (simp_all add: NewApp_def demo_app_cfg_def Let_def list_on_top_def demo_ui_def buf1_def)

end
