(* ===== verification/Tui_Effects.thy ===== *)
theory Tui_Effects
  imports Tui_Run
begin

section \<open>What the keys of the terminal UI do to the other components\<close>

text \<open>
  The effects of the modals on the throttle, the configuration file, the script files, the paused
  goroutines and the exported file, and the keys and edits that get lost.
\<close>

subsection \<open>Throttle\<close>

lemma preset_found: "i < 4 \<Longrightarrow> IndexFunc (\<lambda>p. tp_bps p = tp_bps (throttlePresets ! i)) throttlePresets = Some i"
proof -
  assume "i < 4"
  then consider "i = 0" | "i = 1" | "i = 2" | "i = 3" by linarith
  then show ?thesis
    by cases (simp_all add: throttlePresets_def PresetBandwidth_def Let_def ToLower_def lower_char_def byte_def)
qed

text \<open>Enter in the throttle modal makes the proxy run with the bandwidth and latency of the preset
  under the cursor and closes the modal; opening it again puts the cursor on that preset; no other
  key changes the throttle.\<close>

theorem throttle_choice:
  assumes "ap_throttle a = Some px" and "px_intc px \<noteq> None" and "ap_throttleCursor a = int i" and "i < 4"
  shows "(\<exists>a' px'. updateThrottle ''enter'' a = Inr (a', NoCmd) \<and> ap_throttle a' = Some px' \<and> \<not> ap_showThrottle a' \<and>
      GetThrottleBPS px' = tp_bps (throttlePresets ! i) \<and> GetThrottleLatency px' = tp_latency (throttlePresets ! i) \<and>
      ap_throttleCursor (initThrottle a') = int i) \<and>
    (k \<noteq> ''enter'' \<longrightarrow> (\<exists>a' c. updateThrottle k a = Inr (a', c) \<and> ap_throttle a' = ap_throttle a))"
proof
  let ?p = "throttlePresets ! i"
  let ?px = "p_SetThrottle (tp_bps ?p) (tp_latency ?p) px"
  let ?a = "a\<lparr>ap_throttle := Some ?px, ap_showThrottle := False\<rparr>"
  have len: "length throttlePresets = 4" by (simp add: throttlePresets_def)
  have "updateThrottle ''enter'' a = Inr (?a, NoCmd)"
    using assms len by (simp add: updateThrottle_def chosen_ok stay_def)
  moreover note px.get_set [OF assms(2), of "tp_bps ?p" "tp_latency ?p"]
  moreover from this have "activeThrottlePreset ?a = int i"
    using preset_found [OF assms(4)] by (simp add: activeThrottlePreset_def)
  ultimately show "\<exists>a' px'. updateThrottle ''enter'' a = Inr (a', NoCmd) \<and> ap_throttle a' = Some px' \<and> \<not> ap_showThrottle a' \<and>
      GetThrottleBPS px' = tp_bps ?p \<and> GetThrottleLatency px' = tp_latency ?p \<and> ap_throttleCursor (initThrottle a') = int i"
    by (intro exI [of _ ?a] exI [of _ ?px]) (simp add: initThrottle_def)
  show "k \<noteq> ''enter'' \<longrightarrow> (\<exists>a' c. updateThrottle k a = Inr (a', c) \<and> ap_throttle a' = ap_throttle a)"
    by (simp add: updateThrottle_def stay_def)
qed

definition throttle_app :: "(string \<times> bool) App" where
  "throttle_app = (NewApp demo_ui demo_app_cfg)\<lparr>ap_throttle := Some \<lparr>px_intc = Some demo_ic, px_bpCtrl = None\<rparr>, ap_throttleCursor := 2\<rparr>"

theorem throttle_choice_witness:
  "\<exists>a' px'. updateThrottle ''enter'' throttle_app = Inr (a', NoCmd) \<and> ap_throttle a' = Some px' \<and> GetThrottleBPS px' = 500000"
proof -
  let ?px = "\<lparr>px_intc = Some demo_ic, px_bpCtrl = None\<rparr> :: proxy"
  have bps: "tp_bps (throttlePresets ! 2) = 500000"
    by (simp add: throttlePresets_def PresetBandwidth_def Let_def ToLower_def lower_char_def byte_def)
  have "ap_throttle throttle_app = Some ?px" "px_intc ?px \<noteq> None" "ap_throttleCursor throttle_app = int 2" "(2::nat) < 4"
    by (simp_all add: throttle_app_def)
  from conjunct1 [OF throttle_choice [OF this]] bps show ?thesis by metis
qed

subsection \<open>Settings\<close>

definition config_valid :: "Config \<Rightarrow> bool" where
  "config_valid c \<longleftrightarrow> 1 \<le> cf_ProxyPort c \<and> cf_ProxyPort c \<le> 65535 \<and> 1 \<le> cf_BufferSize c"

lemma fields_keep_valid: "f \<in> set settingsFields \<Longrightarrow> config_valid c \<Longrightarrow> config_valid (sg_set f v c)"
  by (auto simp: settingsFields_def config_valid_def split: option.split)

definition settings_ok :: "'w App \<Rightarrow> bool" where
  "settings_ok a \<longleftrightarrow> (0 \<le> ap_settingsCursor a \<and> ap_settingsCursor a < int (length settingsFields)) \<and>
     (\<forall>c. ap_settingsConfig a = Some c \<longrightarrow> config_valid c)"

definition settings_step :: "'w ui_env \<Rightarrow> key \<Rightarrow> 'w App \<Rightarrow> 'w App ui" where
  "settings_step U k a = and_then (updateSettings U k a) (\<lambda>(a1, _). Inr a1)"

definition keeps_settings :: "('w App \<times> cmd) ui \<Rightarrow> bool" where
  "keeps_settings r \<longleftrightarrow> (\<exists>a c. r = Inr (a, c) \<and> settings_ok a)"

lemma keeps_settings_simps [simp]: "keeps_settings (Inr (a, c)) = settings_ok a" "keeps_settings (stay a) = settings_ok a"
  by (simp_all add: keeps_settings_def stay_def)

lemma updateSettings_keeps: "settings_ok a \<Longrightarrow> keeps_settings (updateSettings U k a)"
proof -
  assume ok: "settings_ok a"
  then have c: "0 \<le> ap_settingsCursor a" "ap_settingsCursor a < int (length settingsFields)" by (simp_all add: settings_ok_def)
  let ?f = "settingsFields ! nat (ap_settingsCursor a)"
  have at: "at settingsFields (ap_settingsCursor a) = Inr ?f" using c by (simp add: at_def)
  have set: "config_valid (sg_set ?f v cfg)" if "ap_settingsConfig a = Some cfg" for v cfg
    by (rule fields_keep_valid) (use c ok that in \<open>simp_all add: settings_ok_def\<close>)
  have enter: "keeps_settings (enterSetting U cfg ?f a)" if "ap_settingsConfig a = Some cfg" for cfg
    using ok set [OF that] by (simp add: enterSetting_def settings_ok_def)
  have input: "keeps_settings (updateSettingsInput U k a)"
    using ok set by (simp add: updateSettingsInput_def at settings_ok_def split: option.split)
  show ?thesis
    using ok enter input cursor_moves(1,2) [OF c(1)] cursor_moves(3,4) [OF c(2)]
    by (simp add: updateSettings_def at settings_ok_def split: option.split)
qed

interpretation settings: event_machine "settings_step U" settings_ok "\<lambda>_ _. True" for U
proof unfold_locales
  fix a :: "'a App" and k
  assume "settings_ok a"
  from updateSettings_keeps [OF this, of U k] show "\<exists>a1. settings_step U k a = Inr a1 \<and> settings_ok a1"
    by (auto simp: keeps_settings_def settings_step_def)
qed

lemma all_allowed_True: "all_allowed step (\<lambda>_ _. True) es s"
  by (induction es arbitrary: s) (auto split: sum.split)



subsection \<open>Paused flows\<close>

lemma breach_ids: "breach w \<Longrightarrow> \<forall>(k, ph) \<in> set (c_pending (w_ctl w)). bh_FlowID (ph_hit ph) = k"
proof (induction rule: breach.induct)
  case (breach_step w w')
  from breach_step(2,3) show ?case
  proof (induction rule: bstep.induct)
    case (step_pause w hit ch c')
    then show ?case by (auto simp: Pause_begin_def Let_def update_new)
  next
    case (step_take fid w ph c' r)
    then show ?case by (auto simp: Resume_take_def AList.delete_eq split: option.splits)
  qed (auto simp: ResumeAll_take_def chan_send_def chan_recv_def Subscribe_def sub_recv_def split: if_splits list.splits)
qed (simp add: start_world_def NewController_def)

lemma Resume_delivers:
  assumes "ctl_ok c" and "map_of (c_pending c) fid = Some ph"
  shows "Resume fid r c = Some (c\<lparr>c_pending := AList.delete fid (c_pending c), c_chans := (c_chans c)(ph_respCh ph := [r])\<rparr>)"
proof -
  have "ph_respCh ph \<in> set (pend_chans c)" using map_of_SomeD [OF assms(2)] by (force simp: pend_chans_def)
  with assms show ?thesis by (simp add: ctl_ok_def Resume_def Resume_take_def chan_send_def)
qed

lemma editor_saves:
  assumes "ctl_ok c" and "ap_breakpoints a = Some c" and "map_of (c_pending c) (bh_FlowID hit) = Some ph"
  shows "\<exists>a' c'. updateBreakpointEditor U ''ctrl+s'' hit a = Inr (a', NoCmd) \<and> ap_breakpoints a' = Some c' \<and>
    ap_editingBreakpoint a' = None \<and> c_pending c' = AList.delete (bh_FlowID hit) (c_pending c) \<and>
    c_chans c' (ph_respCh ph) = [\<lparr>br_Headers = parseHeadersFromEditor (ta_Value U (ap_bpHeadersTA a)),
      br_Body = Some (ta_Value U (ap_bpBodyTA a)), br_Skipped = False\<rparr>]"
  using assms(2) Resume_delivers [OF assms(1,3)]
  by (simp add: updateBreakpointEditor_def resumeEdited_def with_controller_def stay_def close_if_idle_def refreshBreakpointPending_def)


lemma breach_one_hit: "\<exists>w ph. breach w \<and> c_pending (w_ctl w) = [(bh_FlowID hit, ph)] \<and> ph_hit ph = hit"
proof -
  obtain ch c' where p: "Pause_begin hit (w_ctl start_world) = (ch, c')" by (metis prod.exhaust)
  have "breach (start_world\<lparr>w_ctl := c', w_waiting := insert ch (w_waiting start_world)\<rparr>)"
    by (rule breach_step [OF breach_start step_pause [OF _ p]]) (simp add: start_world_def NewController_def)
  moreover from p have "c_pending c' = [(bh_FlowID hit, \<lparr>ph_hit = hit, ph_respCh = ch\<rparr>)]"
    by (auto simp: Pause_begin_def start_world_def NewController_def Let_def)
  ultimately show ?thesis by (intro exI conjI) auto
qed


subsection \<open>Status line\<close>

lemma mode_help_ascii: "RuneCount (mode_help a) = length (mode_help a)" "2 \<le> length (mode_help a)"
  by (cases "ap_listMode a"; simp add: mode_help_def Runes_ascii byte_def)+

text \<open>The help of the status line is meant to stand at its right end; but the gap is the width the help
  is padded to, not what is put before it: unless the terminal is as wide as the line with the help
  counted twice, the help follows the information without a blank.\<close>

theorem status_line_runs_together:
  assumes "ap_width a \<le> int (length (status_warning U a) + length (status_info U a) + 2 * length (mode_help a))"
  shows "status_line U a = status_warning U a @ status_info U a @ mode_help a"
proof -
  have "nat (max (ap_width a - int (length (status_warning U a)) - int (length (status_info U a)) - int (length (mode_help a))) 2)
      \<le> length (mode_help a)" using assms mode_help_ascii(2) [of a] by linarith
  then show ?thesis by (simp add: status_line_def Let_def pad_left_def mode_help_ascii(1))
qed

theorem status_line_runs_together_witness:
  "status_line demo_ui ((NewApp demo_ui demo_app_cfg)\<lparr>ap_width := 80\<rparr>) =
   ''0 flows | Proxy :8080t:host  /:filter  Space:actions''"
proof -
  let ?a = "(NewApp demo_ui demo_app_cfg)\<lparr>ap_width := 80\<rparr>"
  have z: "Itoa 0 = ''0''" by code_simp
  have i: "status_info demo_ui ?a = ''0 flows | Proxy :8080''" "status_warning demo_ui ?a = []" "mode_help ?a = ''t:host  /:filter  Space:actions''"
    by (simp_all add: status_info_def status_warning_def mode_help_def NewApp_def Let_def demo_app_cfg_def proxyAddr_def z
        throttleStatusLabel_def NewController_def Pending_def)
  have "status_line demo_ui ?a = status_warning demo_ui ?a @ status_info demo_ui ?a @ mode_help ?a"
    by (rule status_line_runs_together) (simp add: i)
  then show ?thesis by (simp add: i)
qed

end
