(* ===== verification/Tui_Files.thy ===== *)
theory Tui_Files
  imports Tui_Effects
begin

section \<open>What the keys of the terminal UI do to files\<close>

text \<open>
  The scripts modal on the directory of script files, and the export of the listed flows.
\<close>

subsection \<open>Script files\<close>

lemma write_adds_keys: "WriteFile p c fs = (r, fs') \<Longrightarrow> file_names fs \<subseteq> file_names fs'"
  by (cases "fs_write_fault fs p"; clarsimp simp: WriteFile_def file_names_def dom_update) force

lemma ToggleEnabled_keys: "ToggleEnabled y p fs = (r, fs') \<Longrightarrow> file_names fs \<subseteq> file_names fs'"
  by (auto simp: ToggleEnabled_def split: sum.splits prod.splits dest: write_adds_keys [THEN subsetD])

lemma create_with_keys:
  assumes "create_with temp dir pre content fs = (r, fs')" and "\<And>g. file_names g \<subseteq> file_names (snd (content g))"
  shows "file_names fs \<subseteq> file_names fs'"
proof (cases "EnsureScriptDir dir fs")
  case (Pair e fs1)
  then have n: "file_names fs1 = file_names fs" by (auto simp: EnsureScriptDir_def file_names_def split: option.splits)
  obtain s2 fs2 where c: "content fs1 = (s2, fs2)" by (metis prod.exhaust)
  obtain x fs3 where w: "WriteFile (temp dir pre ''.js'' (map fst (fs_files fs1))) s2 fs2 = (x, fs3)" by (metis prod.exhaust)
  from assms(2) [of fs1] write_adds_keys [OF w] n c have "file_names fs \<subseteq> file_names fs3" by auto
  with assms(1) n w c Pair show ?thesis by (cases e; cases x) (auto simp: create_with_def)
qed

lemma generateID_keys: "generateID g = (sid, g') \<Longrightarrow> file_names g' = file_names g"
  by (auto simp: generateID_def file_names_def)

text \<open>The operations of the manager add files, except \<open>Delete\<close>.\<close>

lemma manager_adds:
  "file_names (m_fs m) \<subseteq> file_names (m_fs (snd (m_Toggle gj p m)))"
  "file_names (m_fs m) \<subseteq> file_names (m_fs (snd (m_CreateNew temp m)))"
  "file_names (m_fs m) \<subseteq> file_names (m_fs (snd (m_QuickAddMapLocal gj temp pattern localPath m)))"
proof -
  show "file_names (m_fs m) \<subseteq> file_names (m_fs (snd (m_Toggle gj p m)))"
    using ToggleEnabled_keys by (fastforce simp: m_Toggle_def m_Reload_keys split: prod.split option.split)
  have t: "file_names g \<subseteq> file_names (snd (NewScriptTemplate g))" for g
    by (auto simp: NewScriptTemplate_def generateID_keys split: prod.split)
  show "file_names (m_fs m) \<subseteq> file_names (m_fs (snd (m_CreateNew temp m)))"
    using create_with_keys [OF _ t] by (fastforce simp: m_CreateNew_def CreateNewScript_def split: prod.split)
  have q: "file_names g \<subseteq> file_names (snd (case generateID g of (sid, fs2) \<Rightarrow> (f sid, fs2)))" for g and f :: "string \<Rightarrow> string"
    by (auto simp: generateID_keys split: prod.split)
  show "file_names (m_fs m) \<subseteq> file_names (m_fs (snd (m_QuickAddMapLocal gj temp pattern localPath m)))"
    using create_with_keys [OF _ q] by (fastforce simp: m_QuickAddMapLocal_def CreateMapLocalScript_def m_Reload_keys split: prod.split sum.split)
qed

lemma m_Delete_at_most: "file_names (m_fs m) - {p} \<subseteq> file_names (m_fs (snd (m_Delete gj p m)))"
proof (cases "m_Delete gj p m")
  case (Pair e m')
  show ?thesis
  proof (cases e)
    case None
    with m_Delete_keys [of gj p m m'] Pair show ?thesis by simp
  next
    case (Some err)
    with Pair have "m_fs m' = m_fs m"
      by (auto simp: m_Delete_def DeleteScript_def RemoveFile_def split: prod.splits option.splits if_splits)
    with Pair show ?thesis by auto
  qed
qed

definition has_scripts :: "string set \<Rightarrow> 'w App \<Rightarrow> bool" where
  "has_scripts F a \<longleftrightarrow> 0 \<le> ap_scriptsCursor a \<and> (\<exists>m. ap_scripts a = Some m \<and> F \<subseteq> file_names (m_fs m))"

definition keeps_scripts :: "string set \<Rightarrow> ('w App \<times> cmd) ui \<Rightarrow> bool" where
  "keeps_scripts F r \<longleftrightarrow> (\<exists>a c. r = Inr (a, c) \<and> has_scripts F a)"

lemma keeps_scripts_simps [simp]: "keeps_scripts F (Inr (a, c)) = has_scripts F a" "keeps_scripts F (stay a) = has_scripts F a"
  by (simp_all add: keeps_scripts_def stay_def)

lemma relist_keeps:
  "0 \<le> ap_scriptsCursor a \<Longrightarrow> F \<subseteq> file_names (m_fs m) \<Longrightarrow> has_scripts F (relist U m a)"
  using m_Scripts_keys [of "ue_goja U" m] by (auto simp: relist_def has_scripts_def split: prod.split)

lemma relist_cursor: "ap_scriptsCursor (relist U m a) = ap_scriptsCursor a"
  by (simp add: relist_def split: prod.split)

definition answers_yes :: "key \<Rightarrow> 'w App \<Rightarrow> bool" where
  "answers_yes k a \<longleftrightarrow> ap_scriptsConfirmDelete a \<and> (k = ''y'' \<or> k = ''Y'')"

lemma updateScripts_keeps:
  assumes "has_scripts F a" and "\<not> answers_yes k a"
  shows "keeps_scripts F (updateScripts U k a)"
proof -
  from assms(1) obtain m where m: "0 \<le> ap_scriptsCursor a" "ap_scripts a = Some m" "F \<subseteq> file_names (m_fs m)"
    by (auto simp: has_scripts_def)
  note adds = manager_adds(1) [THEN subset_trans [OF m(3)]] manager_adds(2) [THEN subset_trans [OF m(3)]]
    manager_adds(3) [THEN subset_trans [OF m(3)]]
  have add: "keeps_scripts F (updateScriptsMapLocalAdd U k a)"
  proof -
    let ?r = "relist U (snd (m_QuickAddMapLocal (ue_goja U) (ue_temp U) (ti_Value U (ap_scriptsMLPattern a)) (ti_Value U (ap_scriptsMLPath a)) m)) a"
    have "has_scripts F ?r" by (rule relist_keeps [OF m(1) adds(3)])
    then show ?thesis using assms(1) m(2) by (simp add: updateScriptsMapLocalAdd_def Let_def has_scripts_def)
  qed
  have conf: "keeps_scripts F (confirmDelete U k a)" if "ap_scriptsConfirmDelete a"
    using assms that by (simp add: confirmDelete_def answers_yes_def has_scripts_def)
  have new: "keeps_scripts F (case m_CreateNew (ue_temp U) m of
      (Inl e, m1) \<Rightarrow> stay (a\<lparr>ap_scripts := Some m1\<rparr>) | (Inr path, m1) \<Rightarrow> Inr (a\<lparr>ap_scripts := Some m1\<rparr>, EditScript path))"
  proof (cases "m_CreateNew (ue_temp U) m")
    case (Pair r m1)
    then show ?thesis using adds(2) [of "ue_temp U"] m(1) by (cases r) (simp_all add: has_scripts_def)
  qed
  have toggle: "has_scripts F (relist U (snd (m_Toggle (ue_goja U) p m)) a)" for p
    by (rule relist_keeps [OF m(1) adds(1)])
  show ?thesis
    using assms(1) add conf new toggle m(1,2) cursor_moves(1,2) [OF m(1)]
    by (simp add: updateScripts_def chosen_ok with_manager_def has_scripts_def)
qed

definition scripts_step :: "'w ui_env \<Rightarrow> key \<Rightarrow> 'w App \<Rightarrow> 'w App ui" where
  "scripts_step U k a = and_then (updateScripts U k a) (\<lambda>(a1, _). Inr a1)"

interpretation scripts: event_machine "scripts_step U" "has_scripts F" "\<lambda>k a. \<not> answers_yes k a" for U F
proof unfold_locales
  fix a :: "'a App" and k
  assume "has_scripts F a" "\<not> answers_yes k a"
  from updateScripts_keeps [OF this, of U] show "\<exists>a1. scripts_step U k a = Inr a1 \<and> has_scripts F a1"
    by (auto simp: keeps_scripts_def scripts_step_def)
qed

text \<open>C23: In the scripts modal no sequence of keys removes a script file, whatever it toggles, creates or
  adds, unless it answers the question whether to delete with y; and that answer removes no file
  but the one under the cursor.\<close>

theorem scripts_deleted_by_y_only:
  assumes "has_scripts F a"
  shows "(all_allowed (scripts_step U) (\<lambda>k a. \<not> answers_yes k a) ks a \<longrightarrow>
      (\<exists>a'. run_machine (scripts_step U) ks a = Inr a' \<and> has_scripts F a')) \<and>
    (\<not> ap_scriptsAddMapLocal a \<longrightarrow> answers_yes k a \<longrightarrow> ap_scriptsCursor a < int (length (ap_scriptsList a)) \<longrightarrow>
      (\<exists>a'. scripts_step U k a = Inr a' \<and>
        has_scripts (F - {si_FilePath (ap_scriptsList a ! nat (ap_scriptsCursor a))}) a'))"
proof (intro conjI impI)
  assume "all_allowed (scripts_step U) (\<lambda>k a. \<not> answers_yes k a) ks a"
  with scripts.run_ok [OF assms] show "\<exists>a'. run_machine (scripts_step U) ks a = Inr a' \<and> has_scripts F a'" .
next
  assume y: "\<not> ap_scriptsAddMapLocal a" "answers_yes k a" "ap_scriptsCursor a < int (length (ap_scriptsList a))"
  from assms obtain m where m: "0 \<le> ap_scriptsCursor a" "ap_scripts a = Some m" "F \<subseteq> file_names (m_fs m)"
    by (auto simp: has_scripts_def)
  let ?p = "si_FilePath (ap_scriptsList a ! nat (ap_scriptsCursor a))"
  let ?m = "snd (m_Delete (ue_goja U) ?p m)"
  have "F - {?p} \<subseteq> file_names (m_fs ?m)" using m_Delete_at_most [of m ?p "ue_goja U"] m(3) by blast
  from relist_keeps [OF m(1) this, of U] have "has_scripts (F - {?p}) (relist U ?m a)" .
  then show "\<exists>a'. scripts_step U k a = Inr a' \<and> has_scripts (F - {?p}) a'"
    using y m(1,2) by (auto simp: scripts_step_def updateScripts_def answers_yes_def confirmDelete_def chosen_ok with_manager_def
        Let_def stay_def has_scripts_def)
qed

definition scripts_app :: "(string \<times> bool) App" where
  "scripts_app = (NewApp demo_ui demo_app_cfg)\<lparr>ap_scripts := Some script_manager\<rparr>"

theorem scripts_deleted_by_y_only_witness:
  "\<exists>a'. run_machine (scripts_step demo_ui) [''d'', ''j''] scripts_app = Inr a' \<and> has_scripts {''d/a.js''} a'"
proof -
  have "has_scripts {''d/a.js''} scripts_app"
    by (simp add: has_scripts_def scripts_app_def NewApp_def Let_def demo_app_cfg_def file_names_def script_manager_def demo_fs_def)
  from scripts_deleted_by_y_only [OF this, of demo_ui "[''d'', ''j'']"] show ?thesis
    by (simp add: answers_yes_def scripts_app_def NewApp_def Let_def demo_app_cfg_def split: sum.split)
qed

subsection \<open>Export\<close>

text \<open>Exporting from the flat list writes the newest flows only: as many as the screen has lines, and
  at least fifty; the status line counts all flows, but the older ones are not in the file.\<close>

theorem export_lists_newest:
  assumes "list_on_top a" and "\<not> ti_Focused U (ap_filterInput a)" and "ap_listMode a = modeFlat" and "ap_storeFilter a = None"
    and "\<forall>s w. ti_Value U (ti_SetValue U s w) = s \<and> ti_Value U (ti_Focus U w) = ti_Value U w"
    and "fls = take (nat (max (ap_height a - 4) 50)) (rev (flows (ap_store a)))"
    and "Export (ue_har U) (ue_time U) fls (fetchData (ap_store a)) = Inr data"
    and "WriteFile (''httpmon-'' @ ue_now U @ ''.har'') data (ap_disk a) = (None, fs)"
  shows "\<exists>a'. run_machine (event_step U) [Input TickMsg, Input (KeyPressMsg ''x''), Input (KeyPressMsg ''enter'')] a = Inr a' \<and>
    ap_disk a' = fs \<and> ap_flows a' = fls \<and> ap_totalFlows a' = length (flows (ap_store a)) \<and> \<not> ap_showExport a'"
proof -
  let ?n = "length (flows (ap_store a))"
  have "List None 0 (list_limit a) (ap_store a) = Inr (page 0 (list_limit a) (rev (flows (ap_store a))), ?n)"
    using List_refines [of "ap_store a" None "\<lambda>_. True" 0] by (simp add: run_filter_def)
  moreover have "list_limit a = max (ap_height a - 4) 50" using assms(3) by (simp add: list_limit_def)
  ultimately have l: "List None 0 (list_limit a) (ap_store a) = Inr (fls, ?n)" by (simp add: page_def assms(6))
  obtain b s h where d: "drainBreakpointSub (a\<lparr>ap_flows := fls, ap_totalFlows := ?n\<rparr>) =
      a\<lparr>ap_flows := fls, ap_totalFlows := ?n, ap_breakpoints := b, ap_breakpointSub := s, ap_breakpointHitCount := h\<rparr>"
    using drain_form by blast
  let ?c = "a\<lparr>ap_flows := fls, ap_totalFlows := ?n, ap_breakpoints := b, ap_breakpointSub := s, ap_breakpointHitCount := h\<rparr>"
  have 1: "event_step U (Input TickMsg) a = Inr ?c"
    using l d assms(3,4) by (simp add: refreshFlows_def)
  have 2: "event_step U (Input (KeyPressMsg ''x'')) ?c = Inr (initExport U False ?c)"
    using assms(1-3) by (simp add: list_on_top_def keyPress_def updateList_def handleListNav_def updateFlatList_def)
  have 3: "event_step U (Input (KeyPressMsg ''enter'')) (initExport U False ?c) =
      Inr (initExport U False ?c\<lparr>ap_showExport := False, ap_disk := fs\<rparr>)"
    using assms(1,5,7,8) by (simp add: list_on_top_def keyPress_def updateExport_def doExportHAR_def initExport_def Let_def)
  show ?thesis using 1 2 3 by (simp add: initExport_def)
qed

theorem export_lists_newest_witness:
  "\<exists>a'. run_machine (event_step demo_ui) [Input TickMsg, Input (KeyPressMsg ''x''), Input (KeyPressMsg ''enter'')]
     (NewApp demo_ui demo_app_cfg) = Inr a' \<and> ap_flows a' = take 50 (rev (flows buf1))"
proof -
  let ?a = "NewApp demo_ui demo_app_cfg"
  let ?f = "take (nat (max (ap_height ?a - 4) 50)) (rev (flows (ap_store ?a)))"
  have A: "list_on_top ?a" "\<not> ti_Focused demo_ui (ap_filterInput ?a)" "ap_listMode ?a = modeFlat" "ap_storeFilter ?a = None"
    "\<forall>s w. ti_Value demo_ui (ti_SetValue demo_ui s w) = s \<and> ti_Value demo_ui (ti_Focus demo_ui w) = ti_Value demo_ui w"
    by (simp_all add: NewApp_def demo_app_cfg_def Let_def list_on_top_def demo_ui_def)
  have B: "Export (ue_har demo_ui) (ue_time demo_ui) ?f (fetchData (ap_store ?a)) = Inr ''har''"
    by (simp add: Export_def demo_ui_def)
  obtain fs where C: "WriteFile (''httpmon-'' @ ue_now demo_ui @ ''.har'') ''har'' (ap_disk ?a) = (None, fs)"
    by (simp add: WriteFile_def NewApp_def Let_def demo_app_cfg_def demo_fs_def)
  from export_lists_newest [OF A refl B C] show ?thesis
    by (auto simp: NewApp_def Let_def demo_app_cfg_def)
qed

end
