(* ===== verification/Certs.thy ===== *)
theory Certs
  imports Script_Header "HOL-Library.Signed_Division"
begin

section \<open>The certificate authority (internal/certutil)\<close>

text \<open>
  The CA with which the proxy signs: created once in the data directory, reused while its name is
  right, and installed into the trust store of the system.  Keys, the DER of a certificate and PEM
  blocks are the libraries' (\<open>ca_lib\<close>): \<open>cl_blocks\<close> gives the blocks that repeated calls of pem.Decode
  find in a text.  Writing to an open file can fail at its n-th block; then the block is not in the file.
  The commands that install are parameters of \<open>trust\<close>, with the standard input they get.
\<close>

subsection \<open>Creating the CA\<close>

record certificate =
  ct_Serial :: int
  ct_CommonName :: string
  ct_Organization :: "string list"
  ct_NotBefore :: int
  ct_NotAfter :: int
  ct_BasicConstraintsValid :: bool
  ct_IsCA :: bool
  ct_SignatureAlgorithm :: string
  ct_KeyUsage :: "string list"
  ct_ExtKeyUsage :: "string list"

record 'k ca_lib =
  cl_key :: "nat \<Rightarrow> 'k or_err"
  cl_marshal :: "'k \<Rightarrow> string or_err"
  cl_create :: "certificate \<Rightarrow> 'k \<Rightarrow> string or_err"
  cl_parse :: "string \<Rightarrow> certificate option"
  cl_pem :: "string \<Rightarrow> string \<Rightarrow> string"
  cl_blocks :: "string \<Rightarrow> (string \<times> string) list"
  cl_fault :: "string \<Rightarrow> nat \<Rightarrow> string option"

definition CAName :: string where
  "CAName = ''httpmon-ca''"

definition caPath :: "string \<Rightarrow> string" where
  "caPath dir = path_join dir ''mitmproxy-ca.pem''"

definition certPath :: "string \<Rightarrow> string" where
  "certPath dir = path_join dir ''mitmproxy-ca-cert.pem''"

definition cerPath :: "string \<Rightarrow> string" where
  "cerPath dir = path_join dir ''mitmproxy-ca-cert.cer''"

text \<open>Times are in nanoseconds.\<close>

definition hour :: int where
  "hour = 3600 * 10 ^ 9"

definition ca_template :: "int \<Rightarrow> certificate" where
  "ca_template now = \<lparr>ct_Serial = now sdiv 100000, ct_CommonName = CAName, ct_Organization = [CAName],
     ct_NotBefore = now - 48 * hour, ct_NotAfter = now + 3 * 365 * 24 * hour, ct_BasicConstraintsValid = True, ct_IsCA = True, ct_SignatureAlgorithm = ''SHA256WithRSA'',
     ct_KeyUsage = [''CertSign'', ''CRLSign''],
     ct_ExtKeyUsage = [''ServerAuth'', ''ClientAuth'', ''EmailProtection'', ''TimeStamping'', ''CodeSigning'',
       ''MicrosoftCommercialCodeSigning'', ''MicrosoftServerGatedCrypto'', ''NetscapeServerGatedCrypto'']\<rparr>"

definition generateCA :: "'k ca_lib \<Rightarrow> int \<Rightarrow> nat \<Rightarrow> ('k \<times> string) or_err" where
  "generateCA L now draw = (case cl_key L draw of Inl e \<Rightarrow> Inl e
     | Inr key \<Rightarrow> (case cl_create L (ca_template now) key of Inl e \<Rightarrow> Inl e | Inr der \<Rightarrow> Inr (key, der)))"

definition hasCorrectCN :: "'k ca_lib \<Rightarrow> string \<Rightarrow> fsys \<Rightarrow> bool" where
  "hasCorrectCN L path fs = (case ReadFile path fs of Inl _ \<Rightarrow> False
     | Inr data \<Rightarrow> (case find (\<lambda>b. fst b = ''CERTIFICATE'') (cl_blocks L data) of None \<Rightarrow> False
         | Some b \<Rightarrow> (case cl_parse L (snd b) of None \<Rightarrow> False | Some c \<Rightarrow> ct_CommonName c = CAName)))"

text \<open>Writing blocks to a file that was created before, from the n-th on.\<close>

fun encode_blocks :: "'k ca_lib \<Rightarrow> string \<Rightarrow> nat \<Rightarrow> (string \<times> string) list \<Rightarrow> string \<Rightarrow> fsys \<Rightarrow> string option \<times> fsys" where
  "encode_blocks L path n [] content fs = (None, fs)"
| "encode_blocks L path n ((ty, bytes) # bs) content fs = (case cl_fault L path n of Some e \<Rightarrow> (Some e, fs)
     | None \<Rightarrow> (let content1 = content @ cl_pem L ty bytes in
         encode_blocks L path (Suc n) bs content1 (fs\<lparr>fs_files := AList.update path content1 (fs_files fs)\<rparr>)))"

definition write_blocks :: "'k ca_lib \<Rightarrow> string \<Rightarrow> (string \<times> string) list \<Rightarrow> fsys \<Rightarrow> string option \<times> fsys" where
  "write_blocks L path bs fs = (case WriteFile path [] fs of (Some e, fs1) \<Rightarrow> (Some e, fs1)
     | (None, fs1) \<Rightarrow> encode_blocks L path 0 bs [] fs1)"

fun write_certs :: "'k ca_lib \<Rightarrow> string list \<Rightarrow> string \<Rightarrow> fsys \<Rightarrow> string option \<times> fsys" where
  "write_certs L [] der fs = (None, fs)"
| "write_certs L (p # ps) der fs = (case write_blocks L p [(''CERTIFICATE'', der)] fs of
     (Some e, fs1) \<Rightarrow> (Some e, fs1) | (None, fs1) \<Rightarrow> write_certs L ps der fs1)"

definition create_ca :: "'k ca_lib \<Rightarrow> int \<Rightarrow> string \<Rightarrow> fsys \<Rightarrow> string or_err \<times> fsys" where
  "create_ca L now dir fs =
     (let fs2 = fs\<lparr>fs_drawn := fs_drawn fs + 1\<rparr> in
      case generateCA L now (fs_drawn fs) of Inl e \<Rightarrow> (Inl e, fs2)
      | Inr (key, der) \<Rightarrow> (case cl_marshal L key of Inl e \<Rightarrow> (Inl e, fs2)
        | Inr kb \<Rightarrow> (case write_blocks L (caPath dir) [(''PRIVATE KEY'', kb), (''CERTIFICATE'', der)] fs2 of
            (Some e, fs3) \<Rightarrow> (Inl e, fs3)
          | (None, fs3) \<Rightarrow> (case write_certs L [certPath dir, cerPath dir] der fs3 of
              (Some e, fs4) \<Rightarrow> (Inl e, fs4) | (None, fs4) \<Rightarrow> (Inr (certPath dir), fs4)))))"

definition EnsureCA :: "'k ca_lib \<Rightarrow> int \<Rightarrow> string \<Rightarrow> fsys \<Rightarrow> string or_err \<times> fsys" where
  "EnsureCA L now dir fs = (case EnsureScriptDir dir fs of (Some e, fs1) \<Rightarrow> (Inl e, fs1)
     | (None, fs1) \<Rightarrow>
        if hasCorrectCN L (caPath dir) fs1 then (Inr (certPath dir), fs1) else create_ca L now dir fs1)"

subsection \<open>The trust store\<close>

record 'o trust =
  tr_goos :: string
  tr_exec :: "string list \<Rightarrow> string \<Rightarrow> 'o \<Rightarrow> (string \<times> string option) \<times> 'o"
  tr_stat :: "string \<Rightarrow> 'o \<Rightarrow> string option"
  tr_read :: "string \<Rightarrow> 'o \<Rightarrow> string or_err"

definition keychain :: string where
  "keychain = ''/Library/Keychains/System.keychain''"

definition store_cert :: string where
  "store_cert = ''/usr/local/share/ca-certificates/httpmon.crt''"

definition IsInstalled :: "'o trust \<Rightarrow> string \<Rightarrow> 'o \<Rightarrow> bool" where
  "IsInstalled T cert os =
     (if tr_stat T cert os \<noteq> None then False
      else if tr_goos T = ''darwin''
      then (case fst (tr_exec T [''security'', ''find-certificate'', ''-c'', CAName, ''-p'', keychain] [] os) of
          (out, err) \<Rightarrow> err = None \<and> Contains out ''BEGIN CERTIFICATE'')
      else if tr_goos T = ''linux'' then tr_stat T store_cert os = None
      else False)"

definition installDarwin :: "'o trust \<Rightarrow> string \<Rightarrow> 'o \<Rightarrow> string option \<times> 'o" where
  "installDarwin T cert os =
     (case tr_exec T [''sudo'', ''security'', ''add-trusted-cert'', ''-d'', ''-r'', ''trustRoot'', ''-k'', keychain, cert] [] os of
        ((out, Some e), os1) \<Rightarrow> (Some (''security add-trusted-cert: '' @ out @ '': '' @ e), os1)
      | ((_, None), os1) \<Rightarrow> (None, os1))"

definition installLinux :: "'o trust \<Rightarrow> string \<Rightarrow> 'o \<Rightarrow> string option \<times> 'o" where
  "installLinux T cert os = (case tr_read T cert os of Inl e \<Rightarrow> (Some (''read cert: '' @ e), os)
     | Inr data \<Rightarrow> (case tr_exec T [''sudo'', ''tee'', store_cert] data os of
         ((out, Some e), os1) \<Rightarrow> (Some (''write '' @ store_cert @ '': '' @ out @ '': '' @ e), os1)
       | ((_, None), os1) \<Rightarrow> (case tr_exec T [''sudo'', ''update-ca-certificates''] [] os1 of
           ((out, Some e), os2) \<Rightarrow> (Some (''update-ca-certificates: '' @ out @ '': '' @ e), os2)
         | ((_, None), os2) \<Rightarrow> (None, os2))))"

definition Install :: "'o trust \<Rightarrow> string \<Rightarrow> 'o \<Rightarrow> string option \<times> 'o" where
  "Install T cert os = (case tr_stat T cert os of Some e \<Rightarrow> (Some (''cert file: '' @ e), os)
     | None \<Rightarrow>
        if tr_goos T = ''darwin'' then installDarwin T cert os
        else if tr_goos T = ''linux'' then installLinux T cert os
        else (Some (''unsupported platform: '' @ tr_goos T), os))"

subsection \<open>What the files are afterwards\<close>

lemma hasCorrectCN_dirs [simp]: "hasCorrectCN L p (fs\<lparr>fs_dirs := d\<rparr>) = hasCorrectCN L p fs"
proof -
  have "ReadFile p (fs\<lparr>fs_dirs := d\<rparr>) = ReadFile p fs" by (simp add: ReadFile_def split: option.splits)
  then show ?thesis by (simp add: hasCorrectCN_def)
qed

definition ca_lib_ok :: "'k ca_lib \<Rightarrow> bool" where
  "ca_lib_ok L \<longleftrightarrow>
     (\<forall>k kb rest. cl_marshal L k = Inr kb \<longrightarrow> cl_blocks L (cl_pem L ''PRIVATE KEY'' kb @ rest) = (''PRIVATE KEY'', kb) # cl_blocks L rest) \<and>
     (\<forall>t k der rest. cl_create L t k = Inr der \<longrightarrow>
        cl_blocks L (cl_pem L ''CERTIFICATE'' der @ rest) = (''CERTIFICATE'', der) # cl_blocks L rest \<and>
        (\<exists>c. cl_parse L der = Some c \<and> ct_CommonName c = ct_CommonName t))"

text \<open>The text of a key and a certificate of the CA is taken for a CA with the right name.\<close>

lemma correct_name:
  assumes "ca_lib_ok L" and "cl_marshal L k = Inr kb" and "cl_create L (ca_template now) k = Inr der"
    and "map_of (fs_files fs) p = Some (cl_pem L ''PRIVATE KEY'' kb @ cl_pem L ''CERTIFICATE'' der)" and "fs_read_fault fs p = None"
  shows "hasCorrectCN L p fs"
proof -
  note laws = assms(1) [unfolded ca_lib_ok_def]
  note key = laws [THEN conjunct1, rule_format, OF assms(2), of "cl_pem L ''CERTIFICATE'' der"]
    and cert = laws [THEN conjunct2, rule_format, OF assms(3), of "[]"]
  obtain c where "cl_parse L der = Some c" "ct_CommonName c = CAName" using cert by (auto simp: ca_template_def)
  with key cert assms(4,5) show ?thesis by (simp add: hasCorrectCN_def ReadFile_def)
qed

definition pems :: "'k ca_lib \<Rightarrow> (string \<times> string) list \<Rightarrow> string" where
  "pems L bs = concat (map (\<lambda>(ty, b). cl_pem L ty b) bs)"

text \<open>What writing one file leaves of the file system.\<close>

definition written :: "string \<Rightarrow> string \<Rightarrow> fsys \<Rightarrow> fsys \<Rightarrow> bool" where
  "written p content fs fs1 \<longleftrightarrow> map_of (fs_files fs1) = (map_of (fs_files fs))(p \<mapsto> content) \<and>
     fs_read_fault fs1 = fs_read_fault fs \<and> fs_write_fault fs1 = fs_write_fault fs \<and> fs_dirs fs1 = fs_dirs fs"

lemma encode_blocks_written:
  "encode_blocks L p n bs content fs = (None, fs1) \<Longrightarrow> map_of (fs_files fs) p = Some content \<Longrightarrow>
    written p (content @ pems L bs) fs fs1"
proof (induction L p n bs content fs rule: encode_blocks.induct)
  case (1 L path n content fs)
  then show ?case by (auto simp: written_def pems_def)
next
  case (2 L path n ty bytes bs content fs)
  then have f: "cl_fault L path n = None" by (simp split: option.splits)
  from 2(1) [OF f refl] 2(2,3) f show ?case
    by (simp add: Let_def written_def pems_def update_conv')
qed

lemma write_blocks_written: "write_blocks L p bs fs = (None, fs1) \<Longrightarrow> written p (pems L bs) fs fs1"
proof -
  assume a: "write_blocks L p bs fs = (None, fs1)"
  then obtain fs0 where w: "WriteFile p [] fs = (None, fs0)" "encode_blocks L p 0 bs [] fs0 = (None, fs1)"
    by (auto simp: write_blocks_def split: prod.splits option.splits)
  from w(1) have "written p [] fs fs0" "map_of (fs_files fs0) p = Some []"
    by (auto simp: WriteFile_def written_def update_conv' split: option.splits)
  with encode_blocks_written [OF w(2)] show ?thesis by (simp add: written_def)
qed

lemma write_certs_written:
  "write_certs L [p, q] der fs = (None, fs2) \<Longrightarrow>
    \<exists>fs1. written p (cl_pem L ''CERTIFICATE'' der) fs fs1 \<and> written q (cl_pem L ''CERTIFICATE'' der) fs1 fs2"
  by (auto simp: pems_def dest!: write_blocks_written split: prod.splits option.splits)

lemma paths_distinct: "caPath d \<noteq> certPath d" "caPath d \<noteq> cerPath d" "certPath d \<noteq> cerPath d"
  by (simp_all add: caPath_def certPath_def cerPath_def path_join_def)

lemma EnsureScriptDir_cases:
  "EnsureScriptDir d fs = (r, fs1) \<Longrightarrow> (r = None \<and> fs_write_fault fs d = None \<and> fs1 = fs\<lparr>fs_dirs := List.insert d (fs_dirs fs)\<rparr>) \<or> (r \<noteq> None \<and> fs1 = fs)"
  by (auto simp: EnsureScriptDir_def split: option.splits)

lemma create_ca_steps:
  assumes "create_ca L now dir fs = (Inr p, fs1)"
  shows "\<exists>key der kb fs3. generateCA L now (fs_drawn fs) = Inr (key, der) \<and> cl_marshal L key = Inr kb \<and>
    write_blocks L (caPath dir) [(''PRIVATE KEY'', kb), (''CERTIFICATE'', der)] (fs\<lparr>fs_drawn := fs_drawn fs + 1\<rparr>) = (None, fs3) \<and>
    write_certs L [certPath dir, cerPath dir] der fs3 = (None, fs1) \<and> p = certPath dir"
proof -
  obtain key der where g: "generateCA L now (fs_drawn fs) = Inr (key, der)"
    using assms by (cases "generateCA L now (fs_drawn fs)") (auto simp: create_ca_def Let_def)
  obtain kb where k: "cl_marshal L key = Inr kb"
    using assms by (cases "cl_marshal L key") (simp_all add: create_ca_def Let_def g)
  obtain r fs3 where w: "write_blocks L (caPath dir) [(''PRIVATE KEY'', kb), (''CERTIFICATE'', der)] (fs\<lparr>fs_drawn := fs_drawn fs + 1\<rparr>) = (r, fs3)"
    by fastforce
  have r: "r = None" using assms w by (cases r) (simp_all add: create_ca_def Let_def g k)
  obtain r4 fs4 where v: "write_certs L [certPath dir, cerPath dir] der fs3 = (r4, fs4)" by fastforce
  have "r4 = None \<and> fs4 = fs1 \<and> p = certPath dir"
    using assms w v r by (cases r4) (simp_all add: create_ca_def Let_def g k del: write_certs.simps)
  with g k w r v show ?thesis by blast
qed

text \<open>C33: When there is no CA with the right name, a successful EnsureCA has created one, valid for three
  years and signed by its own key: the key and the certificate in the CA file, the certificate alone
  in the two others, and no other file is changed.  Called again, it changes nothing more.\<close>

theorem ensure_ca_creates:
  assumes "ca_lib_ok L" and "fs_read_fault fs (caPath dir) = None" and "\<not> hasCorrectCN L (caPath dir) fs"
    and "EnsureCA L now dir fs = (Inr p, fs1)"
  shows "\<exists>key kb der. cl_create L (ca_template now) key = Inr der \<and> cl_marshal L key = Inr kb \<and> p = certPath dir \<and>
      map_of (fs_files fs1) = (map_of (fs_files fs))(caPath dir \<mapsto> cl_pem L ''PRIVATE KEY'' kb @ cl_pem L ''CERTIFICATE'' der,
        certPath dir \<mapsto> cl_pem L ''CERTIFICATE'' der, cerPath dir \<mapsto> cl_pem L ''CERTIFICATE'' der) \<and>
      EnsureCA L later dir fs1 = (Inr p, fs1)"
proof -
  let ?fs0 = "fs\<lparr>fs_dirs := List.insert dir (fs_dirs fs)\<rparr>"
  obtain r f where e: "EnsureScriptDir dir fs = (r, f)" by fastforce
  with assms(4) have "r = None" by (cases r) (auto simp: EnsureCA_def)
  with EnsureScriptDir_cases [OF e] e have d: "EnsureScriptDir dir fs = (None, ?fs0)" and nf: "fs_write_fault fs dir = None"
    by auto
  have "create_ca L now dir ?fs0 = (Inr p, fs1)" using assms(3,4) by (simp add: EnsureCA_def d)
  from create_ca_steps [OF this] obtain key der kb fs3 where g: "generateCA L now (fs_drawn fs) = Inr (key, der)" "cl_marshal L key = Inr kb"
      "write_blocks L (caPath dir) [(''PRIVATE KEY'', kb), (''CERTIFICATE'', der)] (?fs0\<lparr>fs_drawn := fs_drawn fs + 1\<rparr>) = (None, fs3)"
      "write_certs L [certPath dir, cerPath dir] der fs3 = (None, fs1)" "p = certPath dir" by auto
  have c: "cl_create L (ca_template now) key = Inr der" using g(1) by (auto simp: generateCA_def split: sum.splits)
  obtain fs4 where w: "written (caPath dir) (cl_pem L ''PRIVATE KEY'' kb @ cl_pem L ''CERTIFICATE'' der) (?fs0\<lparr>fs_drawn := fs_drawn fs + 1\<rparr>) fs3"
      "written (certPath dir) (cl_pem L ''CERTIFICATE'' der) fs3 fs4" "written (cerPath dir) (cl_pem L ''CERTIFICATE'' der) fs4 fs1"
    using write_blocks_written [OF g(3)] write_certs_written [OF g(4)] by (auto simp: pems_def)
  then have m: "map_of (fs_files fs1) = (map_of (fs_files fs))(caPath dir \<mapsto> cl_pem L ''PRIVATE KEY'' kb @ cl_pem L ''CERTIFICATE'' der,
        certPath dir \<mapsto> cl_pem L ''CERTIFICATE'' der, cerPath dir \<mapsto> cl_pem L ''CERTIFICATE'' der)"
    and o: "fs_read_fault fs1 = fs_read_fault fs" "fs_write_fault fs1 = fs_write_fault fs" "fs_dirs fs1 = List.insert dir (fs_dirs fs)"
    by (simp_all add: written_def)
  have "hasCorrectCN L (caPath dir) fs1"
    by (rule correct_name [OF assms(1) g(2) c]) (simp_all add: m o(1) assms(2) paths_distinct)
  moreover have "EnsureScriptDir dir fs1 = (None, fs1)" using o nf by (simp add: EnsureScriptDir_def)
  ultimately have "EnsureCA L later dir fs1 = (Inr p, fs1)" using g(5) by (simp add: EnsureCA_def)
  with c g(2,5) m show ?thesis by blast
qed

text \<open>A CA file whose certificate has the right name is kept by EnsureCA, even when the certificate has
  expired and when the file with the certificate alone, whose path it returns, is missing.\<close>

theorem ca_kept_by_name:
  assumes "hasCorrectCN L (caPath dir) fs" and "fs_write_fault fs dir = None"
  shows "\<exists>fs1. EnsureCA L now dir fs = (Inr (certPath dir), fs1) \<and> fs_files fs1 = fs_files fs"
  using assms by (simp add: EnsureCA_def EnsureScriptDir_def)

text \<open>A library for examples: one key; the DER is the common name; a block is its type, its bytes and zeros between.\<close>

fun demo_blocks :: "string \<Rightarrow> string \<Rightarrow> (string \<times> string) list" where
  "demo_blocks w [] = []"
| "demo_blocks w (c # s) = (if c = CHR 0x00 then (if w = ''P'' then (''PRIVATE KEY'', []) else (''CERTIFICATE'', tl w)) # demo_blocks [] s
     else demo_blocks (w @ [c]) s)"

definition demo_lib :: "unit ca_lib" where
  "demo_lib = \<lparr>cl_key = (\<lambda>_. Inr ()), cl_marshal = (\<lambda>_. Inr []),
     cl_create = (\<lambda>c _. if ct_CommonName c = CAName then Inr ''ca'' else Inl ''name''),
     cl_parse = (\<lambda>der. if der = ''ca'' then Some (ca_template 0) else None),
     cl_pem = (\<lambda>ty b. if ty = ''PRIVATE KEY'' then ''P'' @ [CHR 0x00] else ''C'' @ b @ [CHR 0x00]),
     cl_blocks = demo_blocks [], cl_fault = (\<lambda>_ _. None)\<rparr>"

lemma demo_lib_ok: "ca_lib_ok demo_lib"
  by (simp add: ca_lib_ok_def demo_lib_def ca_template_def split: if_splits)

theorem ensure_ca_creates_witness:
  "\<exists>fs1. EnsureCA demo_lib 0 ''d'' (demo_fs []) = (Inr ''d/mitmproxy-ca-cert.pem'', fs1) \<and>
     EnsureCA demo_lib 9 ''d'' fs1 = (Inr ''d/mitmproxy-ca-cert.pem'', fs1) \<and>
     map_of (fs_files fs1) ''d/mitmproxy-ca.pem'' = Some (''P'' @ [CHR 0x00] @ ''Cca'' @ [CHR 0x00])"
proof -
  have p: "caPath ''d'' = ''d/mitmproxy-ca.pem''" "certPath ''d'' = ''d/mitmproxy-ca-cert.pem''" "cerPath ''d'' = ''d/mitmproxy-ca-cert.cer''"
    by (simp_all add: caPath_def certPath_def cerPath_def path_join_def)
  have n: "\<not> hasCorrectCN demo_lib (caPath ''d'') (demo_fs [])" "fs_read_fault (demo_fs []) (caPath ''d'') = None"
    by (simp_all add: hasCorrectCN_def demo_lib_def ReadFile_def demo_fs_def ca_template_def)
  obtain fs1 where e: "EnsureCA demo_lib 0 ''d'' (demo_fs []) = (Inr (certPath ''d''), fs1)"
    using n(1) by (simp add: EnsureCA_def EnsureScriptDir_def create_ca_def generateCA_def write_blocks_def WriteFile_def demo_lib_def
        demo_fs_def ca_template_def Let_def)
  from ensure_ca_creates [OF demo_lib_ok n(2,1) e, of 9] show ?thesis
    by (intro exI [of _ fs1]) (use e in \<open>auto simp: p demo_lib_def ca_template_def\<close>)
qed

theorem ca_kept_by_name_witness:
  "\<exists>fs1. EnsureCA demo_lib (100 * 365 * 24 * hour) ''d'' ((demo_fs [])\<lparr>fs_files := [(''d/mitmproxy-ca.pem'', ''Cca'' @ [CHR 0x00])]\<rparr>) =
     (Inr ''d/mitmproxy-ca-cert.pem'', fs1) \<and> map_of (fs_files fs1) ''d/mitmproxy-ca-cert.pem'' = None"
proof -
  let ?fs = "(demo_fs [])\<lparr>fs_files := [(''d/mitmproxy-ca.pem'', ''Cca'' @ [CHR 0x00])]\<rparr>"
  have p: "caPath ''d'' = ''d/mitmproxy-ca.pem''" "certPath ''d'' = ''d/mitmproxy-ca-cert.pem''"
    by (simp_all add: caPath_def certPath_def path_join_def)
  have "hasCorrectCN demo_lib (caPath ''d'') ?fs" "fs_write_fault ?fs ''d'' = None"
    by (simp_all add: hasCorrectCN_def demo_lib_def ReadFile_def demo_fs_def ca_template_def p)
  from ca_kept_by_name [OF this, of "100 * 365 * 24 * hour"] show ?thesis by (auto simp: p)
qed

subsection \<open>Trust\<close>

text \<open>What the commands do: a file that tee writes exists, refreshing the store removes nothing, the keychain
  finds a certificate that was added, and no command removes the certificate's own file.\<close>

definition trust_ok :: "'o trust \<Rightarrow> string \<Rightarrow> bool" where
  "trust_ok T cert \<longleftrightarrow>
     (\<forall>data os r os1. tr_exec T [''sudo'', ''tee'', store_cert] data os = (r, os1) \<longrightarrow>
        (snd r = None \<longrightarrow> tr_stat T store_cert os1 = None) \<and> (tr_stat T cert os = None \<longrightarrow> tr_stat T cert os1 = None)) \<and>
     (\<forall>os r os1. tr_exec T [''sudo'', ''update-ca-certificates''] [] os = (r, os1) \<longrightarrow>
        (\<forall>p \<in> {store_cert, cert}. tr_stat T p os = None \<longrightarrow> tr_stat T p os1 = None)) \<and>
     (\<forall>os r os1. tr_exec T [''sudo'', ''security'', ''add-trusted-cert'', ''-d'', ''-r'', ''trustRoot'', ''-k'', keychain, cert] [] os = (r, os1) \<longrightarrow>
        (tr_stat T cert os = None \<longrightarrow> tr_stat T cert os1 = None) \<and>
        (snd r = None \<longrightarrow> (\<exists>a b. fst (tr_exec T [''security'', ''find-certificate'', ''-c'', CAName, ''-p'', keychain] [] os1) =
           (a @ ''BEGIN CERTIFICATE'' @ b, None))))"

text \<open>A certificate that was installed without an error is then reported as installed, on either
  platform; on any other platform nothing can be installed.\<close>

theorem installed_is_trusted:
  assumes "trust_ok T cert" and "Install T cert os = (None, os1)"
  shows "IsInstalled T cert os1 \<and> tr_goos T \<in> {''darwin'', ''linux''}"
proof -
  note laws = assms(1) [unfolded trust_ok_def]
  note tee = laws [THEN conjunct1, rule_format] and update = laws [THEN conjunct2, THEN conjunct1, rule_format]
    and add = laws [THEN conjunct2, THEN conjunct2, rule_format]
  have st: "tr_stat T cert os = None" using assms(2) by (auto simp: Install_def split: option.splits)
  consider "tr_goos T = ''darwin''" "installDarwin T cert os = (None, os1)" | "tr_goos T = ''linux''" "installLinux T cert os = (None, os1)"
    using assms(2) st by (auto simp: Install_def split: if_splits)
  then show ?thesis
  proof cases
    case 1
    obtain r o1 where r: "tr_exec T [''sudo'', ''security'', ''add-trusted-cert'', ''-d'', ''-r'', ''trustRoot'', ''-k'', keychain, cert] [] os = (r, o1)"
      by fastforce
    with 1(2) have "o1 = os1" "snd r = None" by (auto simp: installDarwin_def split: prod.splits option.splits)
    with add [OF r] st obtain a b where f: "fst (tr_exec T [''security'', ''find-certificate'', ''-c'', CAName, ''-p'', keychain] [] os1) =
        (a @ ''BEGIN CERTIFICATE'' @ b, None)" "tr_stat T cert os1 = None" by blast
    have "Contains (a @ ''BEGIN CERTIFICATE'' @ b) ''BEGIN CERTIFICATE''" unfolding Contains_iff by blast
    with f 1(1) show ?thesis by (simp add: IsInstalled_def)
  next
    case 2
    obtain data r o1 r1 o2 where r: "tr_exec T [''sudo'', ''tee'', store_cert] data os = (r, o1)"
      "tr_exec T [''sudo'', ''update-ca-certificates''] [] o1 = (r1, o2)" "snd r = None" "o2 = os1"
      using 2(2) by (auto simp: installLinux_def split: prod.splits option.splits sum.splits)
    from tee [OF r(1)] r(3) st update [OF r(2), of store_cert] update [OF r(2), of cert] r(4) 2(1) show ?thesis
      by (simp add: IsInstalled_def)
  qed
qed

text \<open>A Linux machine for examples, its state the set of files and the certificate in the store.\<close>

definition demo_linux :: "(string \<Rightarrow> string option) trust" where
  "demo_linux = \<lparr>tr_goos = ''linux'',
     tr_exec = (\<lambda>cmd data fs. ((if hd cmd = ''security'' then ''BEGIN CERTIFICATE'' else [], None), if cmd = [''sudo'', ''tee'', store_cert] then fs(store_cert \<mapsto> data) else fs)),
     tr_stat = (\<lambda>p fs. if fs p = None then Some ''no such file'' else None),
     tr_read = (\<lambda>p fs. case fs p of None \<Rightarrow> Inl ''no such file'' | Some s \<Rightarrow> Inr s)\<rparr>"

theorem installed_is_trusted_witness:
  "\<exists>os1. Install demo_linux ''d/c'' [''d/c'' \<mapsto> ''PEM''] = (None, os1) \<and> IsInstalled demo_linux ''d/c'' os1 \<and> os1 store_cert = Some ''PEM''"
proof -
  have ok: "trust_ok demo_linux ''d/c''" unfolding trust_ok_def demo_linux_def by (simp, rule exI [of _ "[]"], rule exI [of _ "[]"], simp)
  have i: "Install demo_linux ''d/c'' [''d/c'' \<mapsto> ''PEM''] = (None, [''d/c'' \<mapsto> ''PEM'', store_cert \<mapsto> ''PEM''])"
    by (simp add: Install_def installLinux_def demo_linux_def)
  from installed_is_trusted [OF ok i] i show ?thesis by (intro exI [of _ "[''d/c'' \<mapsto> ''PEM'', store_cert \<mapsto> ''PEM'']"]) simp
qed

text \<open>Only the name is asked for: a certificate of another CA, left by an earlier data directory, counts.\<close>

lemma other_ca_counts: "IsInstalled demo_linux ''d/c'' [''d/c'' \<mapsto> ''PEM'', store_cert \<mapsto> ''OTHER'']"
  by (simp add: IsInstalled_def demo_linux_def)

end
