(* ===== verification/Proxy_Init.thy ===== *)
theory Proxy_Init
  imports Interceptor Certs
begin

section \<open>Setting the proxy up (internal/proxy/proxy.go)\<close>

text \<open>
  The proxy before and after Init: its configuration, the CA in its data directory, the addon it gives
  to the MITM library and the rule by which that library decides which connections to decrypt.  Making
  the library's proxy is a parameter; so is what waiting for the controller gives a paused flow
  (\<open>pause\<close>).
\<close>

record mp_options =
  mo_Addr :: string
  mo_StreamLargeBodies :: nat
  mo_CaRootPath :: string
  mo_SslInsecure :: bool

record proxy_setup =
  st_store :: RingBuffer
  st_addr :: string
  st_caDir :: string
  st_caCertPath :: string
  st_logFile :: "string option"
  st_mp :: "mp_options option"
  st_rule :: "(string \<Rightarrow> bool) option"
  st_intc :: "interceptor option"
  st_SslInsecure :: bool
  st_HostFilter :: "HostFilter option"
  st_ScriptEngine :: "Engine option"
  st_ThrottleBPS :: int
  st_ThrottleLatency :: int
  st_BreakpointCtrl :: "controller option"
  st_Resolver :: "Resolver option"
  st_DecoderRegistry :: "Registry option"

definition New_Proxy :: "RingBuffer \<Rightarrow> string \<Rightarrow> proxy_setup" where
  "New_Proxy s dataDir = \<lparr>st_store = s, st_addr = [], st_caDir = dataDir, st_caCertPath = [], st_logFile = None,
     st_mp = None, st_rule = None, st_intc = None, st_SslInsecure = False, st_HostFilter = None, st_ScriptEngine = None,
     st_ThrottleBPS = 0, st_ThrottleLatency = 0, st_BreakpointCtrl = None, st_Resolver = None, st_DecoderRegistry = None\<rparr>"

text \<open>The engine with the controller in it, if there are both.\<close>

definition wired_engine :: "(BreakpointHit \<Rightarrow> BreakpointResume) \<Rightarrow> proxy_setup \<Rightarrow> Engine option" where
  "wired_engine pause p = (case st_ScriptEngine p of None \<Rightarrow> None
     | Some e \<Rightarrow> Some (if st_BreakpointCtrl p \<noteq> None then SetBreakpointController (Some pause) e else e))"

definition attach :: "(BreakpointHit \<Rightarrow> BreakpointResume) \<Rightarrow> mp_options \<Rightarrow> proxy_setup \<Rightarrow> proxy_setup" where
  "attach pause opts p = (let eng = wired_engine pause p in
     p\<lparr>st_ScriptEngine := eng,
       st_intc := Some (newInterceptor (st_store p) eng (st_Resolver p) (st_DecoderRegistry p) (st_HostFilter p)
         (st_ThrottleBPS p) (st_ThrottleLatency p)),
       st_mp := Some opts, st_addr := mo_Addr opts,
       st_rule := map_option (\<lambda>hf host. ShouldIntercept hf host) (st_HostFilter p)\<rparr>)"

definition log_path :: "proxy_setup \<Rightarrow> string" where
  "log_path p = path_join (st_caDir p) ''proxy.log''"

definition Init :: "'k ca_lib \<Rightarrow> int \<Rightarrow> (mp_options \<Rightarrow> string option) \<Rightarrow> (BreakpointHit \<Rightarrow> BreakpointResume) \<Rightarrow> string \<Rightarrow> proxy_setup \<Rightarrow> fsys
    \<Rightarrow> string option \<times> proxy_setup \<times> fsys" where
  "Init L now newProxy pause addr p fs = (case EnsureScriptDir (st_caDir p) fs of
       (Some e, fs1) \<Rightarrow> (Some (''create data dir: '' @ e), p, fs1)
     | (None, fs1) \<Rightarrow> (case WriteFile (log_path p) [] fs1 of
         (Some e, fs2) \<Rightarrow> (Some (''open log file: '' @ e), p, fs2)
       | (None, fs2) \<Rightarrow>
          let p1 = p\<lparr>st_logFile := Some (log_path p)\<rparr> in
          (case EnsureCA L now (st_caDir p) fs2 of
             (Inl e, fs3) \<Rightarrow> (Some (''ensure CA: '' @ e), p1, fs3)
           | (Inr cert, fs3) \<Rightarrow>
              let p2 = p1\<lparr>st_caCertPath := cert\<rparr>;
                  opts = \<lparr>mo_Addr = addr, mo_StreamLargeBodies = maxBodySize, mo_CaRootPath = st_caDir p, mo_SslInsecure = st_SslInsecure p\<rparr>
              in (case newProxy opts of Some e \<Rightarrow> (Some (''proxy init: '' @ e), p2, fs3)
                  | None \<Rightarrow> (None, attach pause opts p2, fs3)))))"

text \<open>The part of it that the TUI and the MCP tools use.\<close>

definition as_proxy :: "proxy_setup \<Rightarrow> proxy" where
  "as_proxy p = \<lparr>px_intc = st_intc p, px_bpCtrl = st_BreakpointCtrl p\<rparr>"

definition Addr :: "proxy_setup \<Rightarrow> string" where
  "Addr p = st_addr p"

definition CACertPath :: "proxy_setup \<Rightarrow> string" where
  "CACertPath p = st_caCertPath p"

text \<open>Serve ends when its context is cancelled, which stops the proxy, or when the listener ends.\<close>

datatype serve_end = CtxDone string | Listener "string option"

definition Serve :: "serve_end \<Rightarrow> proxy \<Rightarrow> (string option \<times> proxy) option" where
  "Serve ev p = (case ev of CtxDone e \<Rightarrow> map_option (\<lambda>p1. (Some e, p1)) (StopProxy p) | Listener err \<Rightarrow> Some (err, p))"

subsection \<open>What a proxy that is set up has\<close>

lemma Init_None:
  assumes "Init L now newProxy pause addr p fs = (None, p1, fs3)"
  shows "\<exists>fs2 cert. p1 = attach pause \<lparr>mo_Addr = addr, mo_StreamLargeBodies = maxBodySize, mo_CaRootPath = st_caDir p, mo_SslInsecure = st_SslInsecure p\<rparr>
      (p\<lparr>st_logFile := Some (log_path p), st_caCertPath := cert\<rparr>) \<and> EnsureCA L now (st_caDir p) fs2 = (Inr cert, fs3)"
  using assms by (auto simp: Init_def Let_def split: prod.splits option.splits sum.splits)

lemma Init_Some_bare: "Init L now newProxy pause addr p fs = (Some e, p1, fs3) \<Longrightarrow> st_intc p1 = st_intc p"
  by (auto simp: Init_def Let_def split: prod.splits option.splits sum.splits)

text \<open>A proxy whose Init succeeds has an addon on its own store, with its host filter, decoders and
  throttle; the MITM library decrypts exactly the hosts whose flows the addon does not skip; and the
  configured throttle is what the UI and the tools read.\<close>

theorem init_wires_addon:
  assumes "Init L now newProxy pause addr p fs = (None, p1, fs1)"
  shows "\<exists>ic. st_intc p1 = Some ic \<and> ic_store ic = st_store p \<and> ic_hostFilter ic = st_HostFilter p \<and> ic_decoderReg ic = st_DecoderRegistry p \<and>
      (\<forall>f. skips ic f = (case st_rule p1 of None \<Rightarrow> False | Some rule \<Rightarrow> \<not> rule (u_Host (q_URL (f_Request f))))) \<and>
      GetThrottleBPS (as_proxy p1) = st_ThrottleBPS p \<and> GetThrottleLatency (as_proxy p1) = st_ThrottleLatency p \<and>
      Addr p1 = addr \<and> px_bpCtrl (as_proxy p1) = st_BreakpointCtrl p"
proof -
  from Init_None [OF assms] obtain cert where
    p1: "p1 = attach pause \<lparr>mo_Addr = addr, mo_StreamLargeBodies = maxBodySize, mo_CaRootPath = st_caDir p, mo_SslInsecure = st_SslInsecure p\<rparr>
      (p\<lparr>st_logFile := Some (log_path p), st_caCertPath := cert\<rparr>)" by blast
  show ?thesis unfolding p1
    by (simp add: attach_def newInterceptor_def as_proxy_def GetThrottleBPS_def GetThrottleLatency_def ThrottleBPS_def ThrottleLatency_def
        Addr_def skips_def Let_def split: option.splits)
qed

definition demo_setup :: proxy_setup where
  "demo_setup = (New_Proxy buf1 ''d'')\<lparr>st_HostFilter := Some (New_HostFilter [''ads.com''] []), st_ThrottleBPS := 93750\<rparr>"

lemma demo_init: "\<exists>p1 fs1. Init demo_lib 0 (\<lambda>_. None) (\<lambda>_. skip_resume) '':8080'' demo_setup (demo_fs []) = (None, p1, fs1)"
  by (simp add: Init_def demo_setup_def New_Proxy_def EnsureScriptDir_def WriteFile_def demo_fs_def EnsureCA_def hasCorrectCN_def ReadFile_def
      demo_lib_def log_path_def caPath_def certPath_def cerPath_def path_join_def create_ca_def generateCA_def write_blocks_def ca_template_def Let_def)

theorem init_wires_addon_witness:
  "\<exists>p1 fs1. Init demo_lib 0 (\<lambda>_. None) (\<lambda>_. skip_resume) '':8080'' demo_setup (demo_fs []) = (None, p1, fs1) \<and>
     GetThrottleBPS (as_proxy p1) = 93750 \<and> Addr p1 = '':8080''"
proof -
  obtain p1 fs1 where i: "Init demo_lib 0 (\<lambda>_. None) (\<lambda>_. skip_resume) '':8080'' demo_setup (demo_fs []) = (None, p1, fs1)"
    using demo_init by blast
  from init_wires_addon [OF i] i show ?thesis by (auto simp: demo_setup_def)
qed

end
