(* ===== verification/System_Proxy.thy ===== *)
theory System_Proxy
  imports Go_Text
begin

section \<open>The system proxy and the browser (internal/browse)\<close>

text \<open>
  With --browse the program sets the HTTP and HTTPS proxy of the active network service, opens an
  address, and puts the settings back when it stops.  The operating system is a parameter: a command
  line run in a state gives its output, its error and the next state.  The cleanup closure is the
  data it captures.
\<close>

type_synonym 'o command = "string list \<Rightarrow> 'o \<Rightarrow> (string \<times> string option) \<times> 'o"

record proxyState =
  ps_enabled :: bool
  ps_server :: string
  ps_port :: int

record 'o platform =
  pf_darwin :: bool
  pf_run :: "'o command"

subsection \<open>Reading the output of a command\<close>

text \<open>\<open>bufio.Scanner\<close>: the lines without their line ends, until one that does not fit into 64 KiB.\<close>

definition drop_cr :: "string \<Rightarrow> string" where
  "drop_cr l = (if l \<noteq> [] \<and> last l = CHR 0x0D then butlast l else l)"

definition scan_lines :: "string \<Rightarrow> string list" where
  "scan_lines s = (let ls = Split nl s in
     map drop_cr (takeWhile (\<lambda>l. length l < 65536) (if last ls = [] then butlast ls else ls)))"

definition line_value :: "string \<Rightarrow> string \<Rightarrow> string option" where
  "line_value key line = (let l = TrimSpace line in if HasPrefix l key then Some (TrimSpace (drop (length key) l)) else None)"

definition read_setting :: "string \<Rightarrow> proxyState \<Rightarrow> proxyState" where
  "read_setting line ps =
     (let ps1 = (case line_value ''Enabled:'' line of Some v \<Rightarrow> ps\<lparr>ps_enabled := (v = ''Yes'')\<rparr> | None \<Rightarrow> ps);
          ps2 = (case line_value ''Server:'' line of Some v \<Rightarrow> ps1\<lparr>ps_server := v\<rparr> | None \<Rightarrow> ps1)
      in case line_value ''Port:'' line of Some v \<Rightarrow> ps2\<lparr>ps_port := Atoi_value v\<rparr> | None \<Rightarrow> ps2)"

definition parse_settings :: "string \<Rightarrow> proxyState" where
  "parse_settings out = fold read_setting (scan_lines out) \<lparr>ps_enabled = False, ps_server = [], ps_port = 0\<rparr>"

definition getProxyState :: "'o command \<Rightarrow> string \<Rightarrow> string \<Rightarrow> 'o \<Rightarrow> proxyState or_err \<times> 'o" where
  "getProxyState run service verb os = (case run [''networksetup'', ''-'' @ verb, service] os of
       ((out, Some e), os1) \<Rightarrow> (Inl (verb @ '' '' @ service @ '': '' @ out @ '': '' @ e), os1)
     | ((out, None), os1) \<Rightarrow> (Inr (parse_settings out), os1))"

definition networksetup :: "'o command \<Rightarrow> string list \<Rightarrow> 'o \<Rightarrow> string option \<times> 'o" where
  "networksetup run args os = (case run (''networksetup'' # args) os of
       ((out, Some e), os1) \<Rightarrow> (Some (''networksetup '' @ hd args @ '': '' @ out @ '': '' @ e), os1)
     | ((_, None), os1) \<Rightarrow> (None, os1))"

subsection \<open>The active network service\<close>

definition route_interface :: "string \<Rightarrow> string" where
  "route_interface out = (case List.map_filter (line_value ''interface:'') (scan_lines out) of [] \<Rightarrow> [] | v # _ \<Rightarrow> v)"

fun find_service :: "string \<Rightarrow> string \<Rightarrow> string list \<Rightarrow> string option" where
  "find_service iface cur [] = None"
| "find_service iface cur (l # ls) =
     (let cur1 = (case line_value ''Hardware Port:'' l of Some v \<Rightarrow> v | None \<Rightarrow> cur)
      in if line_value ''Device:'' l = Some iface then Some cur1 else find_service iface cur1 ls)"

definition activeNetworkService :: "'o command \<Rightarrow> 'o \<Rightarrow> string or_err \<times> 'o" where
  "activeNetworkService run os = (case run [''route'', ''-n'', ''get'', ''default''] os of
       ((out, Some e), os1) \<Rightarrow> (Inl (''route get default: '' @ out @ '': '' @ e), os1)
     | ((out, None), os1) \<Rightarrow>
        (let iface = route_interface out in
         if iface = [] then (Inl ''no default route interface found'', os1)
         else (case run [''networksetup'', ''-listallhardwareports''] os1 of
             ((out2, Some e), os2) \<Rightarrow> (Inl (''listallhardwareports: '' @ out2 @ '': '' @ e), os2)
           | ((out2, None), os2) \<Rightarrow> (case find_service iface [] (scan_lines out2) of
               Some svc \<Rightarrow> (Inr svc, os2)
             | None \<Rightarrow> (Inl (''no network service found for interface '' @ iface), os2)))))"

subsection \<open>Setting and restoring\<close>

type_synonym saved = "string \<times> proxyState \<times> proxyState"

definition set_both :: "'o command \<Rightarrow> int \<Rightarrow> saved \<Rightarrow> 'o \<Rightarrow> saved or_err \<times> 'o" where
  "set_both run proxyPort sv os = (case sv of (svc, _) \<Rightarrow>
     (case networksetup run [''-setwebproxy'', svc, ''127.0.0.1'', Itoa proxyPort] os of
        (Some e, os1) \<Rightarrow> (Inl (''set http proxy: '' @ e), os1)
      | (None, os1) \<Rightarrow> (case networksetup run [''-setsecurewebproxy'', svc, ''127.0.0.1'', Itoa proxyPort] os1 of
          (Some e, os2) \<Rightarrow> (Inl (''set https proxy: '' @ e), os2)
        | (None, os2) \<Rightarrow> (Inr sv, os2))))"

definition setSystemProxy :: "'o platform \<Rightarrow> int \<Rightarrow> 'o \<Rightarrow> saved or_err \<times> 'o" where
  "setSystemProxy pf proxyPort os =
     (if \<not> pf_darwin pf then (Inl ''system proxy configuration not supported on Linux'', os)
      else (case activeNetworkService (pf_run pf) os of
          (Inl e, os1) \<Rightarrow> (Inl e, os1)
        | (Inr svc, os1) \<Rightarrow> (case getProxyState (pf_run pf) svc ''getwebproxy'' os1 of
            (Inl e, os2) \<Rightarrow> (Inl (''read http proxy: '' @ e), os2)
          | (Inr origHTTP, os2) \<Rightarrow> (case getProxyState (pf_run pf) svc ''getsecurewebproxy'' os2 of
              (Inl e, os3) \<Rightarrow> (Inl (''read https proxy: '' @ e), os3)
            | (Inr origHTTPS, os3) \<Rightarrow> set_both (pf_run pf) proxyPort (svc, origHTTP, origHTTPS) os3))))"

text \<open>One of the two settings: the command that sets it and the one that turns it off.\<close>

definition restore_one :: "'o command \<Rightarrow> string \<Rightarrow> string \<Rightarrow> string \<Rightarrow> proxyState \<Rightarrow> 'o \<Rightarrow> string list \<times> 'o" where
  "restore_one run svc kind name ps os =
     (if ps_enabled ps
      then (case networksetup run [''-set'' @ kind, svc, ps_server ps, Itoa (ps_port ps)] os of
          (Some e, os1) \<Rightarrow> ([''restore '' @ name @ '' proxy: '' @ e], os1) | (None, os1) \<Rightarrow> ([], os1))
      else (case networksetup run [''-set'' @ kind @ ''state'', svc, ''off''] os of
          (Some e, os1) \<Rightarrow> ([''disable '' @ name @ '' proxy: '' @ e], os1) | (None, os1) \<Rightarrow> ([], os1)))"

definition restoreProxy :: "'o command \<Rightarrow> saved \<Rightarrow> 'o \<Rightarrow> string option \<times> 'o" where
  "restoreProxy run sv os = (case sv of (svc, http, https) \<Rightarrow>
     (let (e1, os1) = restore_one run svc ''webproxy'' ''http'' http os;
          (e2, os2) = restore_one run svc ''securewebproxy'' ''https'' https os1
      in (if e1 @ e2 = [] then None else Some (Join (e1 @ e2) [nl]), os2)))"

definition openURL :: "'o platform \<Rightarrow> string \<Rightarrow> 'o \<Rightarrow> string option \<times> 'o" where
  "openURL pf url os = (case pf_run pf [if pf_darwin pf then ''open'' else ''xdg-open'', url] os of
       ((out, Some e), os1) \<Rightarrow> (Some (out @ '': '' @ e), os1) | ((_, None), os1) \<Rightarrow> (None, os1))"

text \<open>A session is what its cleanup restores.\<close>

definition Start :: "'o platform \<Rightarrow> int \<Rightarrow> string \<Rightarrow> 'o \<Rightarrow> saved or_err \<times> 'o" where
  "Start pf proxyPort url os = (case setSystemProxy pf proxyPort os of
       (Inl e, os1) \<Rightarrow> (Inl (''set system proxy: '' @ e), os1)
     | (Inr sv, os1) \<Rightarrow> (case openURL pf url os1 of
         (None, os2) \<Rightarrow> (Inr sv, os2)
       | (Some e, os2) \<Rightarrow> (Inl (''open browser: '' @ e), snd (restoreProxy (pf_run pf) sv os2))))"

definition Stop :: "'o platform \<Rightarrow> saved option \<Rightarrow> 'o \<Rightarrow> string option \<times> 'o" where
  "Stop pf sess os = (case sess of None \<Rightarrow> (None, os) | Some sv \<Rightarrow> restoreProxy (pf_run pf) sv os)"

subsection \<open>What networksetup does\<close>

text \<open>
  The documented behaviour of the command: what it prints for a setting, that a setting command
  changes the setting it names and nothing else, and nothing when it fails, and that the other
  commands of the program change no setting.  A view gives the setting of a service, HTTP (\<open>False\<close>)
  or HTTPS (\<open>True\<close>), in a state.
\<close>

definition verb :: "bool \<Rightarrow> string" where
  "verb sec = (if sec then ''securewebproxy'' else ''webproxy'')"

definition shown :: "proxyState \<Rightarrow> string" where
  "shown ps = (''Enabled: '' @ (if ps_enabled ps then ''Yes'' else ''No'')) @ nl # (''Server: '' @ ps_server ps) @ nl #
     (''Port: '' @ Itoa (ps_port ps)) @ nl # ''Authenticated Proxy Enabled: 0'' @ nl # []"

definition tidy :: "proxyState \<Rightarrow> bool" where
  "tidy ps \<longleftrightarrow> TrimSpace (ps_server ps) = ps_server ps \<and> nl \<notin> set (ps_server ps) \<and> length (ps_server ps) \<le> 1000 \<and>
     0 \<le> ps_port ps \<and> ps_port ps \<le> 65535"

definition put :: "string \<Rightarrow> bool \<Rightarrow> proxyState \<Rightarrow> (string \<Rightarrow> bool \<Rightarrow> proxyState) \<Rightarrow> string \<Rightarrow> bool \<Rightarrow> proxyState" where
  "put svc sec ps v = (\<lambda>s c. if s = svc \<and> c = sec then ps else v s c)"

definition networksetup_ok :: "'o command \<Rightarrow> ('o \<Rightarrow> string \<Rightarrow> bool \<Rightarrow> proxyState) \<Rightarrow> bool" where
  "networksetup_ok run view \<longleftrightarrow>
     (\<forall>os svc sec out err os1. run [''networksetup'', ''-get'' @ verb sec, svc] os = ((out, err), os1) \<longrightarrow>
        view os1 = view os \<and> (err = None \<longrightarrow> out = shown (view os svc sec))) \<and>
     (\<forall>os svc sec server port out err os1. run [''networksetup'', ''-set'' @ verb sec, svc, server, port] os = ((out, err), os1) \<longrightarrow>
        view os1 = (if err = None then put svc sec \<lparr>ps_enabled = True, ps_server = server, ps_port = Atoi_value port\<rparr> (view os)
          else view os)) \<and>
     (\<forall>os svc sec out err os1. run [''networksetup'', ''-set'' @ verb sec @ ''state'', svc, ''off''] os = ((out, err), os1) \<longrightarrow>
        view os1 = (if err = None then put svc sec ((view os svc sec)\<lparr>ps_enabled := False\<rparr>) (view os) else view os)) \<and>
     (\<forall>os cmd r os1. hd cmd \<noteq> ''networksetup'' \<or> cmd = [''networksetup'', ''-listallhardwareports''] \<longrightarrow>
        run cmd os = (r, os1) \<longrightarrow> view os1 = view os)"

lemma tidy_server: "tidy ps \<Longrightarrow> ps_server ps \<noteq> [] \<Longrightarrow> \<not> is_space (last (ps_server ps))"
  using TrimSpace_ends [of "ps_server ps"] by (simp add: tidy_def)

lemma Itoa_port:
  assumes "0 \<le> i" and "i \<le> 65535"
  shows "length (Itoa i) \<le> 6554" and "nl \<notin> set (Itoa i)" and "TrimSpace (Itoa i) = Itoa i"
    and "drop_cr (k @ Itoa i) = k @ Itoa i" and "\<not> is_space (last (k @ Itoa i))"
proof -
  have i: "Itoa i = show_nat (nat i)" using assms(1) by (simp add: Itoa_def)
  show "length (Itoa i) \<le> 6554" using length_show_nat [of "nat i"] assms(2) unfolding i by linarith
  have d: "\<forall>c \<in> set (Itoa i). is_digit c" using show_nat_digits [of "nat i"] by (simp add: i list_all_iff)
  then show "nl \<notin> set (Itoa i)" by (auto simp: is_digit_def nl_def byte_def)
  have ne: "Itoa i \<noteq> []" by (simp add: i)
  then have e: "is_digit (hd (Itoa i))" "is_digit (last (Itoa i))" using d by simp_all
  then have sp: "\<not> is_space (hd (Itoa i))" "\<not> is_space (last (Itoa i))" by (auto simp: is_digit_def is_space_def)
  then show "TrimSpace (Itoa i) = Itoa i" using ne by (rule_tac TrimSpace_id)
  show "\<not> is_space (last (k @ Itoa i))" using sp ne by simp
  then show "drop_cr (k @ Itoa i) = k @ Itoa i" by (auto simp: drop_cr_def is_space_def byte_def)
qed

lemma drop_cr_server: "tidy ps \<Longrightarrow> drop_cr (''Server: '' @ ps_server ps) = ''Server: '' @ ps_server ps"
  using tidy_server [of ps] by (cases "ps_server ps = []") (auto simp: drop_cr_def is_space_def byte_def)

lemma scan_shown:
  assumes "tidy ps"
  shows "scan_lines (shown ps) = [''Enabled: '' @ (if ps_enabled ps then ''Yes'' else ''No''), ''Server: '' @ ps_server ps,
    ''Port: '' @ Itoa (ps_port ps), ''Authenticated Proxy Enabled: 0'']"
proof -
  have t: "nl \<notin> set (ps_server ps)" "length (ps_server ps) \<le> 1000" "0 \<le> ps_port ps" "ps_port ps \<le> 65535"
    using assms by (auto simp: tidy_def)
  note p = Itoa_port [OF t(3,4)]
  have "Split nl (shown ps) = [''Enabled: '' @ (if ps_enabled ps then ''Yes'' else ''No''), ''Server: '' @ ps_server ps,
    ''Port: '' @ Itoa (ps_port ps), ''Authenticated Proxy Enabled: 0'', []]"
    unfolding shown_def using t(1) p(2) by (subst Split_append, simp add: nl_def)+ simp
  moreover have "drop_cr (''Enabled: '' @ (if ps_enabled ps then ''Yes'' else ''No'')) = ''Enabled: '' @ (if ps_enabled ps then ''Yes'' else ''No'')"
    "drop_cr ''Authenticated Proxy Enabled: 0'' = ''Authenticated Proxy Enabled: 0''" by (simp_all add: drop_cr_def)
  ultimately show ?thesis using drop_cr_server [OF assms] p(1) p(4) [of "''Port: ''"] t(2) by (simp add: scan_lines_def)
qed

lemma is_space_blank: "is_space CHR '' ''"
  by (simp add: is_space_def byte_def)

lemma line_value_at:
  assumes "\<not> is_space c" and "v = [] \<or> \<not> is_space (last v)" and "TrimSpace v = v" and "\<not> is_space (last (c # k))"
  shows "line_value (c # k) (c # k @ CHR '' '' # v) = Some v"
proof (cases "v = []")
  case True
  have "TrimSpace (c # k @ '' '') = c # k"
  proof -
    have "dropWhile is_space (rev (c # k)) = rev (c # k)"
      using assms(4) hd_rev [of "c # k"] by (intro dropWhile_hd_id) (simp_all del: rev.simps)
    then show ?thesis using assms(1) by (simp add: TrimSpace_def is_space_blank)
  qed
  then show ?thesis using True by (simp add: line_value_def Let_def HasPrefix_def)
next
  case False
  with assms have "TrimSpace (c # k @ CHR '' '' # v) = c # k @ CHR '' '' # v" by (intro TrimSpace_id) auto
  moreover have "TrimSpace (CHR '' '' # v) = v"
    using assms(3) by (simp add: TrimSpace_def is_space_blank)
  ultimately show ?thesis by (simp add: line_value_def HasPrefix_def)
qed

lemma line_value_other: "\<not> is_space c \<Longrightarrow> c \<noteq> d \<Longrightarrow> line_value (d # k) (c # r) = None"
  by (simp add: line_value_def TrimSpace_def dropWhile_snoc_keep)

text \<open>What the program reads is what the command shows.\<close>

lemma parse_shown:
  assumes "tidy ps"
  shows "parse_settings (shown ps) = ps"
proof -
  have t: "TrimSpace (ps_server ps) = ps_server ps" "0 \<le> ps_port ps" "ps_port ps \<le> 65535"
    using assms by (auto simp: tidy_def)
  note p = Itoa_port [OF t(2,3)]
  have v: "Atoi_value (Itoa (ps_port ps)) = ps_port ps" using t(2,3) by (intro Atoi_value_Some Atoi_Itoa) simp_all
  have sp: "\<not> is_space CHR ''E''" "\<not> is_space CHR ''S''" "\<not> is_space CHR ''P''" "\<not> is_space CHR ''A''" "\<not> is_space CHR '':''"
    "\<not> is_space CHR ''s''" "\<not> is_space CHR ''o''" by (simp_all add: is_space_def byte_def)
  have e: "line_value ''Enabled:'' (''Enabled: '' @ (if ps_enabled ps then ''Yes'' else ''No'')) = Some (if ps_enabled ps then ''Yes'' else ''No'')"
  proof -
    have "line_value ''Enabled:'' ''Enabled: Yes'' = Some ''Yes''" "line_value ''Enabled:'' ''Enabled: No'' = Some ''No''" by code_simp+
    then show ?thesis by simp
  qed
  have s: "line_value ''Server:'' (''Server: '' @ ps_server ps) = Some (ps_server ps)"
  proof -
    have "ps_server ps = [] \<or> \<not> is_space (last (ps_server ps))" using tidy_server [OF assms] by blast
    with line_value_at [of "CHR ''S''" "ps_server ps" "''erver:''"] show ?thesis using sp t(1) by simp
  qed
  have n: "line_value ''Port:'' (''Port: '' @ Itoa (ps_port ps)) = Some (Itoa (ps_port ps))"
    using line_value_at [of "CHR ''P''" "Itoa (ps_port ps)" "''ort:''"] sp p(3) p(5) [of "[]"] by simp
  have o: "line_value (CHR ''E'' # k) (CHR ''S'' # r) = None" "line_value (CHR ''E'' # k) (CHR ''P'' # r) = None"
    "line_value (CHR ''E'' # k) (CHR ''A'' # r) = None" "line_value (CHR ''S'' # k) (CHR ''E'' # r) = None"
    "line_value (CHR ''S'' # k) (CHR ''P'' # r) = None" "line_value (CHR ''S'' # k) (CHR ''A'' # r) = None"
    "line_value (CHR ''P'' # k) (CHR ''E'' # r) = None" "line_value (CHR ''P'' # k) (CHR ''S'' # r) = None"
    "line_value (CHR ''P'' # k) (CHR ''A'' # r) = None" for k r
    using sp by (simp_all add: line_value_other)
  show ?thesis unfolding parse_settings_def scan_shown [OF assms] using e s n
    by (simp add: read_setting_def Let_def o v split: if_splits)
qed

subsection \<open>What the program does to the settings\<close>

lemma networksetup_facts:
  assumes "networksetup_ok run view"
  shows "networksetup run [''-set'' @ verb sec, svc, server, port] os = (err, os1) \<Longrightarrow>
      view os1 = (if err = None then put svc sec \<lparr>ps_enabled = True, ps_server = server, ps_port = Atoi_value port\<rparr> (view os) else view os)"
    and "networksetup run [''-set'' @ verb sec @ ''state'', svc, ''off''] os = (err, os1) \<Longrightarrow>
      view os1 = (if err = None then put svc sec ((view os svc sec)\<lparr>ps_enabled := False\<rparr>) (view os) else view os)"
    and "getProxyState run svc (''get'' @ verb sec) os = (r, os1) \<Longrightarrow> view os1 = view os \<and>
      (\<forall>ps. r = Inr ps \<longrightarrow> tidy (view os svc sec) \<longrightarrow> ps = view os svc sec)"
    and "hd cmd \<noteq> ''networksetup'' \<or> cmd = [''networksetup'', ''-listallhardwareports''] \<Longrightarrow> run cmd os = (res, os1) \<Longrightarrow> view os1 = view os"
proof -
  note laws = assms [unfolded networksetup_ok_def]
  note l = laws [THEN conjunct1, rule_format] laws [THEN conjunct2, THEN conjunct1, rule_format]
    laws [THEN conjunct2, THEN conjunct2, THEN conjunct1, rule_format] laws [THEN conjunct2, THEN conjunct2, THEN conjunct2, rule_format]
  show "view os1 = (if err = None then put svc sec \<lparr>ps_enabled = True, ps_server = server, ps_port = Atoi_value port\<rparr> (view os) else view os)"
    if a: "networksetup run [''-set'' @ verb sec, svc, server, port] os = (err, os1)"
  proof -
    obtain out er o1 where r: "run [''networksetup'', ''-set'' @ verb sec, svc, server, port] os = ((out, er), o1)" by (metis surj_pair)
    from a have "o1 = os1 \<and> (er = None \<longleftrightarrow> err = None)" unfolding networksetup_def r by (cases er) auto
    with l(2) [OF r] show ?thesis by simp
  qed
  show "view os1 = (if err = None then put svc sec ((view os svc sec)\<lparr>ps_enabled := False\<rparr>) (view os) else view os)"
    if a: "networksetup run [''-set'' @ verb sec @ ''state'', svc, ''off''] os = (err, os1)"
  proof -
    obtain out er o1 where r: "run [''networksetup'', ''-set'' @ verb sec @ ''state'', svc, ''off''] os = ((out, er), o1)" by (metis surj_pair)
    from a have "o1 = os1 \<and> (er = None \<longleftrightarrow> err = None)" unfolding networksetup_def r by (cases er) auto
    with l(3) [OF r] show ?thesis by simp
  qed
  show "view os1 = view os \<and> (\<forall>ps. r = Inr ps \<longrightarrow> tidy (view os svc sec) \<longrightarrow> ps = view os svc sec)"
    if a: "getProxyState run svc (''get'' @ verb sec) os = (r, os1)"
  proof -
    obtain out er o1 where c: "run [''networksetup'', ''-get'' @ verb sec, svc] os = ((out, er), o1)" by (metis surj_pair)
    have "o1 = os1 \<and> (\<forall>ps. r = Inr ps \<longrightarrow> er = None \<and> ps = parse_settings out)"
      using a by (cases er) (auto simp: getProxyState_def c [simplified])
    moreover have "er = None \<Longrightarrow> tidy (view os svc sec) \<Longrightarrow> parse_settings out = view os svc sec"
      using l(1) [OF c] parse_shown [of "view os svc sec"] by simp
    ultimately show ?thesis using l(1) [OF c] by blast
  qed
  show "hd cmd \<noteq> ''networksetup'' \<or> cmd = [''networksetup'', ''-listallhardwareports''] \<Longrightarrow> run cmd os = (res, os1) \<Longrightarrow> view os1 = view os"
    by (rule l(4))
qed

lemma activeNetworkService_view:
  assumes "networksetup_ok run view" and "activeNetworkService run os = (r, os1)"
  shows "view os1 = view os"
proof -
  have "view os2 = view os1" if "run [''route'', ''-n'', ''get'', ''default''] os1 = (x, os2)" for os1 x os2
    by (rule networksetup_facts(4) [OF assms(1) _ that]) simp
  moreover have "view os2 = view os1" if "run [''networksetup'', ''-listallhardwareports''] os1 = (x, os2)" for os1 x os2
    by (rule networksetup_facts(4) [OF assms(1) _ that]) simp
  ultimately show ?thesis using assms(2)
    by (simp add: activeNetworkService_def Let_def split: prod.splits option.splits if_splits)
qed

definition pointed :: "int \<Rightarrow> proxyState" where
  "pointed port = \<lparr>ps_enabled = True, ps_server = ''127.0.0.1'', ps_port = port\<rparr>"

lemma Atoi_port: "0 \<le> port \<Longrightarrow> port \<le> 65535 \<Longrightarrow> Atoi_value (Itoa port) = port"
  by (intro Atoi_value_Some Atoi_Itoa) simp_all

lemma set_both_view:
  assumes "networksetup_ok run view" and "0 \<le> port" "port \<le> 65535" and "set_both run port sv os = (r, os1)"
  shows "(r = Inr sv \<and> view os1 = put (fst sv) True (pointed port) (put (fst sv) False (pointed port) (view os))) \<or>
    (\<exists>e. r = Inl (''set http proxy: '' @ e) \<and> view os1 = view os) \<or>
    (\<exists>e. r = Inl (''set https proxy: '' @ e) \<and> view os1 = put (fst sv) False (pointed port) (view os))"
  using assms(4) networksetup_facts(1) [OF assms(1), of False] networksetup_facts(1) [OF assms(1), of True]
  by (auto simp: set_both_def verb_def pointed_def Atoi_port [OF assms(2,3)] split: prod.splits option.splits)

lemma setSystemProxy_view:
  assumes "networksetup_ok (pf_run pf) view" and "0 \<le> port" "port \<le> 65535" and "\<forall>svc sec. tidy (view os svc sec)"
    and "setSystemProxy pf port os = (r, os1)"
  shows "(\<exists>svc. r = Inr (svc, view os svc False, view os svc True) \<and>
      view os1 = put svc True (pointed port) (put svc False (pointed port) (view os))) \<or>
    (\<exists>e. r = Inl e \<and> view os1 = view os) \<or>
    (\<exists>e svc. r = Inl (''set https proxy: '' @ e) \<and> view os1 = put svc False (pointed port) (view os))"
proof (cases "pf_darwin pf")
  case True
  obtain r1 o1 where a: "activeNetworkService (pf_run pf) os = (r1, o1)" by fastforce
  note v1 = activeNetworkService_view [OF assms(1) a]
  show ?thesis
  proof (cases r1)
    case (Inl e) with a v1 True assms(5) show ?thesis by (auto simp: setSystemProxy_def)
  next
    case (Inr svc)
    obtain r2 o2 where b: "getProxyState (pf_run pf) svc (''get'' @ verb False) o1 = (r2, o2)" by fastforce
    obtain r3 o3 where c: "getProxyState (pf_run pf) svc (''get'' @ verb True) o2 = (r3, o3)" by fastforce
    note v2 = networksetup_facts(3) [OF assms(1) b] and v3 = networksetup_facts(3) [OF assms(1) c]
    have old: "r2 = Inr p \<Longrightarrow> p = view os svc False" "r3 = Inr p \<Longrightarrow> p = view os svc True" and v: "view o2 = view os" "view o3 = view os" for p
      using v1 v2 v3 assms(4) by auto
    note d = True a Inr b [unfolded verb_def, simplified] c [unfolded verb_def, simplified]
    show ?thesis
    proof (cases "\<exists>p q. r2 = Inr p \<and> r3 = Inr q")
      case True
      then obtain p q where pq: "r2 = Inr p" "r3 = Inr q" by blast
      with d assms(5) have "set_both (pf_run pf) port (svc, p, q) o3 = (r, os1)" by (simp add: setSystemProxy_def)
      from set_both_view [OF assms(1-3) this] have "(r = Inr (svc, p, q) \<and> view os1 = put svc True (pointed port) (put svc False (pointed port) (view os))) \<or>
        (\<exists>e. r = Inl (''set http proxy: '' @ e) \<and> view os1 = view os) \<or>
        (\<exists>e. r = Inl (''set https proxy: '' @ e) \<and> view os1 = put svc False (pointed port) (view os))" by (simp only: v fst_conv)
      moreover have "p = view os svc False" "q = view os svc True" using old pq by blast+
      ultimately show ?thesis by blast
    next
      case False
      with d assms(5) v show ?thesis by (cases r2; cases r3) (auto simp: setSystemProxy_def)
    qed
  qed
qed (use assms(5) in \<open>auto simp: setSystemProxy_def\<close>)

text \<open>A setting that was on comes back; one that was off is off again, but keeps the address it was given.\<close>

definition restored :: "proxyState \<Rightarrow> proxyState \<Rightarrow> proxyState" where
  "restored old now = (if ps_enabled old then old else now\<lparr>ps_enabled := False\<rparr>)"

lemma restore_one_view:
  assumes "networksetup_ok run view" and "restore_one run svc (verb sec) name ps os = ([], os1)" and "tidy ps"
  shows "view os1 = put svc sec (restored ps (view os svc sec)) (view os)"
  using assms(2) networksetup_facts(1,2) [OF assms(1), of sec svc] assms(3)
  by (cases ps) (auto simp: restore_one_def restored_def tidy_def Atoi_port split: prod.splits option.splits if_splits)

lemma restoreProxy_view:
  assumes "networksetup_ok run view" and "tidy p" "tidy q" and "restoreProxy run (svc, p, q) os = (None, os1)"
  shows "view os1 = put svc True (restored q (view os svc True)) (put svc False (restored p (view os svc False)) (view os))"
proof -
  obtain e1 o1 e2 where r: "restore_one run svc (verb False) ''http'' p os = (e1, o1)"
    "restore_one run svc (verb True) ''https'' q o1 = (e2, os1)" "e1 = []" "e2 = []"
    using assms(4) by (auto simp: restoreProxy_def verb_def Let_def split: prod.splits if_splits)
  note v1 = restore_one_view [OF assms(1) r(1) [unfolded r(3)] assms(2)]
  note v2 = restore_one_view [OF assms(1) r(2) [unfolded r(4)] assms(3)]
  show ?thesis unfolding v2 v1 by (simp add: put_def)
qed

lemma openURL_view: "networksetup_ok (pf_run pf) view \<Longrightarrow> openURL pf url os = (u, os1) \<Longrightarrow> view os1 = view os"
  using networksetup_facts(4) [of "pf_run pf" view "[if pf_darwin pf then ''open'' else ''xdg-open'', url]" os]
  by (auto simp: openURL_def split: prod.splits option.splits if_splits)

text \<open>C32: A browse session that starts points the HTTP and HTTPS proxy of one network service to the
  program and changes no other setting; stopping it puts back every setting that was on, and leaves
  one that was off turned off, but with the address of the program in place of its own.\<close>

theorem browse_restores:
  assumes "networksetup_ok (pf_run pf) view" and "\<forall>svc sec. tidy (view os svc sec)" and "0 \<le> port \<and> port \<le> 65535"
    and "Start pf port url os = (Inr sv, os1)" and "view os2 = view os1" and "Stop pf (Some sv) os2 = (None, os3)"
  shows "(\<forall>s c. view os1 s c = (if s = fst sv then pointed port else view os s c)) \<and>
    (\<forall>s c. view os3 s c = (if s = fst sv \<and> \<not> ps_enabled (view os s c) then (pointed port)\<lparr>ps_enabled := False\<rparr> else view os s c))"
proof -
  obtain o1 u where a: "setSystemProxy pf port os = (Inr sv, o1)" "openURL pf url o1 = (u, os1)"
    using assms(4) by (auto simp: Start_def split: prod.splits sum.splits option.splits)
  have b: "view os1 = view o1"
    by (rule openURL_view [OF assms(1) a(2)])
  from setSystemProxy_view [OF assms(1) _ _ assms(2) a(1)] assms(3)
  obtain svc where sv: "sv = (svc, view os svc False, view os svc True)"
    and v: "view o1 = put svc True (pointed port) (put svc False (pointed port) (view os))" by auto
  from assms(6) sv have "restoreProxy (pf_run pf) (svc, view os svc False, view os svc True) os2 = (None, os3)"
    by (simp add: Stop_def)
  from restoreProxy_view [OF assms(1) _ _ this] assms(2)
  have w: "view os3 = put svc True (restored (view os svc True) (view os2 svc True))
      (put svc False (restored (view os svc False) (view os2 svc False)) (view os2))" by blast
  show ?thesis unfolding w assms(5) b v sv by (auto simp: put_def restored_def)
qed

text \<open>A browse session that does not start changes no setting, unless the browser could not be
  opened, when the settings are put back as far as the commands for that succeed, or the HTTPS
  proxy could not be set: then the HTTP proxy stays pointed to the program, and nothing restores it.\<close>

theorem failed_browse_leaves:
  assumes "networksetup_ok (pf_run pf) view" and "\<forall>svc sec. tidy (view os svc sec)" and "0 \<le> port \<and> port \<le> 65535"
    and "Start pf port url os = (Inl e, os1)"
  shows "view os1 = view os \<or>
    (\<exists>e1 svc. e = ''set system proxy: set https proxy: '' @ e1 \<and> view os1 = put svc False (pointed port) (view os)) \<or>
    (\<exists>e1 svc os0. e = ''open browser: '' @ e1 \<and>
       view os0 = put svc True (pointed port) (put svc False (pointed port) (view os)) \<and>
       os1 = snd (restoreProxy (pf_run pf) (svc, view os svc False, view os svc True) os0))"
proof -
  obtain r o1 where a: "setSystemProxy pf port os = (r, o1)" by fastforce
  show ?thesis
  proof (cases r)
    case (Inl e0)
    with a assms(4) have "e = ''set system proxy: '' @ e0" "os1 = o1" by (auto simp: Start_def)
    with setSystemProxy_view [OF assms(1) _ _ assms(2) a] assms(3) Inl show ?thesis by auto
  next
    case (Inr sv)
    with setSystemProxy_view [OF assms(1) _ _ assms(2) a] assms(3)
    obtain svc where sv: "sv = (svc, view os svc False, view os svc True)"
      and v: "view o1 = put svc True (pointed port) (put svc False (pointed port) (view os))" by auto
    obtain u o2 where u: "openURL pf url o1 = (u, o2)" by fastforce
    with a Inr assms(4) obtain e1 where e: "e = ''open browser: '' @ e1" "os1 = snd (restoreProxy (pf_run pf) sv o2)"
      by (cases u) (auto simp: Start_def)
    from e v openURL_view [OF assms(1) u] show ?thesis unfolding sv by metis
  qed
qed

text \<open>A system with one service for examples; it can refuse to set the HTTPS proxy.\<close>

record demo_os =
  do_view :: "string \<Rightarrow> bool \<Rightarrow> proxyState"
  do_refuse :: bool

definition demo_set :: "string \<Rightarrow> bool \<Rightarrow> (proxyState \<Rightarrow> proxyState) \<Rightarrow> demo_os \<Rightarrow> (string \<times> string option) \<times> demo_os" where
  "demo_set svc sec f os = (if sec \<and> do_refuse os then (([], Some ''refused''), os)
     else (([], None), os\<lparr>do_view := put svc sec (f (do_view os svc sec)) (do_view os)\<rparr>))"

definition demo_run :: "demo_os command" where
  "demo_run cmd os = (if hd cmd \<noteq> ''networksetup'' then ((''interface: en0'', None), os)
     else let key = cmd ! 1; svc = cmd ! 2;
         on = (\<lambda>_. \<lparr>ps_enabled = True, ps_server = cmd ! 3, ps_port = Atoi_value (cmd ! 4)\<rparr>);
         off = (\<lambda>ps. ps\<lparr>ps_enabled := False\<rparr>)
       in if key = ''-listallhardwareports'' then ((''Hardware Port: Wi-Fi'' @ nl # ''Device: en0'' @ [nl], None), os)
          else if key = ''-getwebproxy'' then ((shown (do_view os svc False), None), os)
          else if key = ''-getsecurewebproxy'' then ((shown (do_view os svc True), None), os)
          else if key = ''-setwebproxy'' then demo_set svc False on os
          else if key = ''-setsecurewebproxy'' then demo_set svc True on os
          else if key = ''-setwebproxystate'' then demo_set svc False off os
          else if key = ''-setsecurewebproxystate'' then demo_set svc True off os
          else (([], Some ''usage''), os))"

definition demo_mac :: "demo_os platform" where
  "demo_mac = \<lparr>pf_darwin = True, pf_run = demo_run\<rparr>"

lemma demo_run_eqs:
  "demo_run [''networksetup'', ''-get'' @ verb sec, svc] os = ((shown (do_view os svc sec), None), os)"
  "demo_run [''networksetup'', ''-set'' @ verb sec, svc, server, port] os =
     demo_set svc sec (\<lambda>_. \<lparr>ps_enabled = True, ps_server = server, ps_port = Atoi_value port\<rparr>) os"
  "demo_run [''networksetup'', ''-set'' @ verb sec @ ''state'', svc, ''off''] os = demo_set svc sec (\<lambda>ps. ps\<lparr>ps_enabled := False\<rparr>) os"
  "hd cmd \<noteq> ''networksetup'' \<or> cmd = [''networksetup'', ''-listallhardwareports''] \<Longrightarrow> snd (demo_run cmd os) = os"
proof -
  show "demo_run [''networksetup'', ''-get'' @ verb sec, svc] os = ((shown (do_view os svc sec), None), os)"
    by (cases sec) (simp_all add: demo_run_def verb_def)
  show "demo_run [''networksetup'', ''-set'' @ verb sec, svc, server, port] os =
     demo_set svc sec (\<lambda>_. \<lparr>ps_enabled = True, ps_server = server, ps_port = Atoi_value port\<rparr>) os"
    by (cases sec) (simp_all add: demo_run_def verb_def)
  show "demo_run [''networksetup'', ''-set'' @ verb sec @ ''state'', svc, ''off''] os = demo_set svc sec (\<lambda>ps. ps\<lparr>ps_enabled := False\<rparr>) os"
    by (cases sec) (simp_all add: demo_run_def verb_def)
  show "hd cmd \<noteq> ''networksetup'' \<or> cmd = [''networksetup'', ''-listallhardwareports''] \<Longrightarrow> snd (demo_run cmd os) = os"
    by (cases "hd cmd = ''networksetup''") (simp_all add: demo_run_def)
qed

lemma demo_run_ok: "networksetup_ok demo_run do_view"
proof -
  have a: "do_view os1 = do_view os" if "hd cmd \<noteq> ''networksetup'' \<or> cmd = [''networksetup'', ''-listallhardwareports'']"
    and "demo_run cmd os = (r, os1)" for cmd os r os1
    using demo_run_eqs(4) [OF that(1), of os] that(2) by simp
  show ?thesis unfolding networksetup_ok_def demo_run_eqs
  proof (intro conjI allI impI)
    fix os cmd r os1
    assume "hd cmd \<noteq> ''networksetup'' \<or> cmd = [''networksetup'', ''-listallhardwareports'']" "demo_run cmd os = (r, os1)"
    then show "do_view os1 = do_view os" by (rule a)
  qed (auto simp: demo_set_def split: if_splits)
qed

definition demo_before :: demo_os where
  "demo_before = \<lparr>do_view = (\<lambda>_ sec. \<lparr>ps_enabled = sec, ps_server = ''proxy.corp'', ps_port = 3128\<rparr>), do_refuse = False\<rparr>"

lemma demo_tidy: "tidy (do_view demo_before svc sec)"
  by (simp add: demo_before_def tidy_def TrimSpace_id is_space_def byte_def nl_def)

lemma demo_service: "activeNetworkService demo_run os = (Inr ''Wi-Fi'', os)"
proof -
  have l: "scan_lines ''interface: en0'' = [''interface: en0'']"
    "scan_lines (''Hardware Port: Wi-Fi'' @ nl # ''Device: en0'' @ [nl]) = [''Hardware Port: Wi-Fi'', ''Device: en0'']"
    by (simp_all add: scan_lines_def drop_cr_def nl_def)
  have "line_value ''interface:'' ''interface: en0'' = Some ''en0''" "line_value ''Hardware Port:'' ''Hardware Port: Wi-Fi'' = Some ''Wi-Fi''"
    "line_value ''Device:'' ''Hardware Port: Wi-Fi'' = None" "line_value ''Hardware Port:'' ''Device: en0'' = None"
    "line_value ''Device:'' ''Device: en0'' = Some ''en0''" by code_simp+
  then have "route_interface ''interface: en0'' = ''en0''"
    "find_service ''en0'' [] (scan_lines (''Hardware Port: Wi-Fi'' @ nl # ''Device: en0'' @ [nl])) = Some ''Wi-Fi''"
    by (simp_all only: l route_interface_def find_service.simps Let_def option.case option.inject if_True if_False map_filter_simps list.case) simp_all
  then show ?thesis by (simp add: activeNetworkService_def demo_run_def)
qed

definition demo_during :: demo_os where
  "demo_during = demo_before\<lparr>do_view := put ''Wi-Fi'' True (pointed 8080) (put ''Wi-Fi'' False (pointed 8080) (do_view demo_before))\<rparr>"

definition demo_saved :: saved where
  "demo_saved = (''Wi-Fi'', do_view demo_before ''Wi-Fi'' False, do_view demo_before ''Wi-Fi'' True)"

lemma demo_start:
  "setSystemProxy demo_mac 8080 demo_before = (Inr demo_saved, demo_during)"
  "setSystemProxy demo_mac 8080 (demo_before\<lparr>do_refuse := True\<rparr>) =
     (Inl (''set https proxy: networksetup -setsecurewebproxy: : refused''),
      demo_before\<lparr>do_refuse := True, do_view := put ''Wi-Fi'' False (pointed 8080) (do_view demo_before)\<rparr>)"
proof -
  have g: "getProxyState demo_run svc ''getwebproxy'' os = (Inr (parse_settings (shown (do_view os svc False))), os)"
    "getProxyState demo_run svc ''getsecurewebproxy'' os = (Inr (parse_settings (shown (do_view os svc True))), os)" for svc os
    by (simp_all add: getProxyState_def demo_run_def)
  have v: "do_view (demo_before\<lparr>do_refuse := True\<rparr>) = do_view demo_before" by simp
  have n: "networksetup demo_run [''-setwebproxy'', svc, ''127.0.0.1'', Itoa 8080] os = (None, os\<lparr>do_view := put svc False (pointed 8080) (do_view os)\<rparr>)"
    "networksetup demo_run [''-setsecurewebproxy'', svc, ''127.0.0.1'', Itoa 8080] os = (if do_refuse os then
       (Some ''networksetup -setsecurewebproxy: : refused'', os) else (None, os\<lparr>do_view := put svc True (pointed 8080) (do_view os)\<rparr>))" for svc os
    by (simp_all add: networksetup_def demo_run_def demo_set_def pointed_def Atoi_port)
  show "setSystemProxy demo_mac 8080 demo_before = (Inr demo_saved, demo_during)"
    by (simp add: setSystemProxy_def demo_mac_def demo_service g parse_shown demo_tidy set_both_def n demo_saved_def demo_during_def)
      (simp add: demo_before_def)
  show "setSystemProxy demo_mac 8080 (demo_before\<lparr>do_refuse := True\<rparr>) =
     (Inl (''set https proxy: networksetup -setsecurewebproxy: : refused''),
      demo_before\<lparr>do_refuse := True, do_view := put ''Wi-Fi'' False (pointed 8080) (do_view demo_before)\<rparr>)"
    by (simp add: setSystemProxy_def demo_mac_def demo_service g parse_shown demo_tidy set_both_def n v)
qed

lemma demo_stop: "\<exists>os. Stop demo_mac (Some demo_saved) demo_during = (None, os)"
proof -
  have "do_view demo_before ''Wi-Fi'' sec = \<lparr>ps_enabled = sec, ps_server = ''proxy.corp'', ps_port = 3128\<rparr>" for sec
    by (simp add: demo_before_def)
  moreover have "\<not> do_refuse demo_during" by (simp add: demo_during_def demo_before_def)
  ultimately show ?thesis
    by (simp add: Stop_def demo_mac_def demo_saved_def restoreProxy_def restore_one_def networksetup_def demo_run_def demo_set_def Let_def)
qed

theorem browse_restores_witness:
  "\<exists>os2. Start demo_mac 8080 ''http://a/'' demo_before = (Inr demo_saved, demo_during) \<and> Stop demo_mac (Some demo_saved) demo_during = (None, os2) \<and>
     do_view demo_during ''Wi-Fi'' False = pointed 8080 \<and> do_view os2 ''Wi-Fi'' True = do_view demo_before ''Wi-Fi'' True \<and>
     do_view os2 ''Wi-Fi'' False = \<lparr>ps_enabled = False, ps_server = ''127.0.0.1'', ps_port = 8080\<rparr>"
proof -
  have o: "openURL demo_mac ''http://a/'' os = (None, os)" for os by (simp add: openURL_def demo_mac_def demo_run_def)
  obtain os2 where r: "Stop demo_mac (Some demo_saved) demo_during = (None, os2)" using demo_stop by blast
  have s: "Start demo_mac 8080 ''http://a/'' demo_before = (Inr demo_saved, demo_during)" by (simp add: Start_def demo_start o)
  have "networksetup_ok (pf_run demo_mac) do_view" by (simp add: demo_mac_def demo_run_ok)
  from browse_restores [OF this _ _ s refl r] demo_tidy
  have v: "do_view demo_during ''Wi-Fi'' c = pointed 8080"
    "do_view os2 ''Wi-Fi'' c = (if \<not> ps_enabled (do_view demo_before ''Wi-Fi'' c) then (pointed 8080)\<lparr>ps_enabled := False\<rparr> else do_view demo_before ''Wi-Fi'' c)" for c
    by (simp_all add: demo_saved_def)
  show ?thesis by (intro exI [of _ os2]) (simp add: s r v, simp add: pointed_def demo_before_def)
qed

theorem failed_browse_leaves_witness:
  "\<exists>e os1. Start demo_mac 8080 ''http://a/'' (demo_before\<lparr>do_refuse := True\<rparr>) = (Inl e, os1) \<and>
     do_view os1 ''Wi-Fi'' False = pointed 8080 \<and> do_view demo_before ''Wi-Fi'' False \<noteq> pointed 8080"
proof -
  let ?b = "demo_before\<lparr>do_refuse := True\<rparr>"
  let ?o = "?b\<lparr>do_view := put ''Wi-Fi'' False (pointed 8080) (do_view demo_before)\<rparr>"
  have "networksetup_ok (pf_run demo_mac) do_view" by (simp add: demo_mac_def demo_run_ok)
  moreover have s: "Start demo_mac 8080 ''http://a/'' ?b =
      (Inl ''set system proxy: set https proxy: networksetup -setsecurewebproxy: : refused'', ?o)" by (simp add: Start_def demo_start)
  ultimately have "do_view ?o = do_view ?b \<or> (\<exists>svc. do_view ?o = put svc False (pointed 8080) (do_view ?b))"
    using failed_browse_leaves [of demo_mac do_view ?b 8080 "''http://a/''" _ ?o] demo_tidy by auto
  then have "do_view ?o ''Wi-Fi'' False = pointed 8080" by (simp add: put_def)
  with s show ?thesis by (simp add: pointed_def demo_before_def)
qed

end
