(* ===== verification/Proto_Files.thy ===== *)
theory Proto_Files
  imports Body_Decoder Script_Header
begin

section \<open>Loading .proto files (internal/bodydecoder: protoregistry.go, bufcache.go)\<close>

text \<open>
  Which files are given to the protobuf compiler, in which directories it looks for imports, and the
  registry made of its result.  Paths are those of package filepath on Unix; the file system holds
  clean paths, and looking one up cleans it, so symbolic links are left out.  The record \<open>penv\<close> has the
  environment, the YAML parser, the compiler and the order in which Go visits a map.
\<close>

subsection \<open>Paths\<close>

definition rooted :: "string \<Rightarrow> bool" where
  "rooted p = HasPrefix p ''/''"

definition clean_step :: "bool \<Rightarrow> string list \<Rightarrow> string \<Rightarrow> string list" where
  "clean_step rt out e =
     (if e = [] \<or> e = ''.'' then out
      else if e = ''..'' then (case out of [] \<Rightarrow> if rt then [] else [e] | x # xs \<Rightarrow> if x = ''..'' then e # out else xs)
      else e # out)"

definition elems :: "string \<Rightarrow> string list" where
  "elems p = rev (foldl (clean_step (rooted p)) [] (Split CHR ''/'' p))"

definition unparse :: "bool \<Rightarrow> string list \<Rightarrow> string" where
  "unparse rt es = (let s = (if rt then ''/'' else []) @ Join es ''/'' in if s = [] then ''.'' else s)"

definition Clean :: "string \<Rightarrow> string" where
  "Clean p = unparse (rooted p) (elems p)"

definition JoinPath :: "string list \<Rightarrow> string" where
  "JoinPath ps = (case dropWhile (\<lambda>p. p = []) ps of [] \<Rightarrow> [] | qs \<Rightarrow> Clean (Join qs ''/''))"

definition Dir :: "string \<Rightarrow> string" where
  "Dir p = Clean (case LastIndexByte p CHR ''/'' of None \<Rightarrow> [] | Some i \<Rightarrow> take (Suc i) p)"

definition Base :: "string \<Rightarrow> string" where
  "Base p = (if p = [] then ''.''
     else let q = rev (dropWhile (\<lambda>c. c = CHR ''/'') (rev p))
          in if q = [] then ''/'' else (case LastIndexByte q CHR ''/'' of None \<Rightarrow> q | Some i \<Rightarrow> drop (Suc i) q))"

fun drop_common :: "string list \<Rightarrow> string list \<Rightarrow> string list \<times> string list" where
  "drop_common (b # bs) (t # ts) = (if b = t then drop_common bs ts else (b # bs, t # ts))"
| "drop_common bs ts = (bs, ts)"

definition Rel :: "string \<Rightarrow> string \<Rightarrow> string or_err" where
  "Rel base targ =
     (if Clean base = Clean targ then Inr ''.''
      else if rooted base \<noteq> rooted targ then Inl (''Rel: can't make '' @ targ @ '' relative to '' @ base)
      else (case drop_common (elems base) (elems targ) of (bs, ts) \<Rightarrow>
        if bs \<noteq> [] \<and> hd bs = ''..'' then Inl (''Rel: can't make '' @ targ @ '' relative to '' @ base)
        else Inr (Join (replicate (length bs) ''..'' @ ts) ''/'')))"

subsection \<open>The disk\<close>

definition plain :: "string \<Rightarrow> bool" where
  "plain e = (e \<noteq> [] \<and> e \<noteq> ''.'' \<and> e \<noteq> ''..'' \<and> CHR ''/'' \<notin> set e)"

text \<open>\<open>os.Stat\<close>: whether a path is a directory; the path of a file ends in a name.\<close>

definition Stat :: "string \<Rightarrow> fsys \<Rightarrow> bool or_err" where
  "Stat p fs = (if p \<noteq> [] \<and> Clean p \<in> set (fs_dirs fs) then Inr True
     else if plain (last (Split CHR ''/'' p)) \<and> map_of (fs_files fs) (Clean p) \<noteq> None then Inr False
     else Inl (''stat '' @ p @ '': no such file or directory''))"

text \<open>\<open>q\<close> lies below the directory \<open>p\<close>, by the given elements.\<close>

definition below :: "string \<Rightarrow> string \<Rightarrow> bool" where
  "below p q = (rooted p = rooted q \<and> length (elems p) < length (elems q) \<and> take (length (elems p)) (elems q) = elems p \<and>
     ''..'' \<notin> set (drop (length (elems p)) (elems q)))"

text \<open>\<open>filepath.WalkDir\<close>: the paths below a directory with their IsDir, in its order, without those below a
  directory that cannot be read.\<close>

definition WalkDir :: "string \<Rightarrow> fsys \<Rightarrow> (string \<times> bool) list" where
  "WalkDir p fs = filter (\<lambda>(q, _). below p q \<and>
        list_all (\<lambda>d. \<not> ((d = Clean p \<or> below p d) \<and> below d q \<and> fs_read_fault fs d \<noteq> None)) (fs_dirs fs))
     (sort_key (\<lambda>(q, _). elems q) (map (\<lambda>q. (q, True)) (fs_dirs fs) @ map (\<lambda>q. (q, False)) (map fst (fs_files fs))))"

subsection \<open>The cache of buf modules\<close>

record bufLockDep =
  bl_Remote :: string
  bl_Owner :: string
  bl_Repository :: string
  bl_Commit :: string

record 'm penv =
  pe_getenv :: "string \<Rightarrow> string"
  pe_goos :: string
  pe_home :: "string option"
  pe_yaml :: "string \<Rightarrow> bufLockDep list or_err"
  pe_compile :: "string list \<Rightarrow> string list \<Rightarrow> (string \<times> (string \<times> 'm) list) list list or_err"
  pe_order :: "string list \<Rightarrow> string list"

definition defaultBufCacheDir :: "'m penv \<Rightarrow> string" where
  "defaultBufCacheDir E =
     (if pe_goos E = ''darwin'' \<or> pe_goos E = ''linux''
      then (case pe_home E of None \<Rightarrow> [] | Some h \<Rightarrow> JoinPath [h, ''.cache'', ''buf''])
      else if pe_goos E = ''windows''
      then (if pe_getenv E ''LOCALAPPDATA'' \<noteq> [] then JoinPath [pe_getenv E ''LOCALAPPDATA'', ''buf''] else [])
      else [])"

definition bufCacheRoot :: "'m penv \<Rightarrow> string" where
  "bufCacheRoot E = (if pe_getenv E ''BUF_CACHE_DIR'' \<noteq> [] then pe_getenv E ''BUF_CACHE_DIR'' else defaultBufCacheDir E)"

definition module_dir :: "string \<Rightarrow> bufLockDep \<Rightarrow> string" where
  "module_dir root d = JoinPath [root, ''v3'', ''modules'', ''shake256'', bl_Remote d, bl_Owner d, bl_Repository d, bl_Commit d, ''files'']"

definition resolveBufCache :: "'m penv \<Rightarrow> string \<Rightarrow> fsys \<Rightarrow> string list or_err" where
  "resolveBufCache E dir fs = (let lockPath = JoinPath [dir, ''buf.lock''] in
     case ReadFile lockPath fs of
       Inl e \<Rightarrow> if fs_read_fault fs lockPath = None then Inr [] else Inl (''read buf.lock: '' @ e)
     | Inr data \<Rightarrow> (case pe_yaml E data of Inl e \<Rightarrow> Inl (''parse buf.lock: '' @ e)
         | Inr deps \<Rightarrow> if bufCacheRoot E = [] then Inr []
             else Inr (filter (\<lambda>p. Stat p fs = Inr True) (map (module_dir (bufCacheRoot E)) deps))))"

subsection \<open>Files and import directories\<close>

record found =
  fo_files :: "string list"
  fo_dirs :: "string list"
  fo_errs :: "string list"

definition add_new :: "'a list \<Rightarrow> 'a \<Rightarrow> 'a list" where
  "add_new xs x = (if x \<in> set xs then xs else xs @ [x])"

definition walk_step :: "string \<Rightarrow> string \<times> bool \<Rightarrow> string list \<Rightarrow> string list" where
  "walk_step p entry files = (case entry of (path, isdir) \<Rightarrow>
     if \<not> isdir \<and> HasSuffix path ''.proto''
     then add_new files (case Rel p path of Inl _ \<Rightarrow> path | Inr rel \<Rightarrow> rel) else files)"

definition add_directory :: "'m penv \<Rightarrow> fsys \<Rightarrow> string \<Rightarrow> found \<Rightarrow> found" where
  "add_directory E fs p fo =
     (let dirs = add_new (fo_dirs fo) p;
          (dirs1, errs) = (case resolveBufCache E p fs of Inl e \<Rightarrow> (dirs, fo_errs fo @ [e])
            | Inr bufDirs \<Rightarrow> (foldl add_new dirs bufDirs, fo_errs fo))
      in \<lparr>fo_files = fold (walk_step p) (WalkDir p fs) (fo_files fo), fo_dirs = dirs1, fo_errs = errs\<rparr>)"

definition add_path :: "'m penv \<Rightarrow> fsys \<Rightarrow> string \<Rightarrow> found \<Rightarrow> found" where
  "add_path E fs p fo = (case Stat p fs of
       Inl e \<Rightarrow> fo\<lparr>fo_errs := fo_errs fo @ [''proto path '' @ p @ '': '' @ e]\<rparr>
     | Inr True \<Rightarrow> add_directory E fs p fo
     | Inr False \<Rightarrow> fo\<lparr>fo_dirs := add_new (fo_dirs fo) (Dir p), fo_files := add_new (fo_files fo) (Base p)\<rparr>)"

definition resolveProtoPaths :: "'m penv \<Rightarrow> fsys \<Rightarrow> string list \<Rightarrow> found" where
  "resolveProtoPaths E fs paths = (let fo = fold (add_path E fs) paths \<lparr>fo_files = [], fo_dirs = [], fo_errs = []\<rparr>
     in fo\<lparr>fo_dirs := pe_order E (fo_dirs fo)\<rparr>)"

definition registry_of :: "(string \<times> (string \<times> 'm) list) list list \<Rightarrow> 'm ProtoRegistry" where
  "registry_of compiled = fold (\<lambda>(k, m). AList.update k m)
     (concat (map (\<lambda>(svc, methods). map (\<lambda>(name, m). (svc @ ''/'' @ name, m)) methods) (concat compiled))) []"

definition LoadProtoFiles :: "'m penv \<Rightarrow> fsys \<Rightarrow> string list \<Rightarrow> string list \<Rightarrow> 'm ProtoRegistry \<times> string list" where
  "LoadProtoFiles E fs paths includeDirs = (let fo = resolveProtoPaths E fs paths in
     if length (fo_files fo) = 0 then ([], fo_errs fo)
     else (case pe_compile E (fo_files fo) (fo_dirs fo @ includeDirs) of
         Inl e \<Rightarrow> ([], fo_errs fo @ [''proto compile: '' @ e])
       | Inr compiled \<Rightarrow> (registry_of compiled, fo_errs fo)))"

subsection \<open>Clean paths\<close>

definition normal :: "bool \<Rightarrow> string list \<Rightarrow> bool" where
  "normal rt es \<longleftrightarrow> (\<exists>k rest. es = replicate k ''..'' @ rest \<and> list_all plain rest \<and> (rt \<longrightarrow> k = 0))"

lemma normal_snoc: "normal rt es \<Longrightarrow> plain e \<Longrightarrow> normal rt (es @ [e])"
proof -
  assume "normal rt es" "plain e"
  then obtain k rest where "es = replicate k ''..'' @ rest" "list_all plain rest" "rt \<longrightarrow> k = 0" by (auto simp: normal_def)
  then show ?thesis using \<open>plain e\<close> unfolding normal_def by (intro exI [of _ k] exI [of _ "rest @ [e]"]) simp
qed

lemma clean_step_normal:
  assumes "normal rt (rev out)" and "CHR ''/'' \<notin> set e"
  shows "normal rt (rev (clean_step rt out e))"
proof (cases "e = [] \<or> e = ''.'' \<or> e \<noteq> ''..''")
  case True
  then show ?thesis using assms normal_snoc [of rt "rev out" e] by (auto simp: clean_step_def plain_def)
next
  case False
  obtain k rest where r: "rev out = replicate k ''..'' @ rest" "list_all plain rest" "rt \<longrightarrow> k = 0"
    using assms(1) by (auto simp: normal_def)
  show ?thesis
  proof (cases rest rule: rev_cases)
    case Nil
    then have o: "out = replicate k ''..''" using r(1) by (metis append_Nil2 rev_replicate rev_rev_ident)
    show ?thesis
    proof (cases k)
      case 0
      then have "rev (clean_step rt out e) = replicate (if rt then 0 else 1) ''..''" using False o by (simp add: clean_step_def)
      then show ?thesis unfolding normal_def by (intro exI [of _ "if rt then 0 else 1"] exI [of _ "[]"]) simp
    next
      case (Suc n)
      then have "rev (clean_step rt out e) = replicate (Suc k) ''..'' @ []"
        using False o by (simp add: clean_step_def replicate_append_same)
      then show ?thesis using r(3) Suc unfolding normal_def by (intro exI [of _ "Suc k"] exI [of _ "[]"]) simp
    qed
  next
    case (snoc ys y)
    then have "out = y # rev (replicate k ''..'' @ ys)" using r(1) by (metis append_assoc rev_eq_Cons_iff rev_rev_ident)
    moreover have "y \<noteq> ''..''" using r(2) snoc by (simp add: plain_def)
    ultimately have "rev (clean_step rt out e) = replicate k ''..'' @ ys" using False by (simp add: clean_step_def)
    then show ?thesis using r snoc unfolding normal_def by auto
  qed
qed

lemma foldl_clean_normal:
  "normal rt (rev out) \<Longrightarrow> \<forall>e \<in> set ss. CHR ''/'' \<notin> set e \<Longrightarrow> normal rt (rev (foldl (clean_step rt) out ss))"
  by (induction ss arbitrary: out) (simp_all add: clean_step_normal)

lemma elems_normal: "normal (rooted p) (elems p)"
  unfolding elems_def by (rule foldl_clean_normal) (auto simp: normal_def dest: Split_no_sep)

lemma foldl_clean_plain: "list_all plain es \<Longrightarrow> foldl (clean_step rt) out es = rev es @ out"
  by (induction es arbitrary: out) (simp_all add: clean_step_def plain_def)

lemma foldl_clean_up: "foldl (clean_step False) (replicate n ''..'') (replicate k ''..'') = replicate (n + k) ''..''"
proof (induction k arbitrary: n)
  case (Suc k)
  have "clean_step False (replicate n ''..'') ''..'' = replicate (Suc n) ''..''" by (cases n) (simp_all add: clean_step_def)
  with Suc [of "Suc n"] show ?case by simp
qed simp

lemma foldl_clean_id: "normal rt es \<Longrightarrow> foldl (clean_step rt) [] es = rev es"
proof -
  assume "normal rt es"
  then obtain k rest where r: "es = replicate k ''..'' @ rest" "list_all plain rest" "rt \<longrightarrow> k = 0" by (auto simp: normal_def)
  have "foldl (clean_step rt) [] (replicate k ''..'') = replicate k ''..''"
    using foldl_clean_up [of 0 k] r(3) by (cases rt) simp_all
  then show ?thesis using r(1,2) by (simp add: foldl_clean_plain)
qed

lemma normal_no_slash: "normal rt es \<Longrightarrow> e \<in> set es \<Longrightarrow> CHR ''/'' \<notin> set e \<and> e \<noteq> []"
proof -
  assume "normal rt es" "e \<in> set es"
  then obtain k rest where "e \<in> set (replicate k ''..'' @ rest)" "list_all plain rest" unfolding normal_def by blast
  then have "e = ''..'' \<or> plain e" by (auto simp: list_all_iff dest: in_set_replicate [THEN iffD1])
  then show ?thesis by (auto simp: plain_def)
qed

lemma Split_sep: "Split c (a @ c # b) = Split c a @ Split c b"
proof (induction a)
  case (Cons x a)
  obtain w ws where "Split c a = w # ws" by (meson neq_Nil_conv Split_not_Nil)
  with Cons show ?case by simp
qed simp

text \<open>Cleaning is the identity on the elements: parsing what it writes gives them back.\<close>

lemma Join_slash_hd: "es \<noteq> [] \<Longrightarrow> hd es \<noteq> [] \<Longrightarrow> Join es ''/'' \<noteq> [] \<and> hd (Join es ''/'') = hd (hd es)"
  by (cases es; cases "tl es") auto

lemma elems_unparse:
  assumes "normal rt es"
  shows "elems (unparse rt es) = es" and "rooted (unparse rt es) = rt"
proof -
  have n: "\<forall>e \<in> set es. CHR ''/'' \<notin> set e" "es \<noteq> [] \<Longrightarrow> hd es \<noteq> [] \<and> hd (hd es) \<noteq> CHR ''/''"
    using normal_no_slash [OF assms] by auto (metis hd_in_set)
  show r: "rooted (unparse rt es) = rt"
    using n(2) Join_slash_hd [of es] by (cases "es = []"; cases "Join es ''/''") (auto simp: unparse_def rooted_def Let_def)
  show "elems (unparse rt es) = es"
  proof (cases "es = []")
    case True
    then show ?thesis using r by (auto simp: elems_def unparse_def clean_step_def)
  next
    case False
    then have "Split CHR ''/'' (Join es ''/'') = es" using n(1) by (intro Split_Join) auto
    moreover have "unparse rt es = (if rt then ''/'' else []) @ Join es ''/''" using False n(2) Join_slash_hd [of es] by (simp add: unparse_def)
    ultimately have "foldl (clean_step rt) [] (Split CHR ''/'' (unparse rt es)) = foldl (clean_step rt) [] es"
      by (simp add: clean_step_def)
    then show ?thesis unfolding elems_def r using foldl_clean_id [OF assms] by simp
  qed
qed

lemma elems_Clean [simp]: "elems (Clean p) = elems p" "rooted (Clean p) = rooted p"
  using elems_unparse [OF elems_normal [of p]] by (simp_all add: Clean_def)

lemma elems_append:
  assumes "a \<noteq> []" and "list_all plain (Split CHR ''/'' b)"
  shows "elems (a @ CHR ''/'' # b) = elems a @ Split CHR ''/'' b" and "rooted (a @ CHR ''/'' # b) = rooted a"
proof -
  show r: "rooted (a @ CHR ''/'' # b) = rooted a" using assms(1) by (cases a) (auto simp: rooted_def)
  show "elems (a @ CHR ''/'' # b) = elems a @ Split CHR ''/'' b"
    unfolding elems_def r by (simp add: Split_sep foldl_clean_plain [OF assms(2)])
qed

lemma Clean_not_Nil [simp]: "Clean p \<noteq> []"
  by (simp add: Clean_def unparse_def Let_def)

lemma JoinPath_two:
  assumes "a \<noteq> []" and "list_all plain (Split CHR ''/'' b)"
  shows "JoinPath [a, b] = unparse (rooted a) (elems a @ Split CHR ''/'' b)"
  using assms elems_append [OF assms] by (simp add: JoinPath_def Clean_def)

lemma normal_elem: "normal rt es \<Longrightarrow> e \<in> set es \<Longrightarrow> e = ''..'' \<or> plain e"
proof -
  assume "normal rt es" "e \<in> set es"
  then obtain k rest where "e \<in> set (replicate k ''..'' @ rest)" "list_all plain rest" unfolding normal_def by blast
  then show ?thesis by (auto simp: list_all_iff dest: in_set_replicate [THEN iffD1])
qed

lemma Clean_idem [simp]: "Clean (Clean p) = Clean p"
  using elems_Clean [of p] by (simp only: Clean_def)

lemma last_Split_Clean: "elems p \<noteq> [] \<Longrightarrow> plain (last (elems p)) \<Longrightarrow> plain (last (Split CHR ''/'' (Clean p)))"
proof -
  assume a: "elems p \<noteq> []" "plain (last (elems p))"
  have "Split CHR ''/'' (Join (elems p) ''/'') = elems p"
    using a(1) normal_no_slash [OF elems_normal [of p]] by (intro Split_Join) auto
  moreover have "Join (elems p) ''/'' \<noteq> []" using a(1) normal_no_slash [OF elems_normal [of p]] Join_slash_hd [of "elems p"] by auto
  ultimately show ?thesis using a by (simp add: Clean_def unparse_def)
qed

text \<open>Directory and base name of a file's path put it together again.\<close>

lemma Join_Dir_Base:
  assumes "plain (last (Split CHR ''/'' p))"
  shows "JoinPath [Dir p, Base p] = Clean p"
proof -
  let ?b = "last (Split CHR ''/'' p)"
  have b: "CHR ''/'' \<notin> set ?b" "?b \<noteq> []" using assms by (simp_all add: plain_def)
  have sb: "Split CHR ''/'' ?b = [?b]" using b(1) by (rule Split_id)
  have "elems (Dir p) @ [?b] = elems p \<and> rooted (Dir p) = rooted p \<and> Base p = ?b"
  proof (cases "CHR ''/'' \<in> set p")
    case False
    then have sp: "Split CHR ''/'' p = [p]" by (rule Split_id)
    have l: "LastIndexByte p CHR ''/'' = None" using False by (simp only: LastIndexByte_None not_False_eq_True)
    have "dropWhile (\<lambda>c. c = CHR ''/'') (rev p) = rev p"
      using False by (intro dropWhile_eq_self_iff [THEN iffD2]) (metis hd_in_set set_rev)
    then have "Base p = (case LastIndexByte p CHR ''/'' of None \<Rightarrow> p | Some i \<Rightarrow> drop (Suc i) p)"
      using b(2) sp by (simp add: Base_def)
    then have "Base p = p" unfolding l by simp
    moreover have "Dir p = Clean []" unfolding Dir_def l by simp
    moreover have "\<not> rooted p" using False by (cases p) (auto simp: rooted_def)
    moreover have "elems [] = []" "\<not> rooted []" by (simp_all add: elems_def rooted_def clean_step_def)
    moreover have "elems p = [p]" using sp assms by (auto simp: elems_def clean_step_def plain_def)
    ultimately show ?thesis using sp by simp
  next
    case True
    then obtain a c where p: "p = a @ CHR ''/'' # c" "CHR ''/'' \<notin> set c" by (meson split_list_last)
    have sp: "Split CHR ''/'' p = Split CHR ''/'' a @ [c]" using p by (simp add: Split_sep Split_id)
    then have c: "?b = c" by simp
    have "LastIndexByte p CHR ''/'' = Some (length a)" using p by (simp add: LastIndexByte_append)
    then have d: "Dir p = Clean (a @ ''/'')" "drop (Suc (length a)) p = c" using p by (simp_all add: Dir_def)
    have "dropWhile (\<lambda>c. c = CHR ''/'') (rev p) = rev p"
      using p b(2) c by (cases c rule: rev_cases) auto
    then have "Base p = c" using d(2) \<open>LastIndexByte p CHR ''/'' = Some (length a)\<close> p(1) by (simp add: Base_def)
    moreover have "rooted (a @ ''/'') = rooted p" using p(1) by (cases a) (auto simp: rooted_def)
    moreover have "elems (a @ ''/'') @ [c] = elems p"
      unfolding elems_def \<open>rooted (a @ ''/'') = rooted p\<close> sp using Split_sep [of "CHR ''/''" a "[]"] assms c
      by (simp add: clean_step_def plain_def)
    ultimately show ?thesis using c d(1) by simp
  qed
  moreover have "Dir p \<noteq> []" by (simp add: Dir_def)
  ultimately show ?thesis using JoinPath_two [of "Dir p" ?b] assms by (simp add: sb Clean_def)
qed

lemma drop_common_take: "take (length bs) ts = bs \<Longrightarrow> drop_common bs ts = ([], drop (length bs) ts)"
proof (induction bs arbitrary: ts)
  case (Cons b bs) then show ?case by (cases ts) auto
qed (simp add: drop_common.simps)

lemma Rel_below:
  assumes "below p q" and "p \<noteq> []"
  shows "\<exists>r. Rel p q = Inr r \<and> JoinPath [p, r] = Clean q \<and> plain (last (elems q)) \<and> elems q \<noteq> []"
proof -
  let ?rest = "drop (length (elems p)) (elems q)"
  have b: "rooted p = rooted q" "length (elems p) < length (elems q)" "take (length (elems p)) (elems q) = elems p" "''..'' \<notin> set ?rest"
    using assms(1) by (auto simp: below_def)
  have e: "elems p @ ?rest = elems q" using b(3) by (metis append_take_drop_id)
  have pl: "list_all plain ?rest"
    using normal_elem [OF elems_normal [of q]] b(4) by (auto simp: list_all_iff dest: in_set_dropD)
  have ne: "?rest \<noteq> []" using b(2) by simp
  have "Clean p \<noteq> Clean q" using b(2) elems_Clean(1) by (metis less_irrefl)
  then have "Rel p q = Inr (Join ?rest ''/'')" using b(1) by (simp add: Rel_def drop_common_take [OF b(3)])
  moreover have s: "Split CHR ''/'' (Join ?rest ''/'') = ?rest" using pl ne by (intro Split_Join) (auto simp: list_all_iff plain_def)
  have "JoinPath [p, Join ?rest ''/''] = Clean q"
    using JoinPath_two [OF assms(2), of "Join ?rest ''/''"] pl by (simp add: s e b(1) Clean_def)
  moreover have "plain (last (elems q))" using pl ne e by (metis last_appendR last_in_set list_all_iff)
  ultimately show ?thesis using ne by auto
qed

subsection \<open>What is found\<close>

text \<open>The files of the disk have clean names and are no directories.\<close>

definition disk_ok :: "fsys \<Rightarrow> bool" where
  "disk_ok fs \<longleftrightarrow> (\<forall>q \<in> fst ` set (fs_files fs). Clean q = q \<and> q \<notin> set (fs_dirs fs))"

definition reachable_file :: "fsys \<Rightarrow> string list \<Rightarrow> string \<Rightarrow> bool" where
  "reachable_file fs dirs f \<longleftrightarrow> (\<exists>d \<in> set dirs. Stat (JoinPath [d, f]) fs = Inr False)"

definition found_ok :: "fsys \<Rightarrow> found \<Rightarrow> bool" where
  "found_ok fs fo \<longleftrightarrow> distinct (fo_files fo) \<and> (\<forall>f \<in> set (fo_files fo). reachable_file fs (fo_dirs fo) f)"

lemma set_add_new [simp]: "set (add_new xs x) = insert x (set xs)" "distinct (add_new xs x) = distinct xs"
  by (auto simp: add_new_def)

lemma set_add_news: "set xs \<subseteq> set (foldl add_new xs ys)"
proof (induction ys arbitrary: xs)
  case (Cons y ys) then show ?case using Cons [of "add_new xs y"] by auto
qed simp

lemma reachable_mono: "set ds \<subseteq> set es \<Longrightarrow> reachable_file fs ds f \<Longrightarrow> reachable_file fs es f"
  by (auto simp: reachable_file_def)

lemma walk_ok:
  assumes "disk_ok fs" and "p \<noteq> []" and "p \<in> set dirs" and "set ws \<subseteq> set (WalkDir p fs)"
    and "distinct files" and "\<forall>f \<in> set files. reachable_file fs dirs f"
  shows "distinct (fold (walk_step p) ws files) \<and> (\<forall>f \<in> set (fold (walk_step p) ws files). reachable_file fs dirs f)"
  using assms(4-6)
proof (induction ws arbitrary: files)
  case (Cons w ws)
  obtain q isdir where w: "w = (q, isdir)" by fastforce
  have "distinct (walk_step p w files) \<and> (\<forall>f \<in> set (walk_step p w files). reachable_file fs dirs f)"
  proof (cases "\<not> isdir \<and> HasSuffix q ''.proto''")
    case True
    with Cons(2) w have "below p q" "q \<in> fst ` set (fs_files fs)" by (auto simp: WalkDir_def)
    then obtain r where r: "Rel p q = Inr r" "JoinPath [p, r] = q" "plain (last (elems q))" "elems q \<noteq> []" "Clean q = q" "q \<notin> set (fs_dirs fs)"
      using Rel_below [OF _ assms(2)] assms(1) unfolding disk_ok_def by metis
    have "map_of (fs_files fs) q \<noteq> None" using \<open>q \<in> fst ` set (fs_files fs)\<close> by (simp add: map_of_eq_None_iff)
    then have "Stat q fs = Inr False" using r last_Split_Clean [of q] by (auto simp: Stat_def)
    then have "reachable_file fs dirs r" using r(2) assms(3) by (auto simp: reachable_file_def)
    with True Cons(3,4) w r(1) show ?thesis by (simp add: walk_step_def)
  next
    case False
    with Cons(3,4) w show ?thesis by (auto simp: walk_step_def)
  qed
  from Cons(1) [OF _ this [THEN conjunct1] this [THEN conjunct2]] Cons(2) show ?case by simp
qed simp

lemma add_path_ok:
  assumes "disk_ok fs" and "found_ok fs fo"
  shows "found_ok fs (add_path E fs p fo)"
proof (cases "Stat p fs")
  case (Inl e) then show ?thesis using assms(2) by (simp add: add_path_def found_ok_def)
next
  case (Inr isdir)
  have d: "distinct (fo_files fo)" and r: "\<forall>f \<in> set (fo_files fo). reachable_file fs dirs f" if "set (fo_dirs fo) \<subseteq> set dirs" for dirs
    using assms(2) reachable_mono [OF that] by (auto simp: found_ok_def)
  show ?thesis
  proof (cases isdir)
    case True
    have ne: "p \<noteq> []" using Inr True by (auto simp: Stat_def split: if_splits)
    let ?dirs = "add_new (fo_dirs fo) p"
    have sub: "set (fo_dirs fo) \<subseteq> set ?dirs" by auto
    have ok: "distinct (fold (walk_step p) (WalkDir p fs) (fo_files fo)) \<and>
        (\<forall>f \<in> set (fold (walk_step p) (WalkDir p fs) (fo_files fo)). reachable_file fs ?dirs f)"
      by (rule walk_ok [OF assms(1) ne _ subset_refl d [OF sub] r [OF sub]]) simp
    have "found_ok fs (add_directory E fs p fo)"
      using ok reachable_mono [OF set_add_news]
      by (cases "resolveBufCache E p fs") (auto simp: add_directory_def found_ok_def Let_def)
    then show ?thesis using Inr True by (simp add: add_path_def)
  next
    case False
    with Inr have s: "Stat p fs = Inr False" by simp
    then have p: "plain (last (Split CHR ''/'' p))" "map_of (fs_files fs) (Clean p) \<noteq> None"
      by (auto simp: Stat_def split: if_splits)
    have c: "JoinPath [Dir p, Base p] = Clean p" by (rule Join_Dir_Base [OF p(1)])
    have "Clean p \<notin> set (fs_dirs fs)" using assms(1) p(2) by (auto simp: disk_ok_def map_of_eq_None_iff)
    moreover have "elems p \<noteq> [] \<and> plain (last (elems p))"
    proof -
      obtain ss where "Split CHR ''/'' p = ss @ [last (Split CHR ''/'' p)]" by (metis Split_not_Nil append_butlast_last_id)
      then have "elems p = rev (foldl (clean_step (rooted p)) [] (ss @ [last (Split CHR ''/'' p)]))" by (simp add: elems_def)
      then show ?thesis using p(1) by (simp add: clean_step_def plain_def)
    qed
    ultimately have "Stat (Clean p) fs = Inr False" using p(2) last_Split_Clean [of p] by (simp add: Stat_def)
    then have "reachable_file fs (add_new (fo_dirs fo) (Dir p)) (Base p)" using c by (auto simp: reachable_file_def)
    with d r [of "add_new (fo_dirs fo) (Dir p)"] s show ?thesis by (auto simp: add_path_def found_ok_def)
  qed
qed

text \<open>The files given to the compiler have distinct names, and each one is a file below one of the import
  directories given to it, in whatever order those come.\<close>

theorem proto_files_found:
  assumes "disk_ok fs" and "\<forall>ds. set (pe_order E ds) = set ds"
  shows "distinct (fo_files (resolveProtoPaths E fs paths)) \<and>
    (\<forall>f \<in> set (fo_files (resolveProtoPaths E fs paths)). \<exists>d \<in> set (fo_dirs (resolveProtoPaths E fs paths)).
       Stat (JoinPath [d, f]) fs = Inr False)"
proof -
  have "found_ok fs (fold (add_path E fs) paths fo)" if "found_ok fs fo" for fo
    using that by (induction paths arbitrary: fo) (simp_all add: add_path_ok [OF assms(1)])
  then have "found_ok fs (fold (add_path E fs) paths \<lparr>fo_files = [], fo_dirs = [], fo_errs = []\<rparr>)"
    by (simp add: found_ok_def)
  then show ?thesis using assms(2) by (simp add: resolveProtoPaths_def found_ok_def reachable_file_def Let_def)
qed

text \<open>Two files of the same name, given in different directories, are one file to the compiler: the
  directory in which it finds it first decides, and the directories come in any order of Go's map.\<close>

theorem same_name_is_one_file:
  assumes "Stat p fs = Inr False" and "Stat q fs = Inr False" and "Base p = Base q" and "Dir p \<noteq> Dir q"
  shows "resolveProtoPaths E fs [p, q] = \<lparr>fo_files = [Base p], fo_dirs = pe_order E [Dir p, Dir q], fo_errs = []\<rparr>"
  using assms by (simp add: resolveProtoPaths_def add_path_def add_new_def)

lemma map_of_updates: "map_of (fold (\<lambda>(k, m). AList.update k m) ps al) = map_of al ++ map_of (rev ps)"
  by (induction ps arbitrary: al) (auto simp: update_conv' map_add_def fun_eq_iff split: option.splits)

text \<open>The methods of a compiled file list, by the name under which they are called.\<close>

definition named_methods :: "(string \<times> (string \<times> 'm) list) list list \<Rightarrow> (string \<times> 'm) list" where
  "named_methods compiled = concat (map (\<lambda>(svc, methods). map (\<lambda>(name, m). (svc @ ''/'' @ name, m)) methods) (concat compiled))"

text \<open>C21: The registry made of .proto files knows exactly the methods of the services that the compiler
  returned, the last one of a name; when the compiler rejects one file the registry is empty, the
  methods of all the other files included, and the error is reported.\<close>

theorem registry_lookup:
  assumes "LoadProtoFiles E fs paths incs = (reg, errs)" and "fo_files (resolveProtoPaths E fs paths) \<noteq> []"
  shows "case pe_compile E (fo_files (resolveProtoPaths E fs paths)) (fo_dirs (resolveProtoPaths E fs paths) @ incs) of
      Inl e \<Rightarrow> LookupMethod (Some reg) path = None \<and> ''proto compile: '' @ e \<in> set errs
    | Inr compiled \<Rightarrow> LookupMethod (Some reg) path = (let (svc, mth) = extractGRPCPath path in
        if svc = [] \<or> mth = [] then None else map_of (rev (named_methods compiled)) (svc @ ''/'' @ mth))"
proof (cases "pe_compile E (fo_files (resolveProtoPaths E fs paths)) (fo_dirs (resolveProtoPaths E fs paths) @ incs)")
  case (Inl e)
  with assms show ?thesis by (auto simp: LoadProtoFiles_def Let_def LookupMethod_def HasMethods_def)
next
  case (Inr compiled)
  with assms have r: "reg = registry_of compiled" by (simp add: LoadProtoFiles_def Let_def)
  have m: "map_of reg = map_of (rev (named_methods compiled))"
    unfolding r registry_of_def named_methods_def [symmetric] map_of_updates by simp
  have "map_of (rev (named_methods compiled)) = Map.empty" if "reg = []" using m that by simp
  with Inr m show ?thesis by (auto simp: LookupMethod_def HasMethods_def Let_def split: prod.splits)
qed

text \<open>A disk with two files of one name for examples, and a compiler that gives each file one service.\<close>

definition demo_penv :: "string penv" where
  "demo_penv = \<lparr>pe_getenv = (\<lambda>_. []), pe_goos = ''linux'', pe_home = None, pe_yaml = (\<lambda>_. Inr []),
     pe_compile = (\<lambda>files dirs. if ''bad.proto'' \<in> set files then Inl ''bad.proto:1'' else Inr (map (\<lambda>f. [(''pkg.Svc'', [(''Get'', f)])]) files)),
     pe_order = rev\<rparr>"

definition demo_disk :: fsys where
  "demo_disk = (demo_fs [])\<lparr>fs_files := [(''a/x.proto'', []), (''b/x.proto'', []), (''b/bad.proto'', [])], fs_dirs := [''a'', ''b'']\<rparr>"

lemma demo_paths:
  "Clean ''a/x.proto'' = ''a/x.proto''" "Clean ''b/x.proto'' = ''b/x.proto''" "Clean ''b/bad.proto'' = ''b/bad.proto''" "Clean ''a'' = ''a''"
  "Base ''a/x.proto'' = ''x.proto''" "Base ''b/x.proto'' = ''x.proto''" "Base ''b/bad.proto'' = ''bad.proto''"
  "Dir ''a/x.proto'' = ''a''" "Dir ''b/x.proto'' = ''b''" "Dir ''b/bad.proto'' = ''b''" "plain ''x.proto''" "plain ''bad.proto''"
  by code_simp+

lemma demo_stats:
  "Stat ''a/x.proto'' demo_disk = Inr False" "Stat ''b/x.proto'' demo_disk = Inr False" "Stat ''b/bad.proto'' demo_disk = Inr False"
  using demo_paths(1-3,11,12) by (simp_all add: Stat_def demo_disk_def)

theorem proto_files_found_witness:
  "\<exists>d \<in> {''a'', ''b''}. Stat (JoinPath [d, ''x.proto'']) demo_disk = Inr False"
proof -
  have "disk_ok demo_disk" using demo_paths by (simp add: disk_ok_def demo_disk_def)
  moreover have "\<forall>ds. set (pe_order demo_penv ds) = set ds" by (simp add: demo_penv_def)
  moreover have "resolveProtoPaths demo_penv demo_disk [''a/x.proto''] = \<lparr>fo_files = [''x.proto''], fo_dirs = [''a''], fo_errs = []\<rparr>"
    by (simp add: resolveProtoPaths_def add_path_def demo_stats demo_paths add_new_def demo_penv_def)
  ultimately show ?thesis using proto_files_found [of demo_disk demo_penv "[''a/x.proto'']"] by auto
qed

theorem same_name_is_one_file_witness:
  "resolveProtoPaths demo_penv demo_disk [''a/x.proto'', ''b/x.proto''] = \<lparr>fo_files = [''x.proto''], fo_dirs = [''b'', ''a''], fo_errs = []\<rparr>"
  using same_name_is_one_file [OF demo_stats(1,2), of demo_penv] demo_paths by (simp add: demo_penv_def)

theorem registry_lookup_witness:
  "LookupMethod (Some (fst (LoadProtoFiles demo_penv demo_disk [''a/x.proto''] []))) ''/pkg.Svc/Get'' = Some ''x.proto'' \<and>
   LookupMethod (Some (fst (LoadProtoFiles demo_penv demo_disk [''a/x.proto'', ''b/bad.proto''] []))) ''/pkg.Svc/Get'' = None"
proof -
  have r: "resolveProtoPaths demo_penv demo_disk [''a/x.proto''] = \<lparr>fo_files = [''x.proto''], fo_dirs = [''a''], fo_errs = []\<rparr>"
    "resolveProtoPaths demo_penv demo_disk [''a/x.proto'', ''b/bad.proto''] = \<lparr>fo_files = [''x.proto'', ''bad.proto''], fo_dirs = [''b'', ''a''], fo_errs = []\<rparr>"
    by (simp_all add: resolveProtoPaths_def add_path_def demo_stats demo_paths add_new_def demo_penv_def)
  have c: "pe_compile demo_penv files dirs = (if ''bad.proto'' \<in> set files then Inl ''bad.proto:1''
      else Inr (map (\<lambda>f. [(''pkg.Svc'', [(''Get'', f)])]) files))" for files dirs by (simp add: demo_penv_def)
  have g: "extractGRPCPath ''/pkg.Svc/Get'' = (''pkg.Svc'', ''Get'')" by code_simp
  show ?thesis
    using registry_lookup [of demo_penv demo_disk "[''a/x.proto'']" "[]", OF prod.collapse [symmetric], of "''/pkg.Svc/Get''"]
      registry_lookup [of demo_penv demo_disk "[''a/x.proto'', ''b/bad.proto'']" "[]", OF prod.collapse [symmetric], of "''/pkg.Svc/Get''"]
    by (simp add: r g c named_methods_def)
qed

end
