(* ===== verification/Startup.thy ===== *)
theory Startup
  imports Tui_Run Proxy_Init Flow_Lifecycle System_Proxy Proto_Files
begin

section \<open>Starting the program (cmd/httpmon/main.go)\<close>

text \<open>
  What main does with the flags, the configuration file and the components: it checks the settings,
  builds the store, the engine, the decoders and the proxy, prepares the browse session and the MCP
  server, and hands everything to the terminal UI.  The world is the file system and the rest of the
  operating system; \<open>machine\<close> holds the libraries and the commands.  A run ends with an outcome:
  something printed, \<open>Fatal\<close> (os.Exit, which skips deferred calls), or the running program.
\<close>

record 'o world =
  wo_fs :: fsys
  wo_os :: 'o

record ('o, 'm, 'k) machine =
  ma_unmarshal :: "string \<Rightarrow> Config or_err"
  ma_marshal :: "Config \<Rightarrow> string or_err"
  ma_goja :: goja
  ma_protolib :: "'m protolib"
  ma_penv :: "'m penv"
  ma_calib :: "'k ca_lib"
  ma_now :: int
  ma_newproxy :: "mp_options \<Rightarrow> string option"
  ma_pause :: "BreakpointHit \<Rightarrow> BreakpointResume"
  ma_platform :: "'o world platform"
  ma_trust :: "'o world trust"
  ma_listen :: "string \<Rightarrow> string or_err"
  ma_urlhost :: "string \<Rightarrow> string option"
  ma_print :: "string \<Rightarrow> bool"

text \<open>The flags: those that were set, with their values, and the ones main reads itself.  \<open>ma_urlhost\<close> is the host
  name of an address that parses and has a host, \<open>ma_print\<close> what %q takes as printable.\<close>

record flags =
  fl_visited :: "(string \<times> string) list"
  fl_dataDir :: string
  fl_block :: string
  fl_allow :: string
  fl_version :: bool
  fl_installCA :: bool
  fl_latency :: int
  fl_mcpToken :: bool
  fl_browse :: string
  fl_protoPaths :: "string list"
  fl_protoIncludes :: "string list"

record running =
  ru_cfg :: Config
  ru_proxy :: proxy_setup
  ru_mcp :: "Server option"
  ru_app :: AppConfig
  ru_session :: "saved option"

datatype outcome = VersionShown | TokenShown string | InstalledCA string | Fatal string | Panicked go_panic | Running running

subsection \<open>Settings\<close>

definition splitCSV :: "string \<Rightarrow> string list" where
  "splitCSV s = (if s = [] then [] else filter (\<lambda>p. p \<noteq> []) (map TrimSpace (Split CHR '','' s)))"

definition merged_config :: "flags \<Rightarrow> Config \<Rightarrow> Config" where
  "merged_config fl cfg =
     (let c1 = ApplyFlags cfg (fl_visited fl);
          c2 = (if length (fl_protoPaths fl) > 0 then c1\<lparr>cf_ProtoPaths := cf_ProtoPaths c1 @ fl_protoPaths fl\<rparr> else c1);
          c3 = (if length (fl_protoIncludes fl) > 0 then c2\<lparr>cf_ProtoIncludes := cf_ProtoIncludes c2 @ fl_protoIncludes fl\<rparr> else c2)
      in if list_ex (\<lambda>f. fst f = ''mcp-addr'') (fl_visited fl) then c3\<lparr>cf_MCPEnabled := True\<rparr> else c3)"

definition scripts_dir :: "flags \<Rightarrow> string" where
  "scripts_dir fl = path_join (fl_dataDir fl) ''scripts''"

subsection \<open>Decoders\<close>

definition global_registry :: "'m penv \<Rightarrow> Config \<Rightarrow> fsys \<Rightarrow> 'm ProtoRegistry option" where
  "global_registry E cfg fs = (if length (cf_ProtoPaths cfg) > 0
     then Some (fst (LoadProtoFiles E fs (cf_ProtoPaths cfg) (cf_ProtoIncludes cfg))) else None)"

definition host_registries :: "'m penv \<Rightarrow> Config \<Rightarrow> fsys \<Rightarrow> (string \<times> 'm ProtoRegistry) list" where
  "host_registries E cfg fs = map (\<lambda>(pattern, h). (pattern, fst (LoadProtoFiles E fs (phc_Paths h) (phc_Includes h)))) (cf_ProtoHosts cfg)"

definition build_decoders :: "('o, 'm, 'k) machine \<Rightarrow> Config \<Rightarrow> fsys \<Rightarrow> Registry" where
  "build_decoders M cfg fs =
     (let globalReg = global_registry (ma_penv M) cfg fs;
          hostRegs = host_registries (ma_penv M) cfg fs;
          resolver = (if globalReg \<noteq> None \<or> length hostRegs > 0
            then Some (Resolve (Some \<lparr>har_fallback = globalReg, har_hosts = hostRegs\<rparr>)) else None)
      in [GRPCWebDecoder (ma_protolib M) resolver, RawProtobufDecoder (ma_protolib M) resolver])"

subsection \<open>The proxy\<close>

definition throttle_setting :: "(string \<Rightarrow> bool) \<Rightarrow> flags \<Rightarrow> Config \<Rightarrow> proxy_setup \<Rightarrow> proxy_setup or_err" where
  "throttle_setting is_print fl cfg p =
     (let preset = cf_ThrottlePreset cfg; bps = PresetBandwidth preset;
          lat = (\<lambda>p. if fl_latency fl > 0 then p\<lparr>st_ThrottleLatency := fl_latency fl\<rparr> else p)
      in if preset \<noteq> []
         then (if bps = 0 then Inl (''unknown throttle preset: '' @ Quote is_print preset @ '' (use 3g, 4g, or wifi)'')
               else Inr (lat (p\<lparr>st_ThrottleBPS := bps\<rparr>)))
         else Inr (lat p))"

definition configured :: "flags \<Rightarrow> RingBuffer \<Rightarrow> Engine \<Rightarrow> proxy_setup" where
  "configured fl s engine =
     (let p = (New_Proxy s (fl_dataDir fl))\<lparr>st_Resolver := Some NewResolver, st_ScriptEngine := Some engine,
            st_BreakpointCtrl := Some NewController\<rparr>
      in if fl_block fl \<noteq> [] \<or> fl_allow fl \<noteq> []
         then p\<lparr>st_HostFilter := Some (New_HostFilter (splitCSV (fl_block fl)) (splitCSV (fl_allow fl)))\<rparr> else p)"

definition proxy_addr :: "Config \<Rightarrow> string" where
  "proxy_addr cfg = '':'' @ Itoa (cf_ProxyPort cfg)"

subsection \<open>Browse session and MCP server\<close>

definition start_browse :: "('o, 'm, 'k) machine \<Rightarrow> flags \<Rightarrow> Config \<Rightarrow> string \<Rightarrow> bool \<Rightarrow> 'o world
    \<Rightarrow> (bool \<times> saved option) or_err \<times> 'o world" where
  "start_browse M fl cfg cert trusted w =
     (if fl_browse fl = [] then (Inr (trusted, None), w)
      else (case (if trusted then (None, w) else Install (ma_trust M) cert w) of
          (Some e, w1) \<Rightarrow> (Inl (''install CA for browse: '' @ e), w1)
        | (None, w1) \<Rightarrow> (case System_Proxy.Start (ma_platform M) (cf_ProxyPort cfg) (fl_browse fl) w1 of
            (Inl e, w2) \<Rightarrow> (Inl (''browse: '' @ e), w2)
          | (Inr sess, w2) \<Rightarrow> (Inr (True, Some sess), w2))))"

definition mcp_config :: "proxy_setup \<Rightarrow> Manager \<Rightarrow> fsys \<Rightarrow> mcp_cfg" where
  "mcp_config p mgr fs = \<lparr>mc_Store = st_store p, mc_Proxy = Some (Addr p), mc_Scripts = Some mgr, mc_Throttle = Some (as_proxy p), mc_tmp = fs\<rparr>"

definition start_mcp :: "('o, 'm, 'k) machine \<Rightarrow> flags \<Rightarrow> Config \<Rightarrow> proxy_setup \<Rightarrow> Manager \<Rightarrow> 'o world
    \<Rightarrow> (Config \<times> Server option) or_err \<times> 'o world" where
  "start_mcp M fl cfg p mgr w =
     (if \<not> cf_MCPEnabled cfg then (Inr (cfg, None), w)
      else (case LoadOrCreateToken (ma_marshal M) cfg (fl_dataDir fl) (wo_fs w) of
          (Some e, _, fs1) \<Rightarrow> (Inl (''mcp token: '' @ e), w\<lparr>wo_fs := fs1\<rparr>)
        | (None, cfg1, fs1) \<Rightarrow>
           (case Mcp_Server.Start (ma_listen M) (mcp_config p mgr fs1) (New_Server (cf_MCPAddr cfg1) (cf_MCPToken cfg1)) of
              (Some e, _) \<Rightarrow> (Inl (''mcp server: '' @ e), w\<lparr>wo_fs := fs1\<rparr>)
            | (None, srv) \<Rightarrow> (Inr (cfg1, Some srv), w\<lparr>wo_fs := fs1\<rparr>))))"

subsection \<open>main\<close>

definition app_config :: "('o, 'm, 'k) machine \<Rightarrow> flags \<Rightarrow> proxy_setup \<Rightarrow> bool \<Rightarrow> Manager \<Rightarrow> Server option \<Rightarrow> fsys \<Rightarrow> AppConfig" where
  "app_config M fl p trusted mgr mcp fs = \<lparr>ac_Store = st_store p, ac_Proxy = Some (Addr p), ac_CATrusted = trusted,
     ac_Scripts = Some (mgr\<lparr>m_fs := fs\<rparr>), ac_Throttle = Some (as_proxy p), ac_Breakpoints = st_BreakpointCtrl p, ac_MCP = mcp,
     ac_BodyDecoder = st_DecoderRegistry p, ac_DataDir = fl_dataDir fl, ac_Disk = fs,
     ac_InitialFilter = (if fl_browse fl \<noteq> [] then (case ma_urlhost M (fl_browse fl) of Some h \<Rightarrow> h | None \<Rightarrow> []) else [])\<rparr>"

definition serve_all :: "('o, 'm, 'k) machine \<Rightarrow> flags \<Rightarrow> Config \<Rightarrow> Engine \<Rightarrow> proxy_setup \<Rightarrow> 'o world \<Rightarrow> outcome \<times> 'o world" where
  "serve_all M fl cfg engine p w =
     (case start_browse M fl cfg (CACertPath p) (IsInstalled (ma_trust M) (CACertPath p) w) w of
        (Inl e, w1) \<Rightarrow> (Fatal e, w1)
      | (Inr (trusted, sess), w1) \<Rightarrow>
         (let mgr = \<lparr>m_engine = engine, m_dir = scripts_dir fl, m_fs = wo_fs w1\<rparr> in
          case start_mcp M fl cfg p mgr w1 of
            (Inl e, w2) \<Rightarrow> (Fatal e, w2)
          | (Inr (cfg1, mcp), w2) \<Rightarrow> (Running \<lparr>ru_cfg = cfg1, ru_proxy = p, ru_mcp = mcp,
               ru_app = app_config M fl p trusted mgr mcp (wo_fs w2), ru_session = sess\<rparr>, w2)))"

definition run_proxy :: "('o, 'm, 'k) machine \<Rightarrow> flags \<Rightarrow> Config \<Rightarrow> 'o world \<Rightarrow> outcome \<times> 'o world" where
  "run_proxy M fl cfg w = (case New (cf_BufferSize cfg) of Inl p \<Rightarrow> (Panicked p, w)
     | Inr s \<Rightarrow> (case LoadFromDir (ma_goja M) (scripts_dir fl) (wo_fs w) NewEngine of (engine, fs1) \<Rightarrow>
        (case throttle_setting (ma_print M) fl cfg (configured fl s engine) of Inl e \<Rightarrow> (Fatal e, w\<lparr>wo_fs := fs1\<rparr>)
         | Inr p0 \<Rightarrow>
            (case Init (ma_calib M) (ma_now M) (ma_newproxy M) (ma_pause M) (proxy_addr cfg)
                (p0\<lparr>st_DecoderRegistry := Some (build_decoders M cfg fs1)\<rparr>) fs1 of
               (Some e, _, fs2) \<Rightarrow> (Fatal (''proxy init: '' @ e), w\<lparr>wo_fs := fs2\<rparr>)
             | (None, p, fs2) \<Rightarrow>
                if fl_installCA fl
                then (case Install (ma_trust M) (CACertPath p) (w\<lparr>wo_fs := fs2\<rparr>) of
                    (Some e, w1) \<Rightarrow> (Fatal (''install CA: '' @ e), w1) | (None, w1) \<Rightarrow> (InstalledCA (CACertPath p), w1))
                else serve_all M fl cfg (SetBreakpointController (Some (ma_pause M)) engine) p (w\<lparr>wo_fs := fs2\<rparr>)))))"

definition show_token :: "('o, 'm, 'k) machine \<Rightarrow> flags \<Rightarrow> Config \<Rightarrow> 'o world \<Rightarrow> outcome \<times> 'o world" where
  "show_token M fl cfg w = (case LoadOrCreateToken (ma_marshal M) cfg (fl_dataDir fl) (wo_fs w) of
       (Some e, _, fs1) \<Rightarrow> (Fatal (''mcp token: '' @ e), w\<lparr>wo_fs := fs1\<rparr>)
     | (None, cfg1, fs1) \<Rightarrow> (TokenShown (cf_MCPToken cfg1), w\<lparr>wo_fs := fs1\<rparr>))"

definition main_run :: "('o, 'm, 'k) machine \<Rightarrow> flags \<Rightarrow> 'o world \<Rightarrow> outcome \<times> 'o world" where
  "main_run M fl w =
     (if fl_version fl then (VersionShown, w)
      else (case Load (ma_unmarshal M) (fl_dataDir fl) (wo_fs w) of
          Inl e \<Rightarrow> (Fatal (''config: '' @ e), w)
        | Inr cfg0 \<Rightarrow>
           (let cfg = merged_config fl cfg0 in
            if fl_mcpToken fl then show_token M fl cfg w
            else if cf_ProxyPort cfg < 1 \<or> cf_ProxyPort cfg > 65535 then (Fatal (''invalid port: '' @ Itoa (cf_ProxyPort cfg)), w)
            else if cf_BufferSize cfg < 1 then (Fatal ''buffer-size must be > 0'', w)
            else run_proxy M fl cfg w)))"

text \<open>The end, after the UI returned: the servers are stopped; an error of the UI is fatal, and only without
  one is the browse session stopped.  \<open>None\<close>: stopping the proxy blocks.\<close>

definition finish :: "('o, 'm, 'k) machine \<Rightarrow> running \<Rightarrow> proxy \<Rightarrow> string option \<Rightarrow> 'o world \<Rightarrow> (string option \<times> Server option \<times> 'o world) option" where
  "finish M r p tuiErr w = (case StopProxy p of None \<Rightarrow> None
     | Some _ \<Rightarrow> Some (case tuiErr of
         Some e \<Rightarrow> (Some (''TUI error: '' @ e), map_option Mcp_Server.Stop (ru_mcp r), w)
       | None \<Rightarrow> (None, map_option Mcp_Server.Stop (ru_mcp r), snd (System_Proxy.Stop (ma_platform M) (ru_session r) w))))"

subsection \<open>What a started program has\<close>

text \<open>Port and size in their ranges; an empty store of the configured size, shared by the proxy and the UI;
  the preset's throttle, as the UI reads it; a running MCP server with the token of the
  configuration exactly when it is enabled; a session exactly when an address was to be opened.\<close>

definition well_started :: "flags \<Rightarrow> running \<Rightarrow> bool" where
  "well_started fl r \<longleftrightarrow>
     1 \<le> cf_ProxyPort (ru_cfg r) \<and> cf_ProxyPort (ru_cfg r) \<le> 65535 \<and> 1 \<le> cf_BufferSize (ru_cfg r) \<and>
     New (cf_BufferSize (ru_cfg r)) = Inr (st_store (ru_proxy r)) \<and> ac_Store (ru_app r) = st_store (ru_proxy r) \<and>
     Addr (ru_proxy r) = proxy_addr (ru_cfg r) \<and> ac_Throttle (ru_app r) = Some (as_proxy (ru_proxy r)) \<and>
     GetThrottleBPS (as_proxy (ru_proxy r)) = PresetBandwidth (cf_ThrottlePreset (ru_cfg r)) \<and>
     (cf_ThrottlePreset (ru_cfg r) = [] \<or> 0 < PresetBandwidth (cf_ThrottlePreset (ru_cfg r))) \<and>
     GetThrottleLatency (as_proxy (ru_proxy r)) = max 0 (fl_latency fl) \<and>
     ac_MCP (ru_app r) = ru_mcp r \<and>
     (case ru_mcp r of None \<Rightarrow> \<not> cf_MCPEnabled (ru_cfg r)
      | Some srv \<Rightarrow> cf_MCPEnabled (ru_cfg r) \<and> sv_running srv \<and> sv_token srv = cf_MCPToken (ru_cfg r)) \<and>
     (ru_session r \<noteq> None \<longleftrightarrow> fl_browse fl \<noteq> [])"

lemma main_run_Running:
  assumes "main_run M fl w = (Running r, w1)"
  obtains cfg0 where "Load (ma_unmarshal M) (fl_dataDir fl) (wo_fs w) = Inr cfg0"
    and "1 \<le> cf_ProxyPort (merged_config fl cfg0)" "cf_ProxyPort (merged_config fl cfg0) \<le> 65535" "1 \<le> cf_BufferSize (merged_config fl cfg0)"
    and "run_proxy M fl (merged_config fl cfg0) w = (Running r, w1)"
proof -
  obtain cfg0 where l: "Load (ma_unmarshal M) (fl_dataDir fl) (wo_fs w) = Inr cfg0" and v: "\<not> fl_version fl"
    using assms by (auto simp: main_run_def split: if_splits sum.splits)
  have "fst (show_token M fl c w) \<noteq> Running r" for c by (auto simp: show_token_def split: prod.splits option.splits)
  with assms l v have "\<not> fl_mcpToken fl" by (auto simp: main_run_def Let_def) (metis fst_conv)
  with assms l v that [OF l] show thesis by (auto simp: main_run_def Let_def split: if_splits)
qed

lemma run_proxy_Running:
  assumes "run_proxy M fl cfg w = (Running r, w1)"
  obtains s engine p0 p fs1 fs2 where "New (cf_BufferSize cfg) = Inr s" and "throttle_setting (ma_print M) fl cfg (configured fl s engine) = Inr p0"
    and "Init (ma_calib M) (ma_now M) (ma_newproxy M) (ma_pause M) (proxy_addr cfg)
      (p0\<lparr>st_DecoderRegistry := Some (build_decoders M cfg fs1)\<rparr>) fs1 = (None, p, fs2)"
    and "serve_all M fl cfg (SetBreakpointController (Some (ma_pause M)) engine) p (w\<lparr>wo_fs := fs2\<rparr>) = (Running r, w1)"
proof -
  obtain s where s: "New (cf_BufferSize cfg) = Inr s"
    using assms by (auto simp: run_proxy_def split: sum.splits)
  obtain engine fs1 where e: "LoadFromDir (ma_goja M) (scripts_dir fl) (wo_fs w) NewEngine = (engine, fs1)" by fastforce
  obtain p0 where t: "throttle_setting (ma_print M) fl cfg (configured fl s engine) = Inr p0"
    using assms s e by (auto simp: run_proxy_def split: sum.splits)
  obtain i p fs2 where n: "Init (ma_calib M) (ma_now M) (ma_newproxy M) (ma_pause M) (proxy_addr cfg)
      (p0\<lparr>st_DecoderRegistry := Some (build_decoders M cfg fs1)\<rparr>) fs1 = (i, p, fs2)" by (metis prod.exhaust)
  show thesis
  proof (rule that [OF s t])
    from assms s e t n have "i = None" by (cases i) (auto simp: run_proxy_def)
    with n show "Init (ma_calib M) (ma_now M) (ma_newproxy M) (ma_pause M) (proxy_addr cfg)
      (p0\<lparr>st_DecoderRegistry := Some (build_decoders M cfg fs1)\<rparr>) fs1 = (None, p, fs2)" by simp
    with assms s e t have "\<not> fl_installCA fl" by (auto simp: run_proxy_def split: prod.splits option.splits if_splits)
    with assms s e t n \<open>i = None\<close>
    show "serve_all M fl cfg (SetBreakpointController (Some (ma_pause M)) engine) p (w\<lparr>wo_fs := fs2\<rparr>) = (Running r, w1)"
      by (simp add: run_proxy_def)
  qed
qed

lemma token_only: "LoadOrCreateToken m cfg d fs = (e, cfg1, fs1) \<Longrightarrow> cfg1 = cfg\<lparr>cf_MCPToken := cf_MCPToken cfg1\<rparr>"
  by (auto simp: LoadOrCreateToken_def Let_def split: prod.splits if_splits)

lemma start_mcp_Inr:
  assumes "start_mcp M fl cfg p mgr w = (Inr (cfg1, mcp), w1)"
  shows "cfg1 = cfg\<lparr>cf_MCPToken := cf_MCPToken cfg1\<rparr>"
    and "case mcp of None \<Rightarrow> \<not> cf_MCPEnabled cfg | Some srv \<Rightarrow> cf_MCPEnabled cfg \<and> sv_running srv \<and> sv_token srv = cf_MCPToken cfg1"
proof -
  show "cfg1 = cfg\<lparr>cf_MCPToken := cf_MCPToken cfg1\<rparr>"
    using assms by (auto simp: start_mcp_def split: if_splits prod.splits option.splits dest: token_only)
  have "sv_running srv \<and> sv_token srv = tok" if "Mcp_Server.Start l c (New_Server a tok) = (None, srv)" for l c a tok srv
    using that by (auto simp: Mcp_Server.Start_def New_Server_def split: if_splits sum.splits)
  with assms show "case mcp of None \<Rightarrow> \<not> cf_MCPEnabled cfg | Some srv \<Rightarrow> cf_MCPEnabled cfg \<and> sv_running srv \<and> sv_token srv = cf_MCPToken cfg1"
    by (auto simp: start_mcp_def split: if_splits prod.splits option.splits)
qed

lemma serve_all_Running:
  assumes "serve_all M fl cfg engine p w = (Running r, w1)"
  shows "ru_proxy r = p \<and> (ru_session r \<noteq> None \<longleftrightarrow> fl_browse fl \<noteq> []) \<and> ru_cfg r = cfg\<lparr>cf_MCPToken := cf_MCPToken (ru_cfg r)\<rparr> \<and>
    (case ru_mcp r of None \<Rightarrow> \<not> cf_MCPEnabled cfg | Some srv \<Rightarrow> cf_MCPEnabled cfg \<and> sv_running srv \<and> sv_token srv = cf_MCPToken (ru_cfg r)) \<and>
    (\<exists>tr mgr fs. ru_app r = app_config M fl p tr mgr (ru_mcp r) fs)"
proof -
  obtain b w2 where b: "start_browse M fl cfg (CACertPath p) (IsInstalled (ma_trust M) (CACertPath p) w) w = (b, w2)" by fastforce
  with assms obtain tr sess where bi: "b = Inr (tr, sess)" by (cases b) (auto simp: serve_all_def)
  have s: "sess \<noteq> None \<longleftrightarrow> fl_browse fl \<noteq> []"
    using b bi by (auto simp: start_browse_def split: if_splits prod.splits option.splits sum.splits)
  obtain m w3 where m: "start_mcp M fl cfg p \<lparr>m_engine = engine, m_dir = scripts_dir fl, m_fs = wo_fs w2\<rparr> w2 = (m, w3)" by fastforce
  with assms b bi obtain cfg1 mcp where mi: "m = Inr (cfg1, mcp)" by (cases m) (auto simp: serve_all_def)
  from assms b bi m mi have r: "r = \<lparr>ru_cfg = cfg1, ru_proxy = p, ru_mcp = mcp,
      ru_app = app_config M fl p tr \<lparr>m_engine = engine, m_dir = scripts_dir fl, m_fs = wo_fs w2\<rparr> mcp (wo_fs w3), ru_session = sess\<rparr>"
    by (auto simp: serve_all_def)
  have "\<exists>tr mgr fs. ru_app r = app_config M fl p tr mgr (ru_mcp r) fs"
    unfolding r running.simps by (intro exI, rule refl)
  with start_mcp_Inr [OF m [unfolded mi]] s show ?thesis by (simp add: r split: option.splits)
qed

lemma throttle_setting_Inr:
  assumes "throttle_setting is_print fl cfg p = Inr p0"
  shows "p0 = p\<lparr>st_ThrottleBPS := st_ThrottleBPS p0, st_ThrottleLatency := st_ThrottleLatency p0\<rparr>"
    and "st_ThrottleBPS p0 = (if cf_ThrottlePreset cfg = [] then st_ThrottleBPS p else PresetBandwidth (cf_ThrottlePreset cfg))"
    and "cf_ThrottlePreset cfg = [] \<or> PresetBandwidth (cf_ThrottlePreset cfg) \<noteq> 0"
    and "st_ThrottleLatency p0 = (if 0 < fl_latency fl then fl_latency fl else st_ThrottleLatency p)"
  using assms by (auto simp: throttle_setting_def Let_def split: if_splits)

lemma configured_fields [simp]:
  "st_store (configured fl s engine) = s" "st_ThrottleBPS (configured fl s engine) = 0" "st_ThrottleLatency (configured fl s engine) = 0"
  "st_BreakpointCtrl (configured fl s engine) = Some NewController" "st_caDir (configured fl s engine) = fl_dataDir fl"
  by (simp_all add: configured_def New_Proxy_def Let_def)

lemma PresetBandwidth_facts [simp]: "PresetBandwidth [] = 0" "0 \<le> PresetBandwidth name"
  by (simp_all add: PresetBandwidth_def ToLower_def Let_def)

text \<open>C12: Whatever the flags, the configuration file and the libraries, a program that gets to its terminal
  UI is well formed, and the UI it starts satisfies the invariant under which it never panics.\<close>

theorem started_is_sane:
  assumes "main_run M fl w = (Running r, w1)"
  shows "well_started fl r \<and> ui_ok (NewApp U (ru_app r))"
proof -
  obtain cfg0 where c: "1 \<le> cf_ProxyPort (merged_config fl cfg0)" "cf_ProxyPort (merged_config fl cfg0) \<le> 65535" "1 \<le> cf_BufferSize (merged_config fl cfg0)"
    and rp: "run_proxy M fl (merged_config fl cfg0) w = (Running r, w1)"
    using main_run_Running [OF assms] by metis
  let ?cfg = "merged_config fl cfg0"
  obtain s engine p0 p fs1 fs2 where s: "New (cf_BufferSize ?cfg) = Inr s"
    and t: "throttle_setting (ma_print M) fl ?cfg (configured fl s engine) = Inr p0"
    and i: "Init (ma_calib M) (ma_now M) (ma_newproxy M) (ma_pause M) (proxy_addr ?cfg)
      (p0\<lparr>st_DecoderRegistry := Some (build_decoders M ?cfg fs1)\<rparr>) fs1 = (None, p, fs2)"
    and sv: "serve_all M fl ?cfg (SetBreakpointController (Some (ma_pause M)) engine) p (w\<lparr>wo_fs := fs2\<rparr>) = (Running r, w1)"
    using run_proxy_Running [OF rp] .
  from serve_all_Running [OF sv] obtain tr mgr fs where r: "ru_proxy r = p" "ru_session r \<noteq> None \<longleftrightarrow> fl_browse fl \<noteq> []"
    "ru_cfg r = ?cfg\<lparr>cf_MCPToken := cf_MCPToken (ru_cfg r)\<rparr>" "ru_app r = app_config M fl p tr mgr (ru_mcp r) fs"
    and mcp: "case ru_mcp r of None \<Rightarrow> \<not> cf_MCPEnabled ?cfg | Some srv \<Rightarrow> cf_MCPEnabled ?cfg \<and> sv_running srv \<and> sv_token srv = cf_MCPToken (ru_cfg r)"
    by blast
  have f: "cf_ProxyPort (ru_cfg r) = cf_ProxyPort ?cfg" "cf_BufferSize (ru_cfg r) = cf_BufferSize ?cfg"
    "cf_MCPEnabled (ru_cfg r) = cf_MCPEnabled ?cfg" "cf_ThrottlePreset (ru_cfg r) = cf_ThrottlePreset ?cfg"
    by (subst r(3), simp)+
  note t = throttle_setting_Inr [OF t]
  have k: "st_store p0 = s" "st_BreakpointCtrl p0 = Some NewController" by (subst t(1), simp)+
  have p: "st_store p = st_store p0 \<and> st_BreakpointCtrl p = st_BreakpointCtrl p0 \<and> Addr p = proxy_addr ?cfg \<and>
      GetThrottleBPS (as_proxy p) = st_ThrottleBPS p0 \<and> GetThrottleLatency (as_proxy p) = st_ThrottleLatency p0"
    using Init_None [OF i] by (auto simp: attach_def newInterceptor_def as_proxy_def GetThrottleBPS_def GetThrottleLatency_def
        ThrottleBPS_def ThrottleLatency_def Addr_def Let_def)
  have "0 < PresetBandwidth (cf_ThrottlePreset ?cfg)" if "PresetBandwidth (cf_ThrottlePreset ?cfg) \<noteq> 0"
    using that PresetBandwidth_facts(2) [of "cf_ThrottlePreset ?cfg"] by linarith
  then have "well_started fl r"
    using c s p k t(2-4) r(1,2,4) mcp unfolding well_started_def f
    by (auto simp: app_config_def proxy_addr_def f split: option.splits)
  moreover have "ui_ok (NewApp U (ru_app r))"
    by (rule NewApp_ok) (use p k in \<open>auto simp: r(4) app_config_def ctl_ok_def pend_chans_def NewController_def\<close>)
  ultimately show ?thesis ..
qed

lemma Init_addon:
  assumes "Init L now newProxy pause addr p fs = (None, p1, fs1)"
  shows "\<exists>ic. st_intc p1 = Some ic \<and> ic_store ic = st_store p \<and> ic_hostFilter ic = st_HostFilter p"
    and "st_rule p1 = map_option ShouldIntercept (st_HostFilter p)"
  using Init_None [OF assms] by (auto simp: attach_def newInterceptor_def Let_def)

text \<open>With --block or --allow a started program never stores a flow of an excluded host.\<close>

lemma hosts_blocked_by_flags:
  assumes "main_run M fl w = (Running r, w1)" and "fl_block fl \<noteq> [] \<or> fl_allow fl \<noteq> []"
    and "hf = New_HostFilter (splitCSV (fl_block fl)) (splitCSV (fl_allow fl))" and "list_all (ignores hf fid) evs"
  shows "\<exists>ic. st_intc (ru_proxy r) = Some ic \<and> Get fid (ic_store (run_hooks evs ic)) = Inl (not_found fid) \<and>
    st_rule (ru_proxy r) = Some (ShouldIntercept hf)"
proof -
  obtain cfg where rp: "run_proxy M fl cfg w = (Running r, w1)" using main_run_Running [OF assms(1)] by metis
  obtain s engine p0 p fs1 fs2 where s: "New (cf_BufferSize cfg) = Inr s"
    and t: "throttle_setting (ma_print M) fl cfg (configured fl s engine) = Inr p0"
    and i: "Init (ma_calib M) (ma_now M) (ma_newproxy M) (ma_pause M) (proxy_addr cfg)
      (p0\<lparr>st_DecoderRegistry := Some (build_decoders M cfg fs1)\<rparr>) fs1 = (None, p, fs2)"
    and sv: "serve_all M fl cfg (SetBreakpointController (Some (ma_pause M)) engine) p (w\<lparr>wo_fs := fs2\<rparr>) = (Running r, w1)"
    using run_proxy_Running [OF rp] .
  have "st_HostFilter (configured fl s engine) = Some hf" using assms(2) by (simp add: configured_def assms(3) Let_def)
  then have f: "st_HostFilter p0 = Some hf" "st_store p0 = s" by (subst throttle_setting_Inr(1) [OF t], simp)+
  obtain ic where ic: "st_intc p = Some ic" "ic_store ic = s" "ic_hostFilter ic = Some hf" using Init_addon(1) [OF i] f by auto
  have "rb_index (ic_store ic) fid = None" using s by (auto simp: ic(2) New_def split: if_splits)
  from ignored_stays_out [OF this ic(3) assms(4)] have "Get fid (ic_store (run_hooks evs ic)) = Inl (not_found fid)" by (simp add: Get_def)
  moreover have "ru_proxy r = p" using serve_all_Running [OF sv] by simp
  ultimately show ?thesis using ic(1) Init_addon(2) [OF i] f(1) by simp
qed

subsection \<open>Flags that stay\<close>

text \<open>The same call without the flags that change settings.\<close>

definition plain_flags :: "flags \<Rightarrow> flags" where
  "plain_flags fl = fl\<lparr>fl_visited := [], fl_protoPaths := [], fl_protoIncludes := [], fl_mcpToken := False\<rparr>"

lemma plain_flags_fields [simp]: "fl_version (plain_flags fl) = fl_version fl" "fl_dataDir (plain_flags fl) = fl_dataDir fl"
  "\<not> fl_mcpToken (plain_flags fl)"
  by (simp_all add: plain_flags_def)

lemma merged_plain [simp]: "merged_config (plain_flags fl) cfg = cfg"
  by (simp add: merged_config_def plain_flags_def ApplyFlags_def Let_def)

lemma token_saved:
  assumes "LoadOrCreateToken m cfg d fs = (None, cfg1, fs1)" and "cf_MCPToken cfg = []"
  shows "\<exists>fs0. Save m cfg1 d fs0 = (None, fs1) \<and> fs_read_fault fs0 = fs_read_fault fs"
proof -
  have "fs_read_fault (snd (RemoveFile p fs)) = fs_read_fault fs" for p
    by (auto simp: RemoveFile_def split: option.splits)
  with assms show ?thesis by (auto simp: LoadOrCreateToken_def Let_def split: prod.splits if_splits)
qed


subsection \<open>Endings that leave the system proxy set\<close>

text \<open>Once a browse session is started, an MCP server that cannot start ends the program with the
  proxy settings of the system still pointed to it; so does an error of the UI.  Only an orderly end
  restores them.\<close>

theorem fatal_leaves_system_proxy:
  assumes "networksetup_ok (pf_run (ma_platform M)) view" and "\<forall>svc sec. tidy (view w svc sec)"
    and "0 \<le> cf_ProxyPort cfg \<and> cf_ProxyPort cfg \<le> 65535" and "\<forall>w fs. view (w\<lparr>wo_fs := fs\<rparr>) = view w"
    and "IsInstalled (ma_trust M) (CACertPath p) w" and "fl_browse fl \<noteq> []"
    and "System_Proxy.Start (ma_platform M) (cf_ProxyPort cfg) (fl_browse fl) w = (Inr sess, w1)"
  shows "(\<forall>e w2. start_mcp M fl cfg p \<lparr>m_engine = engine, m_dir = scripts_dir fl, m_fs = wo_fs w1\<rparr> w1 = (Inl e, w2) \<longrightarrow>
      serve_all M fl cfg engine p w = (Fatal e, w2) \<and> (\<forall>sec. view w2 (fst sess) sec = pointed (cf_ProxyPort cfg))) \<and>
    (\<forall>r px e r1. ru_session r = Some sess \<longrightarrow> finish M r px (Some e) w1 = Some r1 \<longrightarrow>
      (\<forall>sec. view (snd (snd r1)) (fst sess) sec = pointed (cf_ProxyPort cfg)))"
proof -
  obtain o1 u where a: "setSystemProxy (ma_platform M) (cf_ProxyPort cfg) w = (Inr sess, o1)" "openURL (ma_platform M) (fl_browse fl) o1 = (u, w1)"
    using assms(7) by (auto simp: System_Proxy.Start_def split: prod.splits sum.splits option.splits)
  have "view w1 = view o1" by (rule openURL_view [OF assms(1) a(2)])
  with setSystemProxy_view [OF assms(1) _ _ assms(2) a(1)] assms(3)
  have v: "view w1 (fst sess) sec = pointed (cf_ProxyPort cfg)" for sec by (auto simp: put_def)
  have "start_browse M fl cfg (CACertPath p) (IsInstalled (ma_trust M) (CACertPath p) w) w = (Inr (True, Some sess), w1)"
    using assms(5-7) by (simp add: start_browse_def)
  moreover have "view w2 = view w1" if "start_mcp M fl cfg p mgr w1 = (Inl e, w2)" for mgr e w2
    using that assms(4) by (auto simp: start_mcp_def split: if_splits prod.splits option.splits)
  ultimately show ?thesis using v by (auto simp: serve_all_def Let_def finish_def split: option.splits)
qed

subsection \<open>A machine for examples\<close>

text \<open>A command of the operating system as one of the world.\<close>

definition on_world :: "'o command \<Rightarrow> 'o world command" where
  "on_world run cmd w = (case run cmd (wo_os w) of (r, os1) \<Rightarrow> (r, w\<lparr>wo_os := os1\<rparr>))"

definition lifted :: "'o world \<Rightarrow> 'a \<times> 'o \<Rightarrow> 'a \<times> 'o world" where
  "lifted w x = (fst x, w\<lparr>wo_os := snd x\<rparr>)"

lemma lifted_pair [simp]: "lifted w (a, os) = (a, w\<lparr>wo_os := os\<rparr>)"
  by (simp add: lifted_def)

lemma on_world_networksetup: "networksetup (on_world run) args w = lifted w (networksetup run args (wo_os w))"
  by (simp add: networksetup_def on_world_def split: prod.splits option.splits)

lemma on_world_state: "getProxyState (on_world run) svc v w = lifted w (getProxyState run svc v (wo_os w))"
  by (simp add: getProxyState_def on_world_def split: prod.splits option.splits)

lemma on_world_service: "activeNetworkService (on_world run) w = lifted w (activeNetworkService run (wo_os w))"
  by (simp add: activeNetworkService_def on_world_def Let_def split: prod.splits option.splits)

lemma on_world_both: "set_both (on_world run) port sv w = lifted w (set_both run port sv (wo_os w))"
proof -
  obtain svc x where sv: "sv = (svc, x)" by (rule prod.exhaust)
  obtain e1 o1 where 1: "networksetup run [''-setwebproxy'', svc, ''127.0.0.1'', Itoa port] (wo_os w) = (e1, o1)" by fastforce
  obtain e2 o2 where "networksetup run [''-setsecurewebproxy'', svc, ''127.0.0.1'', Itoa port] o1 = (e2, o2)" by fastforce
  with 1 show ?thesis by (cases e1; cases e2) (simp_all add: set_both_def on_world_networksetup sv)
qed

lemma on_world_set: "setSystemProxy \<lparr>pf_darwin = d, pf_run = on_world run\<rparr> port w = lifted w (setSystemProxy \<lparr>pf_darwin = d, pf_run = run\<rparr> port (wo_os w))"
proof -
  obtain r1 o1 where 1: "activeNetworkService run (wo_os w) = (r1, o1)" by fastforce
  show ?thesis
  proof (cases r1)
    case (Inr svc)
    obtain r2 o2 where 2: "getProxyState run svc ''getwebproxy'' o1 = (r2, o2)" by fastforce
    obtain r3 o3 where "getProxyState run svc ''getsecurewebproxy'' o2 = (r3, o3)" by fastforce
    with 1 2 Inr show ?thesis
      by (cases r2; cases r3) (simp_all add: setSystemProxy_def on_world_service on_world_state on_world_both lifted_def)
  qed (simp add: setSystemProxy_def on_world_service 1)
qed

lemma on_world_ok: "networksetup_ok run view \<Longrightarrow> networksetup_ok (on_world run) (\<lambda>w. view (wo_os w))"
  by (auto simp: networksetup_ok_def on_world_def split: prod.splits)

definition demo_machine :: "Config \<Rightarrow> (demo_os, string, unit) machine" where
  "demo_machine k = \<lparr>ma_unmarshal = (\<lambda>_. Inr k), ma_marshal = (\<lambda>c. if c = k then Inr ''k'' else Inl ''other''),
     ma_goja = demo_goja (\<lambda>_. LoadNoHandler), ma_protolib = \<lparr>pl_decode = (\<lambda>_ _. Inr), pl_encode = (\<lambda>_ _. Inr), pl_wire = demo_pw, pl_marshal = (\<lambda>_. Inr [])\<rparr>,
     ma_penv = demo_penv, ma_calib = demo_lib, ma_now = 0, ma_newproxy = (\<lambda>_. None), ma_pause = (\<lambda>_. skip_resume),
     ma_platform = \<lparr>pf_darwin = True, pf_run = on_world demo_run\<rparr>,
     ma_trust = \<lparr>tr_goos = ''linux'', tr_exec = (\<lambda>_ _ w. (([], None), w)), tr_stat = (\<lambda>_ _. None), tr_read = (\<lambda>_ _. Inr [])\<rparr>,
     ma_listen = (\<lambda>a. if a = ''busy'' then Inl ''address in use'' else Inr a), ma_urlhost = (\<lambda>_. None), ma_print = (\<lambda>_. True)\<rparr>"

definition demo_flags :: "string \<Rightarrow> flags" where
  "demo_flags block = \<lparr>fl_visited = [(''mcp'', ''true''), (''throttle'', ''3g'')], fl_dataDir = ''d'', fl_block = block, fl_allow = [], fl_version = False,
     fl_installCA = False, fl_latency = 0, fl_mcpToken = False, fl_browse = [], fl_protoPaths = [], fl_protoIncludes = []\<rparr>"

definition demo_world :: "demo_os world" where
  "demo_world = \<lparr>wo_fs = demo_fs [], wo_os = demo_before\<rparr>"

lemma demo_Init:
  assumes "st_caDir p = ''d''"
  shows "\<exists>p1 fs1. Init demo_lib 0 (\<lambda>_. None) pause addr p (demo_fs []) = (None, p1, fs1) \<and> fs_write_fault fs1 = (\<lambda>_. None)"
  using assms by (simp add: Init_def EnsureScriptDir_def WriteFile_def demo_fs_def EnsureCA_def hasCorrectCN_def ReadFile_def
      demo_lib_def log_path_def caPath_def certPath_def cerPath_def path_join_def create_ca_def generateCA_def write_blocks_def ca_template_def Let_def)

lemma token_total:
  assumes "fs_write_fault fs = (\<lambda>_. None)"
  shows "\<exists>cfg1 fs1. LoadOrCreateToken (\<lambda>_. Inr t) cfg d fs = (None, cfg1, fs1)"
  using assms by (auto simp: LoadOrCreateToken_def Let_def Save_def EnsureScriptDir_def WriteFile_def RemoveFile_def split: prod.splits option.splits)

lemma demo_scripts: "LoadFromDir gj ''d/scripts'' (demo_fs []) NewEngine = (NewEngine, demo_fs [])"
  by (simp add: LoadFromDir_def LoadDir_def ReadDir_def demo_fs_def NewEngine_def)

lemma demo_merged: "merged_config (demo_flags block) DefaultConfig = DefaultConfig\<lparr>cf_MCPEnabled := True, cf_ThrottlePreset := ''3g''\<rparr>"
  by (simp add: merged_config_def demo_flags_def ApplyFlags_def apply_flag_def DefaultConfig_def Let_def)

lemma demo_Load: "Load u ''d'' (demo_fs []) = Inr DefaultConfig"
  by (simp add: Load_def ReadFile_def demo_fs_def config_path_def path_join_def Let_def)

lemma demo_running:
  "\<exists>r w1. main_run ((demo_machine DefaultConfig)\<lparr>ma_marshal := \<lambda>_. Inr []\<rparr>) (demo_flags block) demo_world = (Running r, w1)"
proof -
  let ?M = "(demo_machine DefaultConfig)\<lparr>ma_marshal := \<lambda>_. Inr []\<rparr>"
  let ?c = "DefaultConfig\<lparr>cf_MCPEnabled := True, cf_ThrottlePreset := ''3g''\<rparr>"
  obtain s where s: "New (cf_BufferSize ?c) = Inr s" by (simp add: New_def DefaultConfig_def)
  have "PresetBandwidth ''3g'' = 93750" by code_simp
  then obtain p0 where p0: "throttle_setting (ma_print ?M) (demo_flags block) ?c (configured (demo_flags block) s NewEngine) = Inr p0"
    by (simp add: throttle_setting_def Let_def)
  have d: "st_caDir (p0\<lparr>st_DecoderRegistry := reg\<rparr>) = ''d''" for reg
    by (subst throttle_setting_Inr(1) [OF p0]) (simp add: demo_flags_def)
  from demo_Init [OF d] obtain p fs where i: "Init demo_lib 0 (\<lambda>_. None) (\<lambda>_. skip_resume) (proxy_addr ?c)
      (p0\<lparr>st_DecoderRegistry := Some (build_decoders ?M ?c (demo_fs []))\<rparr>) (demo_fs []) = (None, p, fs)"
    and w: "fs_write_fault fs = (\<lambda>_. None)" by blast
  from token_total [OF w] obtain cfg1 fs1 where t: "LoadOrCreateToken (\<lambda>_. Inr []) ?c ''d'' fs = (None, cfg1, fs1)" by blast
  then have a: "cf_MCPAddr cfg1 = ''127.0.0.1:9551''"
    using arg_cong [OF token_only [OF t], of cf_MCPAddr] by (simp add: DefaultConfig_def)
  have "\<exists>r w1. serve_all ?M (demo_flags block) ?c e p (demo_world\<lparr>wo_fs := fs\<rparr>) = (Running r, w1)" for e
    using t a by (simp add: serve_all_def start_browse_def start_mcp_def demo_flags_def demo_machine_def Mcp_Server.Start_def New_Server_def Let_def)
  then obtain r w1 where v: "serve_all ?M (demo_flags block) ?c (SetBreakpointController (Some (ma_pause ?M)) NewEngine) p (demo_world\<lparr>wo_fs := fs\<rparr>) = (Running r, w1)"
    by blast
  have "main_run ?M (demo_flags block) demo_world = run_proxy ?M (demo_flags block) ?c demo_world"
    using demo_Load by (simp add: main_run_def demo_world_def demo_machine_def demo_flags_def demo_merged [unfolded demo_flags_def])
      (simp add: DefaultConfig_def)
  also have "\<dots> = (Running r, w1)"
  proof -
    have "LoadFromDir (ma_goja ?M) (scripts_dir (demo_flags block)) (wo_fs demo_world) NewEngine = (NewEngine, demo_fs [])"
      using demo_scripts by (simp add: scripts_dir_def demo_flags_def demo_world_def path_join_def)
    then show ?thesis using s p0 i v by (simp add: run_proxy_def demo_machine_def) (simp add: demo_flags_def)
  qed
  finally show ?thesis by blast
qed

theorem started_is_sane_witness:
  "\<exists>r w1. main_run ((demo_machine DefaultConfig)\<lparr>ma_marshal := \<lambda>_. Inr []\<rparr>) (demo_flags []) demo_world = (Running r, w1) \<and>
     well_started (demo_flags []) r \<and> ui_ok (NewApp demo_ui (ru_app r))"
  using demo_running [of "[]"] started_is_sane [where U = demo_ui and fl = "demo_flags []"] by blast

definition demo_kept :: Config where
  "demo_kept = DefaultConfig\<lparr>cf_ProxyPort := 70000, cf_MCPToken := hex_encode ''01234567''\<rparr>"


theorem fatal_leaves_system_proxy_witness:
  "let M = demo_machine DefaultConfig; fl = (demo_flags [])\<lparr>fl_browse := ''http://a/''\<rparr>;
       cfg = DefaultConfig\<lparr>cf_MCPEnabled := True, cf_MCPAddr := ''busy'', cf_MCPToken := ''t''\<rparr> in
   \<exists>w2. serve_all M fl cfg NewEngine demo_setup demo_world = (Fatal ''mcp server: listen busy: address in use'', w2) \<and>
     do_view (wo_os w2) ''Wi-Fi'' False = pointed 8080 \<and> do_view (wo_os demo_world) ''Wi-Fi'' False \<noteq> pointed 8080"
proof -
  let ?M = "demo_machine DefaultConfig" and ?fl = "(demo_flags [])\<lparr>fl_browse := ''http://a/''\<rparr>"
    and ?cfg = "DefaultConfig\<lparr>cf_MCPEnabled := True, cf_MCPAddr := ''busy'', cf_MCPToken := ''t''\<rparr>" and ?w1 = "demo_world\<lparr>wo_os := demo_during\<rparr>"
  have port: "cf_ProxyPort DefaultConfig = 8080" by (simp add: DefaultConfig_def)
  have n: "networksetup_ok (pf_run (ma_platform ?M)) (\<lambda>w. do_view (wo_os w))"
    using on_world_ok [OF demo_run_ok] by (simp add: demo_machine_def)
  have t: "\<forall>svc sec. tidy (do_view (wo_os demo_world) svc sec)" by (simp add: demo_world_def demo_tidy)
  have i: "IsInstalled (ma_trust ?M) (CACertPath demo_setup) demo_world" by (simp add: IsInstalled_def demo_machine_def)
  have o: "openURL (ma_platform ?M) url w = (None, w)" for url w by (simp add: openURL_def demo_machine_def on_world_def demo_run_def)
  have "setSystemProxy (ma_platform ?M) 8080 demo_world = lifted demo_world (setSystemProxy demo_mac 8080 demo_before)"
    by (simp add: demo_machine_def on_world_set demo_mac_def demo_world_def)
  then have s: "System_Proxy.Start (ma_platform ?M) (cf_ProxyPort ?cfg) (fl_browse ?fl) demo_world = (Inr demo_saved, ?w1)"
    by (simp add: System_Proxy.Start_def demo_start o port)
  have m: "start_mcp ?M ?fl ?cfg demo_setup mgr ?w1 = (Inl ''mcp server: listen busy: address in use'', ?w1)" for mgr
    by (simp add: start_mcp_def LoadOrCreateToken_def Mcp_Server.Start_def New_Server_def demo_machine_def)
  have "serve_all ?M ?fl ?cfg NewEngine demo_setup demo_world = (Fatal ''mcp server: listen busy: address in use'', ?w1) \<and>
      do_view (wo_os ?w1) ''Wi-Fi'' False = pointed 8080"
    using fatal_leaves_system_proxy [OF n t _ _ i _ s, of NewEngine] m by (simp add: port demo_saved_def)
  moreover have "do_view (wo_os demo_world) ''Wi-Fi'' False \<noteq> pointed 8080" by (simp add: demo_world_def demo_before_def pointed_def)
  ultimately show ?thesis by (auto simp: Let_def)
qed

end
