(* ===== verification/Command_Line.thy ===== *)
theory Command_Line
  imports Startup
begin

section \<open>The command line (cmd/httpmon/main.go)\<close>

text \<open>
  From the arguments of the process to the flags main works with: the flag set that main declares,
  package flag's parser as main uses it (flag.Parse on the default set, which ends the process at
  an error or a request for help, and flag.Visit), and the values of the repeatable flags.
  time.ParseDuration and the text of a duration are parameters (\<open>flag_lib\<close>), as is what %q
  takes as printable.  The second part is the signal handler of a browse session.
\<close>

subsection \<open>Numbers as flags take them\<close>

text \<open>\<open>strconv.ParseInt(s, 0, 64)\<close>: a sign, a prefix for the base, digits with underscores between
  them.  The errors are those of package flag.\<close>

definition err_parse :: string where
  "err_parse = ''parse error''"

definition err_range :: string where
  "err_range = ''value out of range''"

definition digit_value :: "char \<Rightarrow> nat option" where
  "digit_value c = (if is_digit c then Some (byte c - 48)
     else let l = byte (lower_char c) in if 97 \<le> l \<and> l \<le> 122 then Some (l - 87) else None)"

definition number_base :: "string \<Rightarrow> nat \<times> string" where
  "number_base s =
     (if HasPrefix s ''0''
      then (let p = lower_char (s ! 1) in
        if length s \<ge> 3 \<and> p = CHR ''b'' then (2, drop 2 s)
        else if length s \<ge> 3 \<and> p = CHR ''o'' then (8, drop 2 s)
        else if length s \<ge> 3 \<and> p = CHR ''x'' then (16, drop 2 s)
        else (8, drop 1 s))
      else (10, s))"

fun read_digits :: "nat \<Rightarrow> nat \<Rightarrow> string \<Rightarrow> nat or_err" where
  "read_digits base n [] = Inr n"
| "read_digits base n (c # s) =
     (if c = CHR ''_'' then read_digits base n s
      else case digit_value c of None \<Rightarrow> Inl err_parse
        | Some d \<Rightarrow> if d \<ge> base then Inl err_parse
            else if n * base + d \<ge> 2 ^ 64 then Inl err_range
            else read_digits base (n * base + d) s)"

text \<open>\<open>underscoreOK\<close>; \<open>saw\<close> is the kind of the character before: \<open>^\<close> none, \<open>0\<close> a digit or the
  prefix of a base, \<open>_\<close>, or \<open>!\<close> any other.\<close>

fun underscores_ok :: "bool \<Rightarrow> char \<Rightarrow> string \<Rightarrow> bool" where
  "underscores_ok hex saw [] = (saw \<noteq> CHR ''_'')"
| "underscores_ok hex saw (c # s) =
     (if is_digit c \<or> (hex \<and> 97 \<le> byte (lower_char c) \<and> byte (lower_char c) \<le> 102)
      then underscores_ok hex (CHR ''0'') s
      else if c = CHR ''_'' then saw = CHR ''0'' \<and> underscores_ok hex (CHR ''_'') s
      else saw \<noteq> CHR ''_'' \<and> underscores_ok hex (CHR ''!'') s)"

definition underscoreOK :: "string \<Rightarrow> bool" where
  "underscoreOK s =
     (if HasPrefix s ''0'' \<and> length s \<ge> 2 \<and> lower_char (s ! 1) \<in> {CHR ''b'', CHR ''o'', CHR ''x''}
      then underscores_ok (lower_char (s ! 1) = CHR ''x'') (CHR ''0'') (drop 2 s)
      else underscores_ok False (CHR ''^'') s)"

definition parse_uint :: "string \<Rightarrow> nat or_err" where
  "parse_uint s =
     (if s = [] then Inl err_parse
      else case number_base s of (base, ds) \<Rightarrow>
        (case read_digits base 0 ds of Inl e \<Rightarrow> Inl e
         | Inr n \<Rightarrow> if CHR ''_'' \<in> set ds \<and> \<not> underscoreOK s then Inl err_parse else Inr n))"

definition parse_int :: "string \<Rightarrow> int or_err" where
  "parse_int s =
     (let neg = HasPrefix s ''-'';
          t = (if neg \<or> HasPrefix s ''+'' then drop 1 s else s)
      in case parse_uint t of Inl e \<Rightarrow> Inl e
         | Inr n \<Rightarrow> if (if neg then n > 2 ^ 63 else n \<ge> 2 ^ 63) then Inl err_range
             else Inr (if neg then - int n else int n))"

definition ParseBool :: "string \<Rightarrow> bool option" where
  "ParseBool s =
     (if s \<in> {''1'', ''t'', ''T'', ''true'', ''TRUE'', ''True''} then Some True
      else if s \<in> {''0'', ''f'', ''F'', ''false'', ''FALSE'', ''False''} then Some False else None)"

subsection \<open>Values of flags\<close>

record flag_lib =
  fb_duration :: "string \<Rightarrow> int option"
  fb_show :: "int \<Rightarrow> string"
  fb_print :: "string \<Rightarrow> bool"

datatype flag_value = IntFlag int | StringFlag string | BoolFlag bool | DurationFlag int | SliceFlag "string list"

text \<open>The Set and String methods; a SliceFlag is the type \<open>stringSlice\<close> of main.\<close>

definition slice_Set :: "string \<Rightarrow> string list \<Rightarrow> string list" where
  "slice_Set v s = s @ [v]"

definition slice_String :: "string list \<Rightarrow> string" where
  "slice_String s = Join s '',''"

primrec set_value :: "flag_lib \<Rightarrow> string \<Rightarrow> flag_value \<Rightarrow> flag_value or_err" where
  "set_value L v (IntFlag i) = map_sum id IntFlag (parse_int v)"
| "set_value L v (StringFlag s) = Inr (StringFlag v)"
| "set_value L v (BoolFlag b) = (case ParseBool v of None \<Rightarrow> Inl err_parse | Some b1 \<Rightarrow> Inr (BoolFlag b1))"
| "set_value L v (DurationFlag d) = (case fb_duration L v of None \<Rightarrow> Inl err_parse | Some d1 \<Rightarrow> Inr (DurationFlag d1))"
| "set_value L v (SliceFlag s) = Inr (SliceFlag (slice_Set v s))"

primrec value_String :: "flag_lib \<Rightarrow> flag_value \<Rightarrow> string" where
  "value_String L (IntFlag i) = Itoa i"
| "value_String L (StringFlag s) = s"
| "value_String L (BoolFlag b) = (if b then ''true'' else ''false'')"
| "value_String L (DurationFlag d) = fb_show L d"
| "value_String L (SliceFlag s) = slice_String s"

primrec is_bool_flag :: "flag_value \<Rightarrow> bool" where
  "is_bool_flag (IntFlag i) = False"
| "is_bool_flag (StringFlag s) = False"
| "is_bool_flag (BoolFlag b) = True"
| "is_bool_flag (DurationFlag d) = False"
| "is_bool_flag (SliceFlag s) = False"

subsection \<open>Parsing\<close>

text \<open>The flags that are declared, with their values, and the names of those that were set.\<close>

record flag_set =
  fg_formal :: "(string \<times> flag_value) list"
  fg_actual :: "string list"

definition store_flag :: "string \<Rightarrow> flag_value \<Rightarrow> flag_set \<Rightarrow> flag_set" where
  "store_flag name fv fs = fs\<lparr>fg_formal := AList.update name fv (fg_formal fs),
     fg_actual := List.insert name (fg_actual fs)\<rparr>"

datatype flag_step = StopAt "string list" | FlagError string | HelpAsked | Taken flag_set "string list"

definition set_flag :: "flag_lib \<Rightarrow> string \<Rightarrow> flag_value \<Rightarrow> string \<Rightarrow> string list \<Rightarrow> flag_set \<Rightarrow> flag_step" where
  "set_flag L name fv v rest fs = (case set_value L v fv of
     Inr fv1 \<Rightarrow> Taken (store_flag name fv1 fs) rest
   | Inl e \<Rightarrow> FlagError
      (if is_bool_flag fv then ''invalid boolean value '' @ Quote (fb_print L) v @ '' for -'' @ name @ '': '' @ e
       else ''invalid value '' @ Quote (fb_print L) v @ '' for flag -'' @ name @ '': '' @ e))"

definition take_flag :: "flag_lib \<Rightarrow> string \<Rightarrow> string option \<Rightarrow> string list \<Rightarrow> flag_set \<Rightarrow> flag_step" where
  "take_flag L name val rest fs = (case map_of (fg_formal fs) name of
     None \<Rightarrow> if name = ''help'' \<or> name = ''h'' then HelpAsked
       else FlagError (''flag provided but not defined: -'' @ name)
   | Some fv \<Rightarrow>
      (case val of
         Some v \<Rightarrow> set_flag L name fv v rest fs
       | None \<Rightarrow>
          if is_bool_flag fv then set_flag L name fv ''true'' rest fs
          else (case rest of [] \<Rightarrow> FlagError (''flag needs an argument: -'' @ name)
            | v # rest1 \<Rightarrow> set_flag L name fv v rest1 fs)))"

text \<open>The name in an argument, and the value after its equals sign; \<open>None\<close> is bad syntax.\<close>

definition split_flag :: "string \<Rightarrow> (string \<times> string option) option" where
  "split_flag s = (let name = (if s ! 1 = CHR ''-'' then drop 2 s else drop 1 s)
     in if name = [] \<or> hd name = CHR ''-'' \<or> hd name = CHR ''='' then None
        else Some (takeWhile (\<lambda>c. c \<noteq> CHR ''='') name,
          if CHR ''='' \<in> set name then Some (tl (dropWhile (\<lambda>c. c \<noteq> CHR ''='') name)) else None))"

definition parse_one :: "flag_lib \<Rightarrow> flag_set \<Rightarrow> string list \<Rightarrow> flag_step" where
  "parse_one L fs args = (case args of [] \<Rightarrow> StopAt []
     | s # rest \<Rightarrow>
        if length s < 2 \<or> hd s \<noteq> CHR ''-'' then StopAt (s # rest)
        else if s = ''--'' then StopAt rest
        else (case split_flag s of None \<Rightarrow> FlagError (''bad flag syntax: '' @ s)
          | Some (name, val) \<Rightarrow> take_flag L name val rest fs))"

datatype parsed = Parsed flag_set "string list" | Usage int string

lemma set_flag_Taken: "set_flag L name fv v rest fs = Taken fs1 rest1 \<Longrightarrow> rest1 = rest"
  by (auto simp: set_flag_def split: sum.splits)

lemma parse_one_shorter:
  assumes "parse_one L fs args = Taken fs1 rest"
  shows "length rest < length args"
proof -
  have "length r1 \<le> length r" if "take_flag L name val r fs = Taken fs1 r1" for name val r r1
    using that by (auto simp: take_flag_def split: option.splits if_splits list.splits dest!: set_flag_Taken)
  with assms show ?thesis
    by (auto simp: parse_one_def less_Suc_eq_le split: list.splits if_splits option.splits)
qed

text \<open>\<open>flag.Parse\<close>: exit status 2 at an error, 0 when help was asked for.\<close>

function parse_flags :: "flag_lib \<Rightarrow> flag_set \<Rightarrow> string list \<Rightarrow> parsed" where
  "parse_flags L fs args = (case parse_one L fs args of
     StopAt rest \<Rightarrow> Parsed fs rest
   | FlagError e \<Rightarrow> Usage 2 e
   | HelpAsked \<Rightarrow> Usage 0 []
   | Taken fs1 rest \<Rightarrow> parse_flags L fs1 rest)"
  by pat_completeness auto
termination
  by (relation "measure (\<lambda>(L, fs, args). length args)") (auto dest: parse_one_shorter)

declare parse_flags.simps [simp del]

definition Visit :: "flag_lib \<Rightarrow> flag_set \<Rightarrow> (string \<times> string) list" where
  "Visit L fs = map (\<lambda>name. (name, case map_of (fg_formal fs) name of Some fv \<Rightarrow> value_String L fv | None \<Rightarrow> []))
     (sort (fg_actual fs))"

subsection \<open>The flags of main\<close>

definition defaultDataDir :: "string or_err \<Rightarrow> string" where
  "defaultDataDir homeDir = (case homeDir of Inl _ \<Rightarrow> ''.httpmon'' | Inr h \<Rightarrow> path_Clean (path_join h ''.httpmon''))"

definition main_flag_set :: "string or_err \<Rightarrow> flag_set" where
  "main_flag_set homeDir = \<lparr>fg_formal =
     [(''port'', IntFlag 8080), (''data-dir'', StringFlag (defaultDataDir homeDir)), (''buffer-size'', IntFlag 10000),
      (''block'', StringFlag []), (''allow'', StringFlag []), (''version'', BoolFlag False),
      (''install-ca'', BoolFlag False), (''throttle'', StringFlag []), (''latency'', DurationFlag 0),
      (''mcp'', BoolFlag False), (''mcp-addr'', StringFlag []), (''mcp-token'', BoolFlag False),
      (''browse'', StringFlag []), (''proto-path'', SliceFlag []), (''proto-include'', SliceFlag [])],
     fg_actual = []\<rparr>"

definition string_flag :: "flag_set \<Rightarrow> string \<Rightarrow> string" where
  "string_flag fs name = (case map_of (fg_formal fs) name of Some (StringFlag s) \<Rightarrow> s | _ \<Rightarrow> [])"

definition bool_flag :: "flag_set \<Rightarrow> string \<Rightarrow> bool" where
  "bool_flag fs name = (map_of (fg_formal fs) name = Some (BoolFlag True))"

definition slice_flag :: "flag_set \<Rightarrow> string \<Rightarrow> string list" where
  "slice_flag fs name = (case map_of (fg_formal fs) name of Some (SliceFlag s) \<Rightarrow> s | _ \<Rightarrow> [])"

definition duration_flag :: "flag_set \<Rightarrow> string \<Rightarrow> int" where
  "duration_flag fs name = (case map_of (fg_formal fs) name of Some (DurationFlag d) \<Rightarrow> d | _ \<Rightarrow> 0)"

definition main_flags :: "flag_lib \<Rightarrow> flag_set \<Rightarrow> flags" where
  "main_flags L fs = \<lparr>fl_visited = Visit L fs, fl_dataDir = string_flag fs ''data-dir'',
     fl_block = string_flag fs ''block'', fl_allow = string_flag fs ''allow'', fl_version = bool_flag fs ''version'',
     fl_installCA = bool_flag fs ''install-ca'', fl_latency = duration_flag fs ''latency'',
     fl_mcpToken = bool_flag fs ''mcp-token'', fl_browse = string_flag fs ''browse'',
     fl_protoPaths = slice_flag fs ''proto-path'', fl_protoIncludes = slice_flag fs ''proto-include''\<rparr>"

text \<open>main on its arguments; what is left of them is never looked at.\<close>

datatype program = UsageShown int string | Ran outcome

definition main_args :: "flag_lib \<Rightarrow> string or_err \<Rightarrow> ('o, 'm, 'k) machine \<Rightarrow> string list \<Rightarrow> 'o world \<Rightarrow> program \<times> 'o world" where
  "main_args L homeDir M args w = (case parse_flags L (main_flag_set homeDir) args of
     Usage code msg \<Rightarrow> (UsageShown code msg, w)
   | Parsed fs rest \<Rightarrow> (case main_run M (main_flags L fs) w of (out, w1) \<Rightarrow> (Ran out, w1)))"

subsection \<open>Signals\<close>

text \<open>The goroutine that waits for SIGTERM or SIGHUP while a browse session runs: it restores the proxy
  settings and ends the process with status 1.  Without a session there is no handler.\<close>

definition on_browse_signal :: "('o, 'm, 'k) machine \<Rightarrow> running \<Rightarrow> 'o world \<Rightarrow> (int \<times> 'o world) option" where
  "on_browse_signal M r w = (case ru_session r of None \<Rightarrow> None
     | Some sess \<Rightarrow> Some (1, snd (System_Proxy.Stop (ma_platform M) (Some sess) w)))"

text \<open>An interrupt cancels the context of the servers: the proxy stops serving and the MCP server is
  stopped; main goes on until the UI returns.  \<open>None\<close>: stopping the proxy blocks.\<close>

definition on_interrupt :: "running \<Rightarrow> proxy \<Rightarrow> (string option \<times> running \<times> proxy) option" where
  "on_interrupt r p = (case Serve (CtxDone ''context canceled'') p of None \<Rightarrow> None
     | Some (err, p1) \<Rightarrow> Some (err, r\<lparr>ru_mcp := map_option Mcp_Server.Stop (ru_mcp r)\<rparr>, p1))"

subsection \<open>How arguments are consumed\<close>

lemma set_flag_append:
  "set_flag L name fv v rest fs = Taken fs1 r \<Longrightarrow> set_flag L name fv v (rest @ xs) fs = Taken fs1 (r @ xs)"
  by (auto simp: set_flag_def split: sum.splits)

lemma take_flag_append:
  assumes "take_flag L name val rest fs = Taken fs1 r"
  shows "take_flag L name val (rest @ xs) fs = Taken fs1 (r @ xs)"
proof (cases "map_of (fg_formal fs) name")
  case (Some fv)
  show ?thesis
  proof (cases val)
    case None
    with Some assms set_flag_append [of L name fv "''true''" rest fs fs1 r xs] show ?thesis
      by (cases "is_bool_flag fv"; cases rest) (simp_all add: take_flag_def set_flag_append)
  qed (use Some assms in \<open>simp add: take_flag_def set_flag_append\<close>)
qed (use assms in \<open>auto simp: take_flag_def split: if_splits\<close>)

lemma set_flag_not_stop [simp]: "set_flag L name fv v rest fs \<noteq> StopAt r"
  by (simp add: set_flag_def split: sum.split)

lemma take_flag_not_stop [simp]: "take_flag L name val rest fs \<noteq> StopAt r"
  by (simp add: take_flag_def split: option.split list.split)

lemma parse_one_Cons:
  "parse_one L fs (s # rest) = StopAt (s # rest) \<or> (s = ''--'' \<and> parse_one L fs (s # rest) = StopAt rest) \<or>
   (\<exists>e. \<forall>r. parse_one L fs (s # r) = FlagError e) \<or>
   (\<exists>name val. \<forall>r. parse_one L fs (s # r) = take_flag L name val r fs)"
  by (auto simp: parse_one_def split: option.split)

lemma parse_one_append:
  assumes "parse_one L fs args = Taken fs1 r"
  shows "parse_one L fs (args @ xs) = Taken fs1 (r @ xs)"
proof (cases args)
  case (Cons s rest)
  with parse_one_Cons [of L fs s rest] assms obtain name val
    where "\<forall>r. parse_one L fs (s # r) = take_flag L name val r fs" by auto
  with assms Cons show ?thesis by (simp add: take_flag_append)
qed (use assms in \<open>simp add: parse_one_def\<close>)

lemma parse_one_stop:
  assumes "parse_one L fs args = StopAt []"
  shows "args = [] \<or> parse_one L fs (args @ xs) = StopAt xs"
proof (cases args)
  case (Cons s rest)
  with parse_one_Cons [of L fs s rest] assms have "s = ''--'' \<and> rest = []" by auto
  with Cons show ?thesis by (simp add: parse_one_def)
qed simp

text \<open>A word is an argument that is no flag.\<close>

definition is_word :: "string \<Rightarrow> bool" where
  "is_word w \<longleftrightarrow> length w < 2 \<or> hd w \<noteq> CHR ''-''"

lemma parse_one_word: "is_word w \<Longrightarrow> parse_one L fs (w # bs) = StopAt (w # bs)"
  by (auto simp: parse_one_def is_word_def)

lemma parse_flags_word:
  assumes "parse_flags L fs as = Parsed f []" and "is_word w"
  shows "parse_flags L fs (as @ w # bs) = Parsed f (w # bs)"
  using assms(1)
proof (induction L fs as rule: parse_flags.induct)
  case (1 L fs args)
  show ?case
  proof (cases "parse_one L fs args")
    case (StopAt r)
    with "1.prems" have "f = fs" "r = []" by (simp_all add: parse_flags.simps [of L fs args])
    with StopAt parse_one_stop [of L fs args "w # bs"] have "args = [] \<or> parse_one L fs (args @ w # bs) = StopAt (w # bs)"
      by simp
    with parse_one_word [OF assms(2)] \<open>f = fs\<close> show ?thesis
      by (auto simp: parse_flags.simps [of L fs "args @ w # bs"] parse_flags.simps [of L fs "w # bs"])
  next
    case (Taken fs1 rest)
    with "1.prems" have "parse_flags L fs1 rest = Parsed f []" by (simp add: parse_flags.simps [of L fs args])
    with "1.IH" [OF Taken] parse_one_append [OF Taken, of "w # bs"] show ?thesis
      by (simp add: parse_flags.simps [of L fs "args @ w # bs"])
  qed (use "1.prems" in \<open>simp_all add: parse_flags.simps [of L fs args]\<close>)
qed

text \<open>The first word ends the flags: whatever flags follow it are as if they were not there, and main
  says nothing about them.  The value of a switch, written apart from it, is such a word.\<close>

theorem words_hide_flags:
  assumes "parse_flags L (main_flag_set homeDir) as = Parsed f []" and "is_word w"
  shows "main_args L homeDir M (as @ w # bs) wo = main_args L homeDir M as wo"
  using parse_flags_word [OF assms] assms(1) by (simp add: main_args_def)

definition demo_lib_flags :: flag_lib where
  "demo_lib_flags = \<lparr>fb_duration = (\<lambda>_. None), fb_show = (\<lambda>_. []), fb_print = (\<lambda>_. True)\<rparr>"

lemma parse_switch:
  assumes "map_of (fg_formal fs) ''mcp'' = Some (BoolFlag b)"
  shows "parse_flags L fs [''--mcp''] = Parsed (store_flag ''mcp'' (BoolFlag True) fs) []"
  using assms by (simp add: parse_flags.simps parse_one_def take_flag_def set_flag_def ParseBool_def split_flag_def)

theorem words_hide_flags_witness:
  "main_args demo_lib_flags (Inr ''/h'') (demo_machine DefaultConfig) [''--mcp'', ''true'', ''--block'', ''ads.com''] demo_world =
   main_args demo_lib_flags (Inr ''/h'') (demo_machine DefaultConfig) [''--mcp''] demo_world"
proof -
  have "parse_flags demo_lib_flags (main_flag_set (Inr ''/h'')) [''--mcp''] =
      Parsed (store_flag ''mcp'' (BoolFlag True) (main_flag_set (Inr ''/h''))) []"
    by (rule parse_switch [where b = False]) (simp add: main_flag_set_def)
  from words_hide_flags [OF this, of "''true''" "demo_machine DefaultConfig" "[''--block'', ''ads.com'']" demo_world]
  show ?thesis by (simp add: is_word_def)
qed

subsection \<open>What a list of settings means\<close>

text \<open>The argument \<open>--name=value\<close>, and the settings a command line makes one after the other.\<close>

definition long :: "string \<times> string \<Rightarrow> string" where
  "long p = ''--'' @ fst p @ ''='' @ snd p"

fun settings :: "flag_lib \<Rightarrow> (string \<times> string) list \<Rightarrow> flag_set \<Rightarrow> flag_set option" where
  "settings L [] fs = Some fs"
| "settings L ((n, v) # ss) fs = (case map_of (fg_formal fs) n of None \<Rightarrow> None
     | Some fv \<Rightarrow> (case set_value L v fv of Inl _ \<Rightarrow> None | Inr fv1 \<Rightarrow> settings L ss (store_flag n fv1 fs)))"

definition plain_name :: "string \<Rightarrow> bool" where
  "plain_name n \<longleftrightarrow> n \<noteq> [] \<and> hd n \<noteq> CHR ''-'' \<and> CHR ''='' \<notin> set n"

lemma parse_one_long:
  assumes "plain_name n"
  shows "parse_one L fs (long (n, v) # rest) = take_flag L n (Some v) rest fs"
proof -
  obtain a n' where n: "n = a # n'" using assms by (cases n) (auto simp: plain_name_def)
  have "takeWhile (\<lambda>c. c \<noteq> CHR ''='') (n @ CHR ''='' # v) = n" "dropWhile (\<lambda>c. c \<noteq> CHR ''='') (n @ CHR ''='' # v) = CHR ''='' # v"
    using assms by (auto simp: plain_name_def takeWhile_append dropWhile_append)
  with assms show ?thesis
    by (auto simp: parse_one_def split_flag_def long_def plain_name_def n)
qed

lemma parse_long:
  assumes "\<forall>p \<in> set ss. plain_name (fst p)"
  shows "(\<forall>f. settings L ss fs = Some f \<longrightarrow> parse_flags L fs (map long ss) = Parsed f []) \<and>
    (settings L ss fs = None \<longrightarrow> (\<exists>code msg. parse_flags L fs (map long ss) = Usage code msg))"
  using assms
proof (induction ss arbitrary: fs)
  case Nil
  then show ?case by (simp add: parse_flags.simps parse_one_def)
next
  case (Cons p ss)
  obtain n v where p: "p = (n, v)" by (rule prod.exhaust)
  have one: "parse_flags L fs (map long (p # ss)) = (case take_flag L n (Some v) (map long ss) fs of
      StopAt rest \<Rightarrow> Parsed fs rest | FlagError e \<Rightarrow> Usage 2 e | HelpAsked \<Rightarrow> Usage 0 []
    | Taken fs1 rest \<Rightarrow> parse_flags L fs1 rest)"
    by (subst parse_flags.simps) (use Cons.prems in \<open>simp add: p parse_one_long\<close>)
  have ih: "\<forall>p \<in> set ss. plain_name (fst p)" using Cons.prems by simp
  show ?case
  proof (cases "map_of (fg_formal fs) n")
    case None
    then show ?thesis unfolding one by (simp add: p take_flag_def)
  next
    case (Some fv)
    then show ?thesis unfolding one using Cons.IH [OF ih]
      by (cases "set_value L v fv") (simp_all add: p take_flag_def set_flag_def)
  qed
qed

text \<open>The value a flag ends with: its values one after the other on top of its default.\<close>

definition given :: "string \<Rightarrow> (string \<times> string) list \<Rightarrow> string list" where
  "given n ss = map snd (filter (\<lambda>p. fst p = n) ss)"

definition set_all_values :: "flag_lib \<Rightarrow> string list \<Rightarrow> flag_value \<Rightarrow> flag_value" where
  "set_all_values L vs fv = fold (\<lambda>v fv. case set_value L v fv of Inl _ \<Rightarrow> fv | Inr fv1 \<Rightarrow> fv1) vs fv"

lemma given_Cons [simp]: "given n (p # ss) = (if fst p = n then snd p # given n ss else given n ss)"
  by (simp add: given_def)

lemma given_Nil [simp]: "given n [] = []"
  by (simp add: given_def)

lemma given_empty: "given n ss = [] \<longleftrightarrow> n \<notin> fst ` set ss"
  by (induction ss) auto

lemma map_of_store [simp]:
  "map_of (fg_formal (store_flag n fv fs)) k = (if k = n then Some fv else map_of (fg_formal fs) k)"
  by (simp add: store_flag_def update_conv')

lemma settings_value:
  assumes "settings L ss fs = Some f"
  shows "map_of (fg_formal f) n = map_option (set_all_values L (given n ss)) (map_of (fg_formal fs) n)"
  using assms
proof (induction ss arbitrary: fs)
  case Nil
  then show ?case by (simp add: set_all_values_def option.map_id0 id_def [symmetric])
next
  case (Cons p ss)
  obtain m v where p: "p = (m, v)" by (rule prod.exhaust)
  from Cons.prems obtain fv fv1 where fv: "map_of (fg_formal fs) m = Some fv" "set_value L v fv = Inr fv1"
    and r: "settings L ss (store_flag m fv1 fs) = Some f"
    by (auto simp: p split: option.splits sum.splits)
  from Cons.IH [OF r] fv show ?case by (auto simp: p set_all_values_def)
qed

lemma settings_actual:
  assumes "settings L ss fs = Some f" and "distinct (fg_actual fs)"
  shows "distinct (fg_actual f) \<and> set (fg_actual f) = set (fg_actual fs) \<union> fst ` set ss"
  using assms
proof (induction ss arbitrary: fs)
  case (Cons p ss)
  obtain m v where p: "p = (m, v)" by (rule prod.exhaust)
  from Cons.prems(1) obtain fv fv1 where fv: "map_of (fg_formal fs) m = Some fv" "set_value L v fv = Inr fv1"
    and r: "settings L ss (store_flag m fv1 fs) = Some f"
    by (auto simp: p split: option.splits sum.splits)
  from Cons.IH [OF r] Cons.prems(2) show ?case by (auto simp: p store_flag_def)
qed simp

lemma string_values: "set_all_values L vs (StringFlag s) = StringFlag (last (s # vs))"
  by (induction vs arbitrary: s) (simp_all add: set_all_values_def)

lemma slice_values: "set_all_values L vs (SliceFlag s) = SliceFlag (s @ vs)"
  by (induction vs arbitrary: s) (simp_all add: set_all_values_def slice_Set_def)

text \<open>Whether a value is accepted depends on the kind of the flag only, so settings are accepted one by
  one.\<close>

definition accepts :: "flag_lib \<Rightarrow> flag_set \<Rightarrow> string \<times> string \<Rightarrow> bool" where
  "accepts L fs p = (case map_of (fg_formal fs) (fst p) of None \<Rightarrow> False
     | Some fv \<Rightarrow> (case set_value L (snd p) fv of Inl _ \<Rightarrow> False | Inr _ \<Rightarrow> True))"

lemma set_value_kind:
  "set_value L v fv = Inr fv1 \<Longrightarrow>
   (case set_value L w fv1 of Inl _ \<Rightarrow> False | Inr _ \<Rightarrow> True) = (case set_value L w fv of Inl _ \<Rightarrow> False | Inr _ \<Rightarrow> True)"
  by (cases fv) (auto simp: map_sum_def split: option.splits sum.splits)

lemma accepts_store:
  assumes "map_of (fg_formal fs) n = Some fv" and "set_value L v fv = Inr fv1"
  shows "accepts L (store_flag n fv1 fs) p = accepts L fs p"
  using assms set_value_kind [OF assms(2), of "snd p"] by (simp add: accepts_def)

lemma settings_iff: "settings L ss fs \<noteq> None \<longleftrightarrow> (\<forall>p \<in> set ss. accepts L fs p)"
proof (induction ss arbitrary: fs)
  case (Cons p ss)
  obtain n v where p: "p = (n, v)" by (rule prod.exhaust)
  show ?case
  proof (cases "map_of (fg_formal fs) n")
    case None
    then show ?thesis by (simp add: p accepts_def)
  next
    case (Some fv)
    show ?thesis
    proof (cases "set_value L v fv")
      case (Inr fv1)
      with Some Cons.IH [of "store_flag n fv1 fs"] accepts_store [OF Some Inr] show ?thesis
        by (simp add: p) (simp add: accepts_def)
    qed (use Some in \<open>simp add: p accepts_def\<close>)
  qed
qed simp

lemma int_values:
  assumes "\<forall>v \<in> set vs. \<exists>i. parse_int v = Inr i"
  shows "\<exists>i. set_all_values L vs (IntFlag d) = IntFlag i \<and> (if vs = [] then i = d else parse_int (last vs) = Inr i)"
  using assms
proof (induction vs arbitrary: d)
  case (Cons v vs)
  then obtain i where i: "parse_int v = Inr i" by auto
  from Cons.IH [of i] Cons.prems obtain j where
    "set_all_values L vs (IntFlag i) = IntFlag j" "if vs = [] then j = i else parse_int (last vs) = Inr j" by auto
  with i show ?case by (intro exI [of _ j]) (auto simp: set_all_values_def)
qed (simp add: set_all_values_def)

lemma parse_int_range: "parse_int v = Inr i \<Longrightarrow> - (2 ^ 63) \<le> i \<and> i < 2 ^ 63"
  by (auto simp: parse_int_def Let_def split: sum.splits if_splits)

lemma main_formal:
  "map_of (fg_formal (main_flag_set homeDir)) ''block'' = Some (StringFlag [])"
  "map_of (fg_formal (main_flag_set homeDir)) ''allow'' = Some (StringFlag [])"
  "map_of (fg_formal (main_flag_set homeDir)) ''browse'' = Some (StringFlag [])"
  "map_of (fg_formal (main_flag_set homeDir)) ''data-dir'' = Some (StringFlag (defaultDataDir homeDir))"
  "map_of (fg_formal (main_flag_set homeDir)) ''proto-path'' = Some (SliceFlag [])"
  "map_of (fg_formal (main_flag_set homeDir)) ''proto-include'' = Some (SliceFlag [])"
  "map_of (fg_formal (main_flag_set homeDir)) ''port'' = Some (IntFlag 8080)"
  "fg_actual (main_flag_set homeDir) = []"
  by (simp_all add: main_flag_set_def)

lemma accepted_given:
  assumes "\<forall>p \<in> set ss. accepts L fs p" and "map_of (fg_formal fs) n = Some (IntFlag d)"
  shows "\<forall>v \<in> set (given n ss). \<exists>i. parse_int v = Inr i"
proof
  fix v assume "v \<in> set (given n ss)"
  then have "(n, v) \<in> set ss" by (auto simp: given_def)
  with assms(1) have "accepts L fs (n, v)" by blast
  with assms(2) show "\<exists>i. parse_int v = Inr i" by (auto simp: accepts_def map_sum_def split: sum.splits)
qed

text \<open>The port of the configuration after the flags.\<close>

lemma fold_apply_port:
  "''port'' \<notin> fst ` set vs \<Longrightarrow> cf_ProxyPort (fold apply_flag vs c) = cf_ProxyPort c"
  by (induction vs arbitrary: c) (auto simp: apply_flag_def)

lemma ApplyFlags_port:
  assumes "distinct (map fst vs)"
  shows "cf_ProxyPort (ApplyFlags c vs) = (case map_of vs ''port'' of Some v \<Rightarrow> mustInt v | None \<Rightarrow> cf_ProxyPort c)"
proof (cases "map_of vs ''port''")
  case None
  then have "''port'' \<notin> fst ` set vs" by (simp add: map_of_eq_None_iff)
  with None show ?thesis by (simp add: ApplyFlags_def fold_apply_port)
next
  case (Some v)
  then obtain as bs where v: "vs = as @ (''port'', v) # bs" by (metis map_of_SomeD split_list)
  with assms have "''port'' \<notin> fst ` set bs" by auto
  with Some show ?thesis by (simp add: ApplyFlags_def v fold_apply_port) (simp add: apply_flag_def)
qed

lemma merged_port: "cf_ProxyPort (merged_config fl cfg) = cf_ProxyPort (ApplyFlags cfg (fl_visited fl))"
  by (simp add: merged_config_def Let_def)

lemma main_settings:
  assumes "settings L ss (main_flag_set homeDir) = Some f"
  shows "fl_dataDir (main_flags L f) = last (defaultDataDir homeDir # given ''data-dir'' ss)"
    and "fl_block (main_flags L f) = last ([] # given ''block'' ss)"
    and "fl_allow (main_flags L f) = last ([] # given ''allow'' ss)"
    and "fl_browse (main_flags L f) = last ([] # given ''browse'' ss)"
    and "fl_protoPaths (main_flags L f) = given ''proto-path'' ss"
    and "fl_protoIncludes (main_flags L f) = given ''proto-include'' ss"
  by (simp_all add: main_flags_def string_flag_def slice_flag_def settings_value [OF assms] main_formal
      string_values slice_values)

lemma main_visited:
  assumes "settings L ss (main_flag_set homeDir) = Some f"
  shows "distinct (map fst (fl_visited (main_flags L f)))" "map fst (fl_visited (main_flags L f)) = sort (remdups (map fst ss))"
proof -
  have d: "distinct (fg_actual f)" "set (fg_actual f) = fst ` set ss"
    using settings_actual [OF assms] by (simp_all add: main_formal)
  have m: "map fst (fl_visited (main_flags L f)) = sort (fg_actual f)"
    by (simp add: main_flags_def Visit_def comp_def)
  with d(1) show "distinct (map fst (fl_visited (main_flags L f)))" by simp
  have "sort (fg_actual f) = sort (remdups (map fst ss))"
    by (rule sorted_distinct_set_unique) (simp_all add: d)
  with m show "map fst (fl_visited (main_flags L f)) = sort (remdups (map fst ss))" by simp
qed

lemma main_port:
  assumes "\<forall>p \<in> set ss. accepts L (main_flag_set homeDir) p" and "settings L ss (main_flag_set homeDir) = Some f"
  shows "if ''port'' \<in> fst ` set ss then parse_int (last (given ''port'' ss)) = Inr (cf_ProxyPort (merged_config (main_flags L f) cfg))
    else cf_ProxyPort (merged_config (main_flags L f) cfg) = cf_ProxyPort cfg"
proof -
  let ?vs = "fl_visited (main_flags L f)"
  have k: "set (map fst ?vs) = fst ` set ss" using main_visited(2) [OF assms(2)] by simp
  have p: "cf_ProxyPort (merged_config (main_flags L f) cfg) =
      (case map_of ?vs ''port'' of Some v \<Rightarrow> mustInt v | None \<Rightarrow> cf_ProxyPort cfg)"
    by (simp add: merged_port ApplyFlags_port [OF main_visited(1) [OF assms(2)]])
  show ?thesis
  proof (cases "''port'' \<in> fst ` set ss")
    case True
    then have ne: "given ''port'' ss \<noteq> []" by (simp add: given_empty)
    have "\<forall>v \<in> set (given ''port'' ss). \<exists>i. parse_int v = Inr i"
      by (rule accepted_given [OF assms(1) main_formal(7)])
    from int_values [OF this, of L 8080] ne obtain i where
      i: "set_all_values L (given ''port'' ss) (IntFlag 8080) = IntFlag i" "parse_int (last (given ''port'' ss)) = Inr i" by auto
    from True k have "''port'' \<in> fst ` set ?vs" by simp
    then obtain v where v: "map_of ?vs ''port'' = Some v" by (metis map_of_eq_None_iff not_Some_eq)
    then have "(''port'', v) \<in> set ?vs" by (rule map_of_SomeD)
    then have "v = Itoa i"
      by (auto simp: main_flags_def Visit_def settings_value [OF assms(2)] main_formal i(1))
    with parse_int_range [OF i(2)] have "mustInt v = i" by (simp add: mustInt_Itoa)
    with p v i(2) True show ?thesis by simp
  next
    case False
    with k have "''port'' \<notin> fst ` set ?vs" by simp
    then have "map_of ?vs ''port'' = None" by (simp add: map_of_eq_None_iff)
    with p False show ?thesis by simp
  qed
qed


definition demo_settings :: "(string \<times> string) list" where
  "demo_settings = [(''port'', ''9000''), (''block'', ''x.com''), (''mcp'', ''true''), (''throttle'', ''3g''), (''port'', ''0x1F91'')]"

lemma demo_settings_ok:
  "\<forall>p \<in> set demo_settings. plain_name (fst p)"
  "\<forall>p \<in> set demo_settings. accepts demo_lib_flags (main_flag_set (Inr ''/h'')) p"
  "parse_int ''0x1F91'' = Inr 8081"
proof -
  have n: "parse_int ''9000'' = Inr 9000" and x: "parse_int ''0x1F91'' = Inr 8081"
    by (simp_all add: parse_int_def parse_uint_def number_base_def HasPrefix_def digit_value_def is_digit_def
        lower_char_def byte_def)
  show "parse_int ''0x1F91'' = Inr 8081" by (rule x)
  show "\<forall>p \<in> set demo_settings. plain_name (fst p)" by (simp add: demo_settings_def plain_name_def)
  show "\<forall>p \<in> set demo_settings. accepts demo_lib_flags (main_flag_set (Inr ''/h'')) p"
    by (simp add: demo_settings_def accepts_def main_flag_set_def n x ParseBool_def)
qed


subsection \<open>Hosts named on the command line\<close>

text \<open>C10: --block and --allow on the command line hold from end to end: a program that was started with
  such settings, the last of each counting, never stores a flow of an excluded host, whatever
  hooks run on the addon it made, in any order, for this and other flows, whatever scripts and process
  lookups do; and the MITM library is told to intercept exactly the hosts the two lists leave.\<close>

theorem blocked_hosts_never_captured:
  assumes "main_args L homeDir M (map long ss) wo = (Ran (Running r), w1)" and "\<forall>p \<in> set ss. plain_name (fst p)"
    and "block = last ([] # given ''block'' ss)" and "allow = last ([] # given ''allow'' ss)"
    and "block \<noteq> [] \<or> allow \<noteq> []" and "hf = New_HostFilter (splitCSV block) (splitCSV allow)"
    and "list_all (ignores hf fid) evs"
  shows "\<exists>ic. st_intc (ru_proxy r) = Some ic \<and> Get fid (ic_store (run_hooks evs ic)) = Inl (not_found fid) \<and>
    st_rule (ru_proxy r) = Some (ShouldIntercept hf)"
proof (cases "settings L ss (main_flag_set homeDir)")
  case None
  with parse_long [OF assms(2)] obtain code msg where "parse_flags L (main_flag_set homeDir) (map long ss) = Usage code msg" by blast
  with assms(1) show ?thesis by (simp add: main_args_def)
next
  case (Some f)
  with parse_long [OF assms(2)] have "parse_flags L (main_flag_set homeDir) (map long ss) = Parsed f []" by blast
  with assms(1) have run: "main_run M (main_flags L f) wo = (Running r, w1)"
    by (simp add: main_args_def split: prod.splits)
  note e = main_settings [OF Some]
  show ?thesis
    by (rule hosts_blocked_by_flags [OF run _ _ assms(7)]) (use assms(3-6) in \<open>simp_all only: e(2,3)\<close>)
qed

text \<open>main looks at the visited flags through the configuration only.\<close>

lemma main_run_visited:
  assumes "\<And>cfg. merged_config (fl\<lparr>fl_visited := vs\<rparr>) cfg = merged_config fl cfg"
  shows "main_run M (fl\<lparr>fl_visited := vs\<rparr>) w = main_run M fl w"
proof -
  let ?fl = "fl\<lparr>fl_visited := vs\<rparr>"
  have f: "fl_dataDir ?fl = fl_dataDir fl" "fl_block ?fl = fl_block fl" "fl_allow ?fl = fl_allow fl"
    "fl_latency ?fl = fl_latency fl" "fl_browse ?fl = fl_browse fl" "fl_installCA ?fl = fl_installCA fl"
    "fl_version ?fl = fl_version fl" "fl_mcpToken ?fl = fl_mcpToken fl" by simp_all
  have b: "start_browse M ?fl = start_browse M fl" "start_mcp M ?fl = start_mcp M fl" "app_config M ?fl = app_config M fl"
    "throttle_setting pr ?fl = throttle_setting pr fl" "configured ?fl = configured fl"
    "show_token M ?fl = show_token M fl" for pr
    by (intro ext, simp only: f start_browse_def start_mcp_def app_config_def throttle_setting_def configured_def show_token_def)+
  have d: "scripts_dir ?fl = scripts_dir fl" by (simp add: scripts_dir_def)
  have s: "serve_all M ?fl = serve_all M fl" by (intro ext) (simp only: serve_all_def b d)
  have "run_proxy M ?fl = run_proxy M fl" by (intro ext) (simp only: run_proxy_def b d f s)
  then show ?thesis by (simp only: main_run_def assms b f)
qed

definition block_settings :: "(string \<times> string) list" where
  "block_settings = [(''mcp'', ''true''), (''data-dir'', ''d''), (''throttle'', ''3g''), (''block'', ''x.com'')]"

lemma block_settings_run:
  "\<exists>f. parse_flags demo_lib_flags (main_flag_set (Inr ''/h'')) (map long block_settings) = Parsed f [] \<and>
    main_flags demo_lib_flags f = (demo_flags ''x.com'')\<lparr>fl_visited :=
      [(''block'', ''x.com''), (''data-dir'', ''d''), (''mcp'', ''true''), (''throttle'', ''3g'')]\<rparr>"
proof -
  let ?f = "store_flag ''block'' (StringFlag ''x.com'') (store_flag ''throttle'' (StringFlag ''3g'')
    (store_flag ''data-dir'' (StringFlag ''d'') (store_flag ''mcp'' (BoolFlag True) (main_flag_set (Inr ''/h'')))))"
  have t: "ParseBool ''true'' = Some True" by (simp add: ParseBool_def)
  have k: "map_of (fg_formal (main_flag_set (Inr ''/h''))) ''mcp'' = Some (BoolFlag False)"
    "map_of (fg_formal (main_flag_set (Inr ''/h''))) ''throttle'' = Some (StringFlag [])" by (simp_all add: main_flag_set_def)
  have "settings demo_lib_flags block_settings (main_flag_set (Inr ''/h'')) = Some ?f"
    using main_formal [of "Inr ''/h''"] k by (simp add: block_settings_def t)
  moreover have "\<forall>p \<in> set block_settings. plain_name (fst p)" by (simp add: block_settings_def plain_name_def)
  ultimately have "parse_flags demo_lib_flags (main_flag_set (Inr ''/h'')) (map long block_settings) = Parsed ?f []"
    using parse_long by blast
  moreover have "fg_actual ?f = [''block'', ''throttle'', ''data-dir'', ''mcp'']"
    by (simp add: store_flag_def main_formal)
  moreover have "sort [''block'', ''throttle'', ''data-dir'', ''mcp''] = [''block'', ''data-dir'', ''mcp'', ''throttle'']"
    by code_simp
  ultimately show ?thesis
    by (intro exI [of _ ?f]) (simp add: main_flags_def Visit_def string_flag_def bool_flag_def slice_flag_def
        duration_flag_def demo_flags_def, simp add: main_flag_set_def)
qed

lemma block_settings_running:
  "\<exists>r w1. main_args demo_lib_flags (Inr ''/h'') ((demo_machine DefaultConfig)\<lparr>ma_marshal := \<lambda>_. Inr []\<rparr>)
    (map long block_settings) demo_world = (Ran (Running r), w1)"
proof -
  let ?M = "(demo_machine DefaultConfig)\<lparr>ma_marshal := \<lambda>_. Inr []\<rparr>"
  let ?vs = "[(''block'', ''x.com''), (''data-dir'', ''d''), (''mcp'', ''true''), (''throttle'', ''3g'')]"
  have "merged_config ((demo_flags ''x.com'')\<lparr>fl_visited := ?vs\<rparr>) cfg = merged_config (demo_flags ''x.com'') cfg" for cfg
    by (simp add: merged_config_def demo_flags_def ApplyFlags_def apply_flag_def Let_def)
  then have v: "main_run ?M ((demo_flags ''x.com'')\<lparr>fl_visited := ?vs\<rparr>) demo_world = main_run ?M (demo_flags ''x.com'') demo_world"
    by (rule main_run_visited)
  obtain f where f: "parse_flags demo_lib_flags (main_flag_set (Inr ''/h'')) (map long block_settings) = Parsed f []"
    "main_flags demo_lib_flags f = (demo_flags ''x.com'')\<lparr>fl_visited := ?vs\<rparr>" using block_settings_run by blast
  obtain r w1 where "main_run ?M (demo_flags ''x.com'') demo_world = (Running r, w1)" using demo_running by blast
  then show ?thesis by (simp add: main_args_def f v)
qed

theorem blocked_hosts_never_captured_witness:
  "\<exists>r w1 ic. main_args demo_lib_flags (Inr ''/h'') ((demo_machine DefaultConfig)\<lparr>ma_marshal := \<lambda>_. Inr []\<rparr>)
      (map long block_settings) demo_world = (Ran (Running r), w1) \<and> st_intc (ru_proxy r) = Some ic \<and>
     Get ''7'' (ic_store (run_hooks [Hook HRequestheaders demo_px 0 demo_flow, Hook HRequest demo_px 1 demo_flow] ic)) = Inl (not_found ''7'')"
proof -
  obtain r w1 where r: "main_args demo_lib_flags (Inr ''/h'') ((demo_machine DefaultConfig)\<lparr>ma_marshal := \<lambda>_. Inr []\<rparr>)
      (map long block_settings) demo_world = (Ran (Running r), w1)"
    using block_settings_running by blast
  have s: "splitCSV ''x.com'' = [''x.com'']" "splitCSV [] = []"
    by (simp_all add: splitCSV_def TrimSpace_id is_space_def byte_def)
  have p: "\<forall>p \<in> set block_settings. plain_name (fst p)" by (simp add: block_settings_def plain_name_def)
  have g: "''x.com'' = last ([] # given ''block'' block_settings)" "[] = last ([] # given ''allow'' block_settings)"
    by (simp_all add: block_settings_def)
  have "\<not> ShouldIntercept (New_HostFilter [''x.com''] []) ''x.com''" by code_simp
  then have "list_all (ignores (New_HostFilter [''x.com''] []) ''7'')
      [Hook HRequestheaders demo_px 0 demo_flow, Hook HRequest demo_px 1 demo_flow]"
    by (simp add: demo_flow_def demo_url_def)
  from blocked_hosts_never_captured [OF r p g _ _ this] s r show ?thesis by auto
qed

text \<open>A signal that ends the program during a browse session restores the proxy settings as an orderly
  end does.\<close>

lemma signal_restores:
  assumes "ru_session r \<noteq> None" and "finish M r px None w = Some (e, mcp, w1)"
  shows "on_browse_signal M r w = Some (1, w1)"
  using assms by (auto simp: on_browse_signal_def finish_def split: option.splits)

text \<open>After an interrupt no MCP tool runs any more, with or without the token.\<close>

lemma interrupted_mcp_refuses:
  assumes "on_interrupt r p = Some (err, r1, p1)" and "ru_mcp r1 = Some srv"
  shows "fst (serve env srv h call cfg) = Refused \<and> err = Some ''context canceled''"
  using assms stopped_refuses by (auto simp: on_interrupt_def Serve_def split: option.splits)

end
