(* ===== verification/Tui_Commands.thy ===== *)
theory Tui_Commands
  imports Tui_App
begin

section \<open>Running the commands of the UI (internal/tui: repeat.go, compose.go, editor.go, scripts.go)\<close>

text \<open>
  What the runtime of Bubble Tea does with the commands that the update functions return: text is
  printed, an external program runs and then gives its message, and a function runs and its result
  is the next message.  The HTTP client (proxy URL and request to status code), the environment and
  os.CreateTemp are parameters.  The functions that send a request end with \<open>return tea.Printf(...)\<close>:
  what they return as their message is a command, here \<open>CmdValue\<close>.
\<close>

record cmd_env =
  ce_http :: "string \<Rightarrow> wire_request \<Rightarrow> int or_err"
  ce_getenv :: "string \<Rightarrow> string"
  ce_temp :: "string \<Rightarrow> string \<Rightarrow> string list \<Rightarrow> string or_err"

datatype message = UiMsg ui_msg | CmdValue cmd

datatype effect = Sends message | Runs "string list" ui_msg

subsection \<open>Sending\<close>

definition client_proxy :: "string \<Rightarrow> string" where
  "client_proxy addr = ''http://localhost'' @ addr"

definition repeat_result :: "cmd_env \<Rightarrow> string \<Rightarrow> wire_request \<Rightarrow> message" where
  "repeat_result E addr req = (case ce_http E (client_proxy addr) req of
       Inl e \<Rightarrow> CmdValue (Printf (''Repeat failed: '' @ e))
     | Inr code \<Rightarrow> CmdValue (Printf (''Request sent ('' @ Itoa code @ '')'')))"

definition compose_result :: "cmd_env \<Rightarrow> string \<Rightarrow> wire_request \<Rightarrow> message" where
  "compose_result E addr req = (case ce_http E (client_proxy addr) req of
       Inl e \<Rightarrow> CmdValue (Printf (''Send failed: '' @ e))
     | Inr code \<Rightarrow> CmdValue (Printf (''Sent '' @ wr_Method req @ '' '' @ wr_URL req @ [CHR '' '', CHR 0xE2, CHR 0x86, CHR 0x92, CHR '' ''] @ Itoa code)))"

subsection \<open>Editing\<close>

definition resolveEditor :: "(string \<Rightarrow> string) \<Rightarrow> string" where
  "resolveEditor getenv = (if getenv ''VISUAL'' \<noteq> [] then getenv ''VISUAL''
     else if getenv ''EDITOR'' \<noteq> [] then getenv ''EDITOR'' else ''vi'')"

definition edit_body :: "cmd_env \<Rightarrow> string \<Rightarrow> string \<Rightarrow> fsys \<Rightarrow> effect \<times> fsys" where
  "edit_body E body ext fs = (case ce_temp E ''httpmon-body-'' ext (map fst (fs_files fs)) of
       Inl e \<Rightarrow> (Sends (UiMsg editorFinishedMsg), fs)
     | Inr path \<Rightarrow> (case WriteFile path body (fs\<lparr>fs_files := AList.update path [] (fs_files fs)\<rparr>) of
         (Some e, fs1) \<Rightarrow> (Sends (UiMsg editorFinishedMsg), fs1)
       | (None, fs1) \<Rightarrow> (Runs [resolveEditor (ce_getenv E), path] editorFinishedMsg, fs1)))"

definition edit_script :: "cmd_env \<Rightarrow> string \<Rightarrow> effect" where
  "edit_script E path = Runs [resolveEditor (ce_getenv E), path] scriptEditorFinishedMsg"

subsection \<open>The message that comes back\<close>

text \<open>A command that arrives as a message is of no type that Update knows: it goes the way of every other message.\<close>

definition receive :: "'w ui_env \<Rightarrow> message \<Rightarrow> 'w App \<Rightarrow> ('w App \<times> cmd) ui" where
  "receive U m a = (case m of UiMsg msg \<Rightarrow> ui_update U msg a | CmdValue _ \<Rightarrow> ui_update U (OtherMsg ''tea.Cmd'') a)"

text \<open>The outcome of a repeated or composed request is never shown: whatever the client returns, the message
  that comes back changes nothing but, at most, the filter input, and prints nothing.\<close>

theorem send_result_never_shown:
  assumes "m = repeat_result E addr req \<or> m = compose_result E addr req"
  shows "\<exists>w c. receive U m a = Inr (a\<lparr>ap_filterInput := w\<rparr>, c) \<and> (\<forall>s. c \<noteq> Printf s)"
proof -
  obtain c where "m = CmdValue c"
    using assms by (auto simp: repeat_result_def compose_result_def split: sum.splits)
  then show ?thesis
    by (cases "ti_Focused U (ap_filterInput a)") (auto simp: receive_def stay_def intro: exI [of _ "ap_filterInput a"])
qed

text \<open>Editing a body in the external editor changes nothing: the editor gets a new file that holds the body, and
  when it ends the state is as before, whatever the file now holds; the file is not removed.\<close>

theorem edited_body_is_lost:
  assumes "edit_body E body ext fs = (Runs command msg, fs1)"
  shows "\<exists>path. command = [resolveEditor (ce_getenv E), path] \<and> map_of (fs_files fs1) path = Some body \<and>
    (\<forall>a. receive U (UiMsg msg) a = Inr (a, NoCmd))"
  using assms by (auto simp: edit_body_def WriteFile_def receive_def stay_def update_conv' split: sum.splits option.splits)

definition demo_cmds :: cmd_env where
  "demo_cmds = \<lparr>ce_http = (\<lambda>_ _. Inr 200), ce_getenv = (\<lambda>k. if k = ''EDITOR'' then ''nano'' else []), ce_temp = (\<lambda>p s _. Inr (p @ ''1'' @ s))\<rparr>"

theorem edited_body_is_lost_witness:
  "\<exists>fs1. edit_body demo_cmds ''{}'' ''.json'' (demo_fs []) = (Runs [''nano'', ''httpmon-body-1.json''] editorFinishedMsg, fs1) \<and>
     map_of (fs_files fs1) ''httpmon-body-1.json'' = Some ''{}''"
proof -
  obtain fs1 where e: "edit_body demo_cmds ''{}'' ''.json'' (demo_fs []) = (Runs [''nano'', ''httpmon-body-1.json''] editorFinishedMsg, fs1)"
    by (simp add: edit_body_def demo_cmds_def WriteFile_def demo_fs_def resolveEditor_def)
  from edited_body_is_lost [OF e] e show ?thesis by auto
qed

theorem send_result_never_shown_witness:
  "\<exists>c. repeat_result demo_cmds '':8080'' \<lparr>wr_Method = ''GET'', wr_URL = ''http://a/'', wr_Header = [], wr_Body = []\<rparr> = CmdValue (Printf c) \<and>
     (\<forall>U a. \<exists>w c'. receive U (CmdValue (Printf c)) a = Inr (a\<lparr>ap_filterInput := w\<rparr>, c') \<and> c' \<noteq> Printf c)"
proof -
  let ?r = "\<lparr>wr_Method = ''GET'', wr_URL = ''http://a/'', wr_Header = [], wr_Body = []\<rparr>"
  obtain c where c: "repeat_result demo_cmds '':8080'' ?r = CmdValue (Printf c)" by (simp add: repeat_result_def demo_cmds_def)
  have "\<exists>w c'. receive U (CmdValue (Printf c)) a = Inr (a\<lparr>ap_filterInput := w\<rparr>, c') \<and> c' \<noteq> Printf c" for U :: "'a ui_env" and a
    using send_result_never_shown [OF disjI1 [OF c [symmetric]], of U a] by blast
  with c show ?thesis by blast
qed

end
