(* ===== verification/Spec2Isabelle.thy ===== *)
theory Spec2Isabelle
  imports Flow_Diff Flow_Filter Breakpoint_Spec Har_Export Config Script_Codec Tui_Files Command_Line Tui_Commands
begin

text \<open>
  httpmon is an intercepting HTTP proxy with a terminal UI and an MCP server.  A MITM library
  calls the addon of internal/proxy for each flow; the addon keeps a summary and the data of the
  flow in a ring buffer (internal/store), asks a host filter whether the host is captured, runs
  user scripts over the decoded request and response, pauses flows at breakpoints and throttles
  response bodies.  The terminal UI (internal/tui) and the MCP tools (internal/mcpserver) read
  the buffer, edit scripts, throttle and configuration, resume paused flows and send requests.
  This library models these parts from their Go sources; every definition stands for a function,
  a method, a type, or a part of a function, named as in the source.

  \<^bold>\<open>Theories and sources.\<close>
  \<^item> Prelude, Go_Text: the strings of Go as byte strings and the library functions the code
    calls (packages strings, strconv, slices, utf8, net/http's Header); panics and errors as sums.
  \<^item> Flow_Store (internal/store): flows, the ring buffer with slots, index and data map, and its
    abstraction to a bounded queue; the locales \<open>flow_reader\<close>, \<open>flow_updater\<close> and \<open>flow_sink\<close> are the
    interfaces through which other components use a store, interpreted on the ring buffer.
  \<^item> Flow_Filter (internal/filter), Host_Filter (internal/hostfilter), Throttle
    (internal/throttle), Flow_Diff (internal/diff), Har_Export (internal/har), Config
    (internal/config), Proc_Info (internal/procinfo).
  \<^item> Breakpoint (internal/breakpoint): the controller, and its goroutines as the step relation
    \<open>bstep\<close> in which sends, receives and pauses interleave.  Breakpoint_Spec: the table of fates it refines.
  \<^item> Script_Glob, Script_Header, Script_Engine (internal/scripting): URL patterns; script files over an
    explicit file system; the engine around a parameter for the JavaScript interpreter.
  \<^item> Protobuf_Raw, Body_Decoder, Proto_Files (internal/bodydecoder): the decoders of binary bodies, their
    registries, and the search and loading of .proto files with the buf module cache.
  \<^item> Interceptor, Flow_Lifecycle, Proxy_Init (internal/proxy): the proxy's set-up and end, the hooks of the addon, and what sequences of hooks
    and process lookups make of the store.  The locale \<open>throttle_port\<close> is the throttle as the UI and
    the MCP tools see it, interpreted on the interceptor and on the proxy.  Script_Codec: the hooks over
    gRPC-Web bodies with the decoders as main builds them.
  \<^item> Mcp_Read, Mcp_Server (internal/mcpserver): a tool is a function from its input and the server's state to a
    result and a state; the bearer check in front of all of them; sessions of requests.
  \<^item> Tui_Tree, Tui_Text, Tui_Send: groups and rows of the list, column texts, requests that leave the UI.
  \<^item> Highlight (internal/highlight), Tui_Detail, Tui_View: which bodies are shown as text, and what each
    screen shows for a state, line by line, up to text styles.
  \<^item> Tui_State, Tui_Modals, Tui_Forms, Tui_App: the App record with the fields of the Go struct, a
    function from key and state per screen, and \<open>ui_update\<close>, the Update method.  A step ends with a
    state and a command, or stops the program: a panic, or a send that blocks for ever.
  \<^item> Tui_Safety, Tui_Run: the invariant of the App and runs of events (messages, drawings, traffic,
    pauses); the locale \<open>event_machine\<close> is interpreted on the App, on the settings modal and on the
    scripts modal.  Tui_Effects, Tui_Files: what keys do to the throttle, to the configuration, to
    paused flows, to script files and to exported files.  Tui_Commands: what the commands of the UI do
    when the runtime executes them, and what comes back.
  \<^item> Certs (internal/certutil): the CA files, their creation and reuse, installing and checking trust.
    System_Proxy (internal/browse): the proxy settings of the system, around commands as a parameter.
  \<^item> Startup (cmd/httpmon): main from its flags to the running program or to the message it ends with,
    composed of the components above, and what it does after the UI returned.  Command_Line: the
    arguments, package flag as main uses it, the flags main declares, and the signals it handles.

  \<^bold>\<open>What the lemmas show.\<close>  The ring buffer refines a bounded queue in every reachable state,
  and its listings are windows of the newest-first list.  In every interleaving a paused flow is
  resumed at most once, with the decision first made for it, and ResumeAll releases everyone.  The hooks record requests and responses as they go out, never store an
  excluded host, and keep the framing of a response right after scripts; an edited gRPC-Web body
  leaves with the new message and the other frames of the old one.  The engine isolates
  failing scripts and stops at the first answer.  Without the token no MCP tool runs, and requests
  without it leave no trace in a session.  The command line means its last settings.  Headers of script files, gRPC-Web bodies, the
  configuration, the headers of the breakpoint editor and cURL commands are read back as they
  were written.  The diff is a shortest one; wildcard matching agrees with its declarative
  meaning; raw protobuf decoding ends on every input; throttled reads respect the rate.  The UI
  never panics or blocks, except for one key on an empty list, and every start of the program that
  reaches it satisfies the invariant this needs.  The CA is created once; a browse session that ends
  in order restores the proxy settings that were on.  Where the code does not
  do what it means to, the theorem states what it does.

  \<^bold>\<open>Parameters.\<close>  What is not source code of the repository is an argument: the regular
  expressions, goja, YAML and JSON, protowire and the descriptors of protobuf, compressors,
  url.Parse, os.CreateTemp, x509 and PEM, time.ParseDuration, the commands of the operating system, the OS queries for processes, the clock, Bubble Tea's widgets, the order
  of equal elements in slices.SortFunc.  Laws about them are named hypotheses (such as \<open>pw_ok\<close> and
  \<open>goja_ok\<close>) or appear as premises of the theorem that needs them.

  \<^bold>\<open>Bounds and fuel.\<close>  Only \<open>decodeWireFields\<close> takes fuel, since it calls itself on payloads that a
  library returns; the length of the input plus one is enough for every input, which
  \<open>decode_terminates\<close> proves.  All other recursions are structural or have a measure.  int64 values are
  integers with \<open>wrap64\<close> where the code can overflow; floats of a wire are their bits.

  \<^bold>\<open>Not modelled.\<close>  Text styles and colours (lipgloss, chroma's tokens), the rendering of images, the
  transport of MCP and the JSON schemas of its tools, the compiler of .proto files, cryptography, the
  MITM library itself, HTTP clients, the external editor and the progress messages of main: these are libraries, parameters, or pure input and output.
  Mutexes are taken as making an operation atomic; the memory model of Go below that is left out.
\<close>

end
